(* ===== verification/Prelude.thy ===== *)
theory Prelude
  imports Main "HOL-Library.Word"
begin

text \<open>
  Shared vocabulary of the development: the machine integer types of the Rust sources, the
  standard-library primitives that several components use (overflowing arithmetic, \<open>?\<close> on
  results, loops that stop at the first error), and the generic lemmas about them.

  Arithmetic is that of the release profile of the workspace (\<open>Cargo.toml\<close> sets no
  \<open>overflow-checks\<close>): \<open>+\<close>, \<open>-\<close> and \<open>*\<close> on unsigned integers wrap around, and \<open>debug_assert!\<close> is
  a no-op.
\<close>

unbundle bit_operations_syntax

type_synonym u8 = "8 word"
type_synonym u32 = "32 word"
type_synonym u64 = "64 word"
type_synonym u128 = "128 word"

text \<open>Collections of rewrite rules: evaluation of results, and facts on word values.\<close>

named_theorems res_simps
named_theorems word_vals

subsection \<open>Results: the question mark operator and loops that return early\<close>

fun rbind :: "'e + 'a \<Rightarrow> ('a \<Rightarrow> 'e + 'b) \<Rightarrow> 'e + 'b" where
  "rbind (Inl e) f = Inl e"
| "rbind (Inr x) f = f x"

definition ok_or :: "'e \<Rightarrow> 'a option \<Rightarrow> 'e + 'a" where
  "ok_or e x = (case x of None \<Rightarrow> Inl e | Some v \<Rightarrow> Inr v)"

definition guard :: "'e \<Rightarrow> bool \<Rightarrow> 'e + unit" where
  "guard e b = (if b then Inr () else Inl e)"

fun traverse :: "('a \<Rightarrow> 'e + 'b) \<Rightarrow> 'a list \<Rightarrow> 'e + 'b list" where
  "traverse f [] = Inr []"
| "traverse f (x # xs) = rbind (f x) (\<lambda>y. rbind (traverse f xs) (\<lambda>ys. Inr (y # ys)))"

fun rfold :: "('s \<Rightarrow> 'a \<Rightarrow> 'e + 's) \<Rightarrow> 's \<Rightarrow> 'a list \<Rightarrow> 'e + 's" where
  "rfold f s [] = Inr s"
| "rfold f s (x # xs) = rbind (f s x) (\<lambda>s'. rfold f s' xs)"

lemma rbind_Inr_iff [res_simps]:
  "rbind m f = Inr y \<longleftrightarrow> (\<exists>x. m = Inr x \<and> f x = Inr y)"
  by (cases m) auto

lemma rbind_Inl_iff [res_simps]:
  "rbind m f = Inl e \<longleftrightarrow> m = Inl e \<or> (\<exists>x. m = Inr x \<and> f x = Inl e)"
  by (cases m) auto

lemma rbind_split:
  "P (rbind m f) \<longleftrightarrow> (\<forall>e. m = Inl e \<longrightarrow> P (Inl e)) \<and> (\<forall>x. m = Inr x \<longrightarrow> P (f x))"
  by (cases m) auto

lemma rbind_Inr_right [simp]: "rbind m Inr = m"
  by (cases m) auto

lemma rbind_assoc: "rbind (rbind m f) g = rbind m (\<lambda>x. rbind (f x) g)"
  by (cases m) auto

lemma rbind_cong [fundef_cong]:
  "m = m' \<Longrightarrow> (\<And>x. m' = Inr x \<Longrightarrow> f x = f' x) \<Longrightarrow> rbind m f = rbind m' f'"
  by (cases m') auto

lemma ok_or_simps [simp]:
  "ok_or e None = Inl e" "ok_or e (Some v) = Inr v"
  by (simp_all add: ok_or_def)

lemma ok_or_Inr_iff [res_simps]: "ok_or e x = Inr v \<longleftrightarrow> x = Some v"
  by (cases x) auto

lemma ok_or_Inl_iff [res_simps]: "ok_or e x = Inl e' \<longleftrightarrow> x = None \<and> e' = e"
  by (cases x) auto

lemma guard_simps [simp]:
  "guard e True = Inr ()" "guard e False = Inl e"
  by (simp_all add: guard_def)

lemma guard_Inr_iff [res_simps]: "guard e b = Inr u \<longleftrightarrow> b"
  by (cases b) auto

lemma guard_Inl_iff [res_simps]: "guard e b = Inl e' \<longleftrightarrow> \<not> b \<and> e' = e"
  by (cases b) auto

lemma traverse_Inr_iff:
  "traverse f xs = Inr ys \<longleftrightarrow>
     length ys = length xs \<and> (\<forall>i < length xs. f (xs ! i) = Inr (ys ! i))"
proof (induction xs arbitrary: ys)
  case Nil
  then show ?case by auto
next
  case (Cons x xs)
  show ?case
  proof (cases ys)
    case Nil
    then show ?thesis by (auto simp: res_simps)
  next
    case (Cons y ys')
    then show ?thesis
      using Cons.IH [of ys'] by (auto simp: res_simps less_Suc_eq_0_disj)
  qed
qed

lemma traverse_map_Inr:
  "(\<And>x. x \<in> set xs \<Longrightarrow> f x = Inr (g x)) \<Longrightarrow> traverse f xs = Inr (map g xs)"
  by (induction xs) auto

lemma traverse_Inr_length: "traverse f xs = Inr ys \<Longrightarrow> length ys = length xs"
  by (simp add: traverse_Inr_iff)

lemma traverse_append:
  "traverse f (xs @ ys) =
     rbind (traverse f xs) (\<lambda>as. rbind (traverse f ys) (\<lambda>bs. Inr (as @ bs)))"
  by (induction xs) (auto simp: rbind_assoc)

lemma rfold_append: "rfold f s (xs @ ys) = rbind (rfold f s xs) (\<lambda>s'. rfold f s' ys)"
  by (induction xs arbitrary: s) (auto simp: rbind_assoc)

lemma rfold_invariant:
  assumes "rfold f s xs = Inr s'" and "I s"
    and "\<And>s x s'. x \<in> set xs \<Longrightarrow> I s \<Longrightarrow> f s x = Inr s' \<Longrightarrow> I s'"
  shows "I s'"
  using assms
proof (induction xs arbitrary: s)
  case Nil
  then show ?case by simp
next
  case (Cons x xs)
  from Cons.prems(1) obtain t where t: "f s x = Inr t" "rfold f t xs = Inr s'"
    by (auto simp: res_simps)
  with Cons.prems have "I t" by auto
  with t(2) Cons.prems(3) show ?case by (auto intro: Cons.IH)
qed

subsection \<open>Overflowing arithmetic\<close>

definition overflowing_add :: "'a::len word \<Rightarrow> 'a word \<Rightarrow> 'a word \<times> bool" where
  "overflowing_add x y = (x + y, x + y < x)"

definition overflowing_sub :: "'a::len word \<Rightarrow> 'a word \<Rightarrow> 'a word \<times> bool" where
  "overflowing_sub x y = (x - y, x < y)"

lemma overflow_iff: "x + y < x \<longleftrightarrow> 2 ^ LENGTH('a) \<le> uint x + uint (y :: 'a::len word)"
proof -
  have "\<not> x \<le> x + y \<longleftrightarrow> \<not> uint x + uint y < 2 ^ LENGTH('a)"
    by (simp add: no_olen_add)
  then show ?thesis by (simp add: not_le not_less)
qed

lemma uint_add_cases:
  fixes x y :: "'a::len word"
  shows "uint (x + y) =
    (if 2 ^ LENGTH('a) \<le> uint x + uint y then uint x + uint y - 2 ^ LENGTH('a) else uint x + uint y)"
  by (simp add: uint_plus_if')

lemma uint_sub_cases:
  fixes x y :: "'a::len word"
  shows "uint (x - y) =
    (if uint x < uint y then uint x - uint y + 2 ^ LENGTH('a) else uint x - uint y)"
  by (simp add: uint_sub_if')

lemma uint_less_2p64 [word_vals]: "uint (x :: u64) < 18446744073709551616"
  using uint_lt2p [of x] by simp

lemma uint_less_2p32 [word_vals]: "uint (x :: u32) < 4294967296"
  using uint_lt2p [of x] by simp

lemma uint_less_2p128 [word_vals]: "uint (x :: u128) < 340282366920938463463374607431768211456"
  using uint_lt2p [of x] by simp


subsection \<open>Stateful computations that may fail\<close>

text \<open>
  A computation that changes a state which outlives an error: the state is returned on both branches.
\<close>

type_synonym ('s, 'e, 'a) stres = "'s \<Rightarrow> 's \<times> ('e + 'a)"

definition slift :: "'e + 'a \<Rightarrow> ('s, 'e, 'a) stres" where
  "slift r s = (s, r)"

definition sbind :: "('s, 'e, 'a) stres \<Rightarrow> ('a \<Rightarrow> ('s, 'e, 'b) stres) \<Rightarrow> ('s, 'e, 'b) stres" where
  "sbind m f s = (case m s of (s', Inl e) \<Rightarrow> (s', Inl e) | (s', Inr x) \<Rightarrow> f x s')"

fun sfold :: "('a \<Rightarrow> 'x \<Rightarrow> ('s, 'e, 'a) stres) \<Rightarrow> 'a \<Rightarrow> 'x list \<Rightarrow> ('s, 'e, 'a) stres" where
  "sfold f a [] = slift (Inr a)"
| "sfold f a (x # xs) = sbind (f a x) (\<lambda>a'. sfold f a' xs)"

lemma slift_apply [simp]: "slift r s = (s, r)"
  by (simp add: slift_def)

lemma sbind_slift [simp]:
  "sbind (slift (Inl e)) f = slift (Inl e)" "sbind (slift (Inr x)) f = f x"
  by (simp_all add: sbind_def fun_eq_iff)

lemma sbind_Inr_iff [res_simps]:
  "sbind m f s = (t, Inr y) \<longleftrightarrow> (\<exists>s' x. m s = (s', Inr x) \<and> f x s' = (t, Inr y))"
  by (auto simp: sbind_def split: prod.splits sum.splits)

lemma sbind_Inl_iff [res_simps]:
  "sbind m f s = (t, Inl e) \<longleftrightarrow> m s = (t, Inl e) \<or> (\<exists>s' x. m s = (s', Inr x) \<and> f x s' = (t, Inl e))"
  by (auto simp: sbind_def split: prod.splits sum.splits)

lemma sbind_assoc: "sbind (sbind m f) g = sbind m (\<lambda>x. sbind (f x) g)"
  by (auto simp: sbind_def fun_eq_iff split: prod.splits sum.splits)

text \<open>\<open>keeps R m\<close>: whatever the outcome, the state before and the state after are related by \<open>R\<close>.\<close>

definition keeps :: "('s \<Rightarrow> 's \<Rightarrow> bool) \<Rightarrow> ('s, 'e, 'a) stres \<Rightarrow> bool" where
  "keeps R m \<longleftrightarrow> (\<forall>s. R s (fst (m s)))"

lemma keepsI: "(\<And>s. R s (fst (m s))) \<Longrightarrow> keeps R m"
  by (simp add: keeps_def)

lemma keepsD: "keeps R m \<Longrightarrow> m s = (s', r) \<Longrightarrow> R s s'"
  unfolding keeps_def by (metis fst_conv)

lemma keeps_slift: "reflp R \<Longrightarrow> keeps R (slift r)"
  by (simp add: keeps_def reflpD)

lemma keeps_sbind:
  assumes "transp R" "keeps R m" "\<And>x. keeps R (f x)"
  shows "keeps R (sbind m f)"
proof (rule keepsI)
  fix s
  have m: "R s (fst (m s))" using assms(2) by (simp add: keeps_def)
  show "R s (fst (sbind m f s))"
  proof (cases "snd (m s)")
    case (Inr x)
    have "R (fst (m s)) (fst (f x (fst (m s))))" using assms(3) by (simp add: keeps_def)
    with m Inr show ?thesis
      using transpD [OF assms(1)] by (auto simp: sbind_def split: prod.splits)
  qed (use m in \<open>auto simp: sbind_def split: prod.splits\<close>)
qed

lemma keeps_sfold:
  "reflp R \<Longrightarrow> transp R \<Longrightarrow> (\<And>a x. keeps R (f a x)) \<Longrightarrow> keeps R (sfold f a xs)"
  by (induction xs arbitrary: a) (auto intro: keeps_slift keeps_sbind)

end
