(* ===== verification/Goldilocks.thy ===== *)
theory Goldilocks
  imports Prelude
begin

text \<open>
  The Goldilocks prime field (\<open>plonky2/field/src/goldilocks_field.rs\<close>): the word-level operations
  on the transparent wrapper \<open>GoldilocksField(u64)\<close>, and the proof that each computes the field
  operation modulo \<open>p = 2^64 - 2^32 + 1\<close> for every representative, canonical or not.
  The locale \<open>modular_ring\<close> states what clients (the executor, the hash layers) rely on.
\<close>

subsection \<open>The operations\<close>

type_synonym felt = u64

definition EPSILON :: u64 where "EPSILON = 0xFFFFFFFF"

definition ORDER :: u64 where "ORDER = 0xFFFFFFFF00000001"

definition NEG_ONE :: felt where "NEG_ONE = ORDER - 1"

definition from_canonical_u64 :: "u64 \<Rightarrow> felt" where
  "from_canonical_u64 n = n"

definition to_canonical_u64 :: "felt \<Rightarrow> u64" where
  "to_canonical_u64 x = (if ORDER \<le> x then x - ORDER else x)"

definition gf_eq :: "felt \<Rightarrow> felt \<Rightarrow> bool" where
  "gf_eq x y \<longleftrightarrow> to_canonical_u64 x = to_canonical_u64 y"

definition from_noncanonical_i64 :: "64 word \<Rightarrow> felt" where
  "from_noncanonical_i64 n = from_canonical_u64 (if sint n < 0 then ORDER + n else n)"

definition add_canonical_u64 :: "felt \<Rightarrow> u64 \<Rightarrow> felt" where
  "add_canonical_u64 x rhs =
     (let (res_wrapped, carry) = overflowing_add x rhs
      in res_wrapped + EPSILON * of_bool carry)"

definition sub_canonical_u64 :: "felt \<Rightarrow> u64 \<Rightarrow> felt" where
  "sub_canonical_u64 x rhs =
     (let (res_wrapped, borrow) = overflowing_sub x rhs
      in res_wrapped - EPSILON * of_bool borrow)"

definition gf_neg :: "felt \<Rightarrow> felt" where
  "gf_neg x = (if gf_eq x 0 then 0 else ORDER - to_canonical_u64 x)"

definition gf_add :: "felt \<Rightarrow> felt \<Rightarrow> felt" where
  "gf_add x y =
     (let (sum, over) = overflowing_add x y;
          (sum, over) = overflowing_add sum (of_bool over * EPSILON)
      in if over then sum + EPSILON else sum)"

text \<open>The \<open>assume\<close> hint of the double-overflow branch: reaching it with the condition false is
  undefined behaviour.\<close>

definition gf_add_assume :: "felt \<Rightarrow> felt \<Rightarrow> bool" where
  "gf_add_assume x y =
     (let (sum, over) = overflowing_add x y;
          (sum, over) = overflowing_add sum (of_bool over * EPSILON)
      in if over then ORDER < x \<and> ORDER < y else True)"

definition gf_sub :: "felt \<Rightarrow> felt \<Rightarrow> felt" where
  "gf_sub x y =
     (let (diff, under) = overflowing_sub x y;
          (diff, under) = overflowing_sub diff (of_bool under * EPSILON)
      in if under then diff - EPSILON else diff)"

definition gf_sub_assume :: "felt \<Rightarrow> felt \<Rightarrow> bool" where
  "gf_sub_assume x y =
     (let (diff, under) = overflowing_sub x y;
          (diff, under) = overflowing_sub diff (of_bool under * EPSILON)
      in if under then x < EPSILON - 1 \<and> ORDER < y else True)"

definition add_no_canonicalize_trashing_input :: "u64 \<Rightarrow> u64 \<Rightarrow> u64" where
  "add_no_canonicalize_trashing_input x y =
     (let (res_wrapped, carry) = overflowing_add x y
      in res_wrapped + EPSILON * of_bool carry)"

definition split_u128 :: "u128 \<Rightarrow> u64 \<times> u64" where
  "split_u128 x = (ucast x, ucast (drop_bit 64 x))"

definition reduce128 :: "u128 \<Rightarrow> felt" where
  "reduce128 x =
     (let (x_lo, x_hi) = split_u128 x;
          x_hi_hi = drop_bit 32 x_hi;
          x_hi_lo = x_hi AND EPSILON;
          (t0, borrow) = overflowing_sub x_lo x_hi_hi;
          t0 = (if borrow then t0 - EPSILON else t0);
          t1 = x_hi_lo * EPSILON
      in add_no_canonicalize_trashing_input t0 t1)"

definition reduce160 :: "u128 \<Rightarrow> u32 \<Rightarrow> felt" where
  "reduce160 x_lo x_hi =
     (let x_hi' = ucast (drop_bit 96 x_lo) + push_bit 32 (ucast x_hi :: u64);
          x_mid = (ucast (drop_bit 64 x_lo) :: u32);
          x_lo' = (ucast x_lo :: u64);
          (t0, borrow) = overflowing_sub x_lo' x_hi';
          t0 = (if borrow then t0 - EPSILON else t0);
          t1 = (ucast x_mid :: u64) * EPSILON
      in add_no_canonicalize_trashing_input t0 t1)"

definition gf_mul :: "felt \<Rightarrow> felt \<Rightarrow> felt" where
  "gf_mul x y = reduce128 (ucast x * ucast y)"

definition multiply_accumulate :: "felt \<Rightarrow> felt \<Rightarrow> felt \<Rightarrow> felt" where
  "multiply_accumulate self x y = reduce128 (ucast self + ucast x * ucast y)"

definition gf_sum :: "felt list \<Rightarrow> felt" where
  "gf_sum xs = foldl gf_add 0 xs"

definition gf_product :: "felt list \<Rightarrow> felt" where
  "gf_product xs = foldl gf_mul 1 xs"

subsection \<open>The value of a representative\<close>

definition gf_p :: int where "gf_p = 18446744069414584321"

definition gf_val :: "felt \<Rightarrow> int" where "gf_val x = uint x mod gf_p"

lemma uint_ORDER [simp, word_vals]: "uint ORDER = gf_p"
  by (simp add: ORDER_def gf_p_def)

lemma uint_EPSILON [simp, word_vals]: "uint EPSILON = 4294967295"
  by (simp add: EPSILON_def)

lemma uint_two_EPSILON [simp, word_vals]: "uint (2 * EPSILON) = 8589934590"
  by (simp add: EPSILON_def)

lemma gf_p_pos [simp]: "0 < gf_p" "gf_p \<noteq> 0"
  by (simp_all add: gf_p_def)

lemma gf_val_range [simp]: "0 \<le> gf_val x" "gf_val x < gf_p"
  by (simp_all add: gf_val_def)

text \<open>Adding or removing \<open>2^64\<close> is adding or removing \<open>EPSILON\<close> in the field.\<close>

lemma gf_mod_2p64:
  "(n + 18446744073709551616) mod gf_p = (n + 4294967295) mod gf_p"
proof -
  have "n + 18446744073709551616 = (n + 4294967295) + gf_p"
    by (simp add: gf_p_def)
  then show ?thesis by (metis mod_add_self2)
qed

lemma gf_mod_shift: "a = b + k * gf_p \<Longrightarrow> a mod gf_p = b mod gf_p"
  by simp

lemma uint_gf_add_cases:
  "uint (gf_add x y) =
    (let s = uint x + uint y in
     if s < 18446744073709551616 then s
     else if s < 18446744073709551616 + gf_p then s - gf_p else s - 2 * gf_p)"
  using uint_less_2p64 [of x] uint_less_2p64 [of y]
  by (auto simp: gf_add_def overflowing_add_def Let_def overflow_iff uint_add_cases gf_p_def)

lemma uint_gf_sub_cases:
  "uint (gf_sub x y) =
    (let d = uint x - uint y in
     if 0 \<le> d then d else if - gf_p \<le> d then d + gf_p else d + 2 * gf_p)"
  using uint_less_2p64 [of x] uint_less_2p64 [of y] uint_ge_0 [of x] uint_ge_0 [of y]
  by (auto simp: gf_sub_def overflowing_sub_def Let_def word_less_def uint_sub_cases gf_p_def)


lemma gf_mod_multiples [simp]:
  "(a - gf_p) mod gf_p = a mod gf_p" "(a - 2 * gf_p) mod gf_p = a mod gf_p"
  "(a + 2 * gf_p) mod gf_p = a mod gf_p"
  using gf_mod_shift [of "a - 2 * gf_p" a "-2"] by simp_all

lemma gf_add_val: "gf_val (gf_add x y) = (gf_val x + gf_val y) mod gf_p"
  by (simp add: gf_val_def mod_add_eq uint_gf_add_cases Let_def)

lemma gf_sub_val: "gf_val (gf_sub x y) = (gf_val x - gf_val y) mod gf_p"
  by (simp add: gf_val_def mod_diff_eq uint_gf_sub_cases Let_def)

lemma uint_to_canonical_u64: "uint (to_canonical_u64 x) = gf_val x"
proof (cases "ORDER \<le> x")
  case True
  then have le: "gf_p \<le> uint x" by (simp add: word_le_def)
  have "uint x mod gf_p = uint x - gf_p"
  proof (rule mod_pos_pos_trivial [of "uint x - gf_p" gf_p, simplified, THEN trans [rotated]])
  qed (use le uint_less_2p64 [of x] in \<open>simp_all add: gf_p_def\<close>)
  with True le show ?thesis
    by (simp add: to_canonical_u64_def uint_sub_cases gf_val_def)
next
  case False
  then have "uint x < gf_p" by (simp add: word_le_def)
  with False show ?thesis by (simp add: to_canonical_u64_def gf_val_def)
qed


lemma uint_to_canonical_less [simp]: "uint (to_canonical_u64 x) < gf_p"
  by (simp add: uint_to_canonical_u64)

lemma to_canonical_less_ORDER: "to_canonical_u64 x < ORDER"
  by (simp add: word_less_def)

lemma to_canonical_id: "x < ORDER \<Longrightarrow> to_canonical_u64 x = x"
  by (auto simp: to_canonical_u64_def)

lemma to_canonical_idem [simp]: "to_canonical_u64 (to_canonical_u64 x) = to_canonical_u64 x"
  by (simp add: to_canonical_id to_canonical_less_ORDER)

lemma gf_val_canonical [simp]: "gf_val (to_canonical_u64 x) = gf_val x"
  by (simp add: gf_val_def [of "to_canonical_u64 x"] uint_to_canonical_u64)

lemma gf_eq_iff: "gf_eq x y \<longleftrightarrow> gf_val x = gf_val y"
  by (metis gf_eq_def uint_to_canonical_u64 word_uint_eq_iff)

lemma to_canonical_eq_iff: "to_canonical_u64 x = to_canonical_u64 y \<longleftrightarrow> gf_val x = gf_val y"
  using gf_eq_iff by (simp add: gf_eq_def)

lemma gf_val_0 [simp]: "gf_val 0 = 0" and gf_val_1 [simp]: "gf_val 1 = 1"
  by (simp_all add: gf_val_def gf_p_def)

lemma gf_neg_val: "gf_val (gf_neg x) = (- gf_val x) mod gf_p"
proof (cases "gf_val x = 0")
  case True
  then show ?thesis by (simp add: gf_neg_def gf_eq_iff)
next
  case False
  have "uint (ORDER - to_canonical_u64 x) = gf_p - gf_val x"
    by (simp add: uint_sub_cases uint_to_canonical_u64 not_less less_imp_le)
  with False show ?thesis
    by (simp add: gf_neg_def gf_eq_iff gf_val_def [of "ORDER - to_canonical_u64 x"] zmod_zminus1_eq_if)
qed

lemma gf_add_assume_holds: "gf_add_assume x y"
  using uint_less_2p64 [of x] uint_less_2p64 [of y]
  by (auto simp: gf_add_assume_def overflowing_add_def Let_def overflow_iff uint_add_cases
      word_less_def gf_p_def)

lemma gf_sub_assume_holds: "gf_sub_assume x y"
  using uint_less_2p64 [of x] uint_less_2p64 [of y]
  by (auto simp: gf_sub_assume_def overflowing_sub_def Let_def uint_sub_cases
      word_less_def gf_p_def) (use uint_ge_0 [of x] in linarith)

lemma uint_add_no_canonicalize:
  assumes "uint x + uint y < 18446744073709551616 + gf_p"
  shows "uint (add_no_canonicalize_trashing_input x y) =
    (if uint x + uint y < 18446744073709551616 then uint x + uint y else uint x + uint y - gf_p)"
  using assms uint_less_2p64 [of x] uint_less_2p64 [of y]
  by (auto simp: add_no_canonicalize_trashing_input_def overflowing_add_def Let_def overflow_iff
      uint_add_cases gf_p_def)


subsection \<open>Reduction of double-width products\<close>

lemma uint_lo64 [word_vals]: "uint (ucast (x :: u128) :: u64) = uint x mod 18446744073709551616"
  by (simp add: unsigned_ucast_eq take_bit_eq_mod)

lemma uint_drop128 [word_vals]: "uint (drop_bit n (x :: u128)) = uint x div 2 ^ n"
  unfolding unsigned_drop_bit_eq
  by (simp add: drop_bit_eq_div take_bit_int_eq_self uint_less_2p128 uint_less_2p64)

lemma uint_drop64 [word_vals]: "uint (drop_bit n (x :: u64)) = uint x div 2 ^ n"
  unfolding unsigned_drop_bit_eq
  by (simp add: drop_bit_eq_div take_bit_int_eq_self uint_less_2p128 uint_less_2p64)

lemma uint_and_EPSILON [word_vals]: "uint (x AND EPSILON) = uint x mod 4294967296"
proof -
  have "uint (x AND EPSILON) = uint x AND mask 32"
    by (simp add: uint_and mask_eq_exp_minus_1)
  also have "\<dots> = uint x mod 2 ^ 32"
    by (simp only: take_bit_eq_mask [symmetric] take_bit_eq_mod)
  finally show ?thesis by simp
qed

lemma uint_ucast_u128 [word_vals]: "uint (ucast (x :: u64) :: u128) = uint x"
  using uint_less_2p64 [of x] by (simp add: unsigned_ucast_eq take_bit_int_eq_self_iff)

lemma uint_ucast_u128_u32 [word_vals]: "uint (ucast (x :: u128) :: u32) = uint x mod 4294967296"
  unfolding unsigned_ucast_eq by (simp add: take_bit_eq_mod)

lemma uint_ucast_u32_u64 [word_vals]: "uint (ucast (x :: u32) :: u64) = uint x"
  using uint_less_2p32 [of x] unfolding unsigned_ucast_eq by (simp add: take_bit_int_eq_self)

text \<open>The arithmetic core: \<open>2^64\<close> is \<open>2^32 - 1\<close> and \<open>2^96\<close> is \<open>-1\<close> modulo \<open>p\<close>.\<close>

lemma gf_mod_limbs:
  "(lo + 18446744073709551616 * mid + 79228162514264337593543950336 * hi) mod gf_p =
   (lo + 4294967295 * mid - hi) mod gf_p"
proof -
  have "lo + 18446744073709551616 * mid + 79228162514264337593543950336 * hi =
      (lo + 4294967295 * mid - hi) + (mid + 4294967296 * hi) * gf_p
        + (hi * (79228162514264337593543950336 + 1 - 4294967296 * gf_p))"
    by (simp add: gf_p_def algebra_simps)
  also have "hi * (79228162514264337593543950336 + 1 - 4294967296 * gf_p) = hi * gf_p"
    by (simp add: gf_p_def)
  finally show ?thesis
    by (metis (no_types, lifting) mod_mult_self1 mult.commute)
qed


text \<open>The common tail of \<open>reduce128\<close> and \<open>reduce160\<close>: \<open>lo - hi + mid * EPSILON\<close> with at most one
  borrow and at most one carry.\<close>

lemma gf_val_reduce_tail:
  fixes lo hi mid :: u64
  assumes hi: "uint hi \<le> gf_p" and mid: "uint mid < 4294967296"
  defines "t0 \<equiv> (if lo < hi then lo - hi - EPSILON else lo - hi)"
  shows "gf_val (add_no_canonicalize_trashing_input t0 (mid * EPSILON)) =
    (uint lo + 4294967295 * uint mid - uint hi) mod gf_p"
proof -
  have t0: "uint t0 = (if uint lo < uint hi then uint lo - uint hi + gf_p else uint lo - uint hi)"
    using hi uint_less_2p64 [of lo]
    by (auto simp: t0_def word_less_def uint_sub_cases gf_p_def) (use uint_ge_0 [of lo] in linarith)
  have small: "uint mid * 4294967295 \<le> 4294967295 * 4294967295"
    using mid by simp
  have "uint (mid * EPSILON) = uint mid * 4294967295 mod 18446744073709551616"
    by (simp add: uint_word_ariths)
  also have "\<dots> = uint mid * 4294967295"
    using small by (intro mod_pos_pos_trivial) simp_all
  finally have t1: "uint (mid * EPSILON) = uint mid * 4294967295" .
  have "uint t0 < 18446744073709551616" by (rule uint_less_2p64)
  then have sum: "uint t0 + uint (mid * EPSILON) < 18446744073709551616 + gf_p"
    using small unfolding t1 by (simp add: gf_p_def)
  have "gf_val (add_no_canonicalize_trashing_input t0 (mid * EPSILON)) =
      (uint t0 + uint (mid * EPSILON)) mod gf_p"
    unfolding gf_val_def uint_add_no_canonicalize [OF sum] by simp
  also have "\<dots> = (uint lo - uint hi + uint mid * 4294967295) mod gf_p"
    unfolding t1 t0 by (auto intro: gf_mod_shift [where k = 1])
  finally show ?thesis by (simp add: algebra_simps)
qed


lemma hi64_less: "uint (x :: u128) div 18446744073709551616 < 18446744073709551616"
proof -
  have "uint x \<le> 340282366920938463463374607431768211455"
    using uint_less_2p128 [of x] by linarith
  from zdiv_mono1 [OF this, of 18446744073709551616] show ?thesis by simp
qed

lemma three_limbs:
  "n mod a + a * (n div a mod b) + (a * b) * (n div a div b) = (n :: int)"
proof -
  have "a * (n div a mod b) + (a * b) * (n div a div b) = a * (b * (n div a div b) + n div a mod b)"
    by (simp only: distrib_left mult.assoc add.commute)
  then show ?thesis by (simp only: add.assoc mult_div_mod_eq mod_mult_div_eq)
qed

lemma reduce128_val: "gf_val (reduce128 x) = uint x mod gf_p"
proof -
  define lo hi where "lo = fst (split_u128 x)" and "hi = snd (split_u128 x)"
  have lo: "uint lo = uint x mod 18446744073709551616"
    and hi: "uint hi = uint x div 18446744073709551616"
    using hi64_less [of x]
    by (simp_all add: lo_def hi_def split_u128_def uint_lo64 uint_drop128 pos_imp_zdiv_nonneg_iff)
  define hh hl where "hh = drop_bit 32 hi" and "hl = hi AND EPSILON"
  have hh: "uint hh = uint hi div 4294967296" and hl: "uint hl = uint hi mod 4294967296"
    by (simp_all add: hh_def hl_def uint_drop64 uint_and_EPSILON)
  have "uint hh \<le> gf_p" "uint hl < 4294967296"
    using uint_less_2p64 [of hi] by (simp_all add: hh hl gf_p_def)
  then have "gf_val (reduce128 x) = (uint lo + 4294967295 * uint hl - uint hh) mod gf_p"
    using gf_val_reduce_tail [of hh hl lo]
    by (cases "lo < hh") (simp_all add: reduce128_def overflowing_sub_def Let_def case_prod_beta
        flip: lo_def hi_def hh_def hl_def)
  also have "\<dots> = (uint lo + 18446744073709551616 * uint hl
      + 79228162514264337593543950336 * uint hh) mod gf_p"
    by (rule gf_mod_limbs [symmetric])
  also have "uint lo + 18446744073709551616 * uint hl + 79228162514264337593543950336 * uint hh
      = uint x"
    unfolding lo hh hl hi using three_limbs [of "uint x" 18446744073709551616 4294967296] by simp
  finally show ?thesis .
qed


lemma gf_mul_val: "gf_val (gf_mul x y) = (gf_val x * gf_val y) mod gf_p"
proof -
  have "uint x * uint y < 18446744073709551616 * 18446744073709551616"
    using uint_less_2p64 [of x] uint_less_2p64 [of y] by (intro mult_strict_mono) simp_all
  then have "uint (ucast x * ucast y :: u128) = uint x * uint y"
    by (simp add: uint_word_ariths uint_ucast_u128)
  then show ?thesis
    unfolding gf_mul_def reduce128_val by (simp add: gf_val_def mod_mult_eq)
qed

lemma multiply_accumulate_val:
  "gf_val (multiply_accumulate a x y) = (gf_val a + gf_val x * gf_val y) mod gf_p"
proof -
  have "uint x * uint y \<le> 18446744073709551615 * 18446744073709551615"
    using uint_less_2p64 [of x] uint_less_2p64 [of y] by (intro mult_mono) simp_all
  then have "uint (ucast a + ucast x * ucast y :: u128) = uint a + uint x * uint y"
    using uint_less_2p64 [of a] by (simp add: uint_word_ariths uint_ucast_u128)
  then have "gf_val (multiply_accumulate a x y) = (uint a + uint x * uint y) mod gf_p"
    unfolding multiply_accumulate_def reduce128_val by simp
  also have "\<dots> = (uint a mod gf_p + (uint x mod gf_p) * (uint y mod gf_p) mod gf_p) mod gf_p"
    by (simp only: mod_add_eq mod_mult_eq)
  finally show ?thesis by (simp add: gf_val_def mod_add_right_eq)
qed

text \<open>\<open>reduce160\<close> takes the 160-bit value \<open>x_lo + x_hi * 2^128\<close> under the documented assumption
  \<open>x < 2^160 - 2^128 + 2^96\<close>.\<close>

lemma reduce160_val:
  assumes "uint x_lo + 340282366920938463463374607431768211456 * uint x_hi
    < 2 ^ 160 - 2 ^ 128 + 2 ^ 96"
  shows "gf_val (reduce160 x_lo x_hi) =
    (uint x_lo + 340282366920938463463374607431768211456 * uint x_hi) mod gf_p"
proof -
  define lo where "lo = (ucast x_lo :: u64)"
  define mid where "mid = (ucast (ucast (drop_bit 64 x_lo) :: u32) :: u64)"
  define hi where "hi = (ucast (drop_bit 96 x_lo) :: u64) + push_bit 32 (ucast x_hi :: u64)"
  let ?n = "uint x_lo + 340282366920938463463374607431768211456 * uint x_hi"
  have lo: "uint lo = uint x_lo mod 18446744073709551616"
    by (simp add: lo_def uint_lo64)
  have mid: "uint mid = uint x_lo div 18446744073709551616 mod 4294967296"
    by (simp add: mid_def uint_ucast_u32_u64 uint_ucast_u128_u32 uint_drop128)
  have "uint x_lo \<le> 340282366920938463463374607431768211455"
    using uint_less_2p128 [of x_lo] by linarith
  from zdiv_mono1 [OF this, of 79228162514264337593543950336]
  have d: "uint x_lo div 79228162514264337593543950336 < 4294967296" by simp
  have a: "uint (ucast (drop_bit 96 x_lo) :: u64) = uint x_lo div 79228162514264337593543950336"
    using d by (simp add: uint_lo64 uint_drop128 pos_imp_zdiv_nonneg_iff)
  have b: "uint (push_bit 32 (ucast x_hi :: u64)) = 4294967296 * uint x_hi"
    using uint_less_2p32 [of x_hi]
    by (simp add: push_bit_eq_mult uint_word_ariths unsigned_ucast_eq take_bit_eq_mod)
  have hi: "uint hi = uint x_lo div 79228162514264337593543950336 + 4294967296 * uint x_hi"
    using d uint_less_2p32 [of x_hi] unfolding hi_def
    by (simp add: uint_add_cases a b)
  have n: "?n = uint lo + 18446744073709551616 * uint mid + 79228162514264337593543950336 * uint hi"
    using three_limbs [of "uint x_lo" 18446744073709551616 4294967296]
    unfolding lo mid hi by (simp add: algebra_simps zdiv_zmult2_eq [symmetric])
  have "79228162514264337593543950336 * uint hi \<le> ?n"
    unfolding n by simp
  with assms have "uint hi \<le> gf_p" by (simp add: gf_p_def)
  moreover have "uint mid < 4294967296" by (simp add: mid)
  ultimately have "gf_val (reduce160 x_lo x_hi) =
      (uint lo + 4294967295 * uint mid - uint hi) mod gf_p"
    using gf_val_reduce_tail [of hi mid lo]
    by (cases "lo < hi") (simp_all add: reduce160_def overflowing_sub_def Let_def case_prod_beta
        flip: lo_def mid_def hi_def)
  then show ?thesis unfolding n gf_mod_limbs .
qed


subsection \<open>The remaining constructors and folds\<close>

lemma add_canonical_val:
  assumes "rhs < ORDER"
  shows "gf_val (add_canonical_u64 x rhs) = (gf_val x + uint rhs) mod gf_p"
proof -
  have "uint x + uint rhs < 18446744073709551616 + gf_p"
    using assms uint_less_2p64 [of x] by (simp add: word_less_def)
  from uint_add_no_canonicalize [OF this] show ?thesis
    by (simp add: gf_val_def add_canonical_u64_def add_no_canonicalize_trashing_input_def mod_add_left_eq)
qed

lemma sub_canonical_val:
  assumes "rhs < ORDER"
  shows "gf_val (sub_canonical_u64 x rhs) = (gf_val x - uint rhs) mod gf_p"
proof -
  have "uint (sub_canonical_u64 x rhs) =
      (if uint x < uint rhs then uint x - uint rhs + gf_p else uint x - uint rhs)"
    using assms uint_less_2p64 [of x] uint_less_2p64 [of rhs]
    by (auto simp: sub_canonical_u64_def overflowing_sub_def Let_def word_less_def uint_sub_cases gf_p_def)
      (use uint_ge_0 [of x] in linarith)+
  then show ?thesis by (simp add: gf_val_def mod_diff_left_eq)
qed

lemma uint_of_sint:
  "uint (n :: 64 word) = (if sint n < 0 then sint n + 18446744073709551616 else sint n)"
proof -
  have b: "- 9223372036854775808 \<le> sint n" "sint n < 9223372036854775808"
    using sint_ge [of n] sint_lt [of n] by simp_all
  have u: "uint n = sint n mod 18446744073709551616"
    by (simp add: uint_sint [of n] take_bit_eq_mod del: take_bit_signed_take_bit)
  show ?thesis
  proof (cases "sint n < 0")
    case True
    have "(sint n + 18446744073709551616) mod 18446744073709551616 = sint n + 18446744073709551616"
      using b True by (intro mod_pos_pos_trivial) simp_all
    with True u show ?thesis by simp
  next
    case False
    with b u show ?thesis by (simp add: mod_pos_pos_trivial)
  qed
qed

lemma from_noncanonical_i64_val: "gf_val (from_noncanonical_i64 n) = sint n mod gf_p"
proof (cases "sint n < 0")
  case True
  have s: "sint n = uint n - 18446744073709551616"
    using True by (simp add: uint_of_sint)
  have "- 9223372036854775808 \<le> sint n" using sint_ge [of n] by simp
  then have "uint (ORDER + n) = gf_p + sint n"
    using True by (simp add: uint_add_cases s gf_p_def)
  with True show ?thesis
    by (simp add: from_noncanonical_i64_def from_canonical_u64_def gf_val_def)
next
  case False
  then have "sint n = uint n"
    by (simp add: uint_of_sint)
  with False show ?thesis
    by (simp add: from_noncanonical_i64_def from_canonical_u64_def gf_val_def)
qed

subsection \<open>The interface: a ring of representatives modulo p\<close>

locale modular_ring =
  fixes p :: int
    and val :: "'a \<Rightarrow> int"
    and zero one :: 'a
    and add sub mul :: "'a \<Rightarrow> 'a \<Rightarrow> 'a"
    and neg :: "'a \<Rightarrow> 'a"
  assumes val_mod: "val x mod p = val x"
    and val_zero: "val zero = 0"
    and val_one: "val one = 1"
    and val_add: "val (add x y) = (val x + val y) mod p"
    and val_sub: "val (sub x y) = (val x - val y) mod p"
    and val_mul: "val (mul x y) = (val x * val y) mod p"
    and val_neg: "val (neg x) = (- val x) mod p"
begin

lemmas val_ops = val_zero val_one val_add val_sub val_mul val_neg

lemma val_add_assoc: "val (add (add x y) z) = val (add x (add y z))"
  by (simp add: val_ops mod_simps algebra_simps)

lemma val_mul_assoc: "val (mul (mul x y) z) = val (mul x (mul y z))"
  by (simp add: val_ops mod_simps algebra_simps)

lemma val_distrib: "val (mul x (add y z)) = val (add (mul x y) (mul x z))"
  by (simp add: val_ops mod_simps algebra_simps)

lemma val_sub_add: "val (add (sub x y) y) = val x"
  by (simp add: val_ops mod_simps val_mod)

lemma val_add_neg: "val (add x (neg x)) = 0"
  by (simp add: val_ops mod_simps)

lemma val_foldl_add: "val (foldl add a xs) = (val a + sum_list (map val xs)) mod p"
  by (induction xs arbitrary: a) (simp_all add: val_ops mod_simps val_mod algebra_simps)

lemma val_foldl_mul: "val (foldl mul a xs) = (val a * prod_list (map val xs)) mod p"
  by (induction xs arbitrary: a) (simp_all add: val_ops mod_simps val_mod algebra_simps)

lemma val_dot:
  "val (foldl (\<lambda>acc (x, y). add acc (mul x y)) a xys) =
     (val a + (\<Sum>(x, y) \<leftarrow> xys. val x * val y)) mod p"
  by (induction xys arbitrary: a) (auto simp: val_ops mod_simps val_mod algebra_simps)

lemma val_cube_times_fourth:
  "val (mul (mul x (mul x x)) (mul (mul x x) (mul x x))) = val x ^ 7 mod p"
proof -
  have "val (mul (mul x (mul x x)) (mul (mul x x) (mul x x))) =
      (val x * (val x * val x)) * ((val x * val x) * (val x * val x)) mod p"
    by (simp only: val_mul mod_simps)
  also have "(val x * (val x * val x)) * ((val x * val x) * (val x * val x)) = val x ^ 7"
    by (simp add: eval_nat_numeral)
  finally show ?thesis .
qed

end

interpretation gf: modular_ring gf_p gf_val 0 1 gf_add gf_sub gf_mul gf_neg
  by unfold_locales
    (simp_all add: gf_add_val gf_sub_val gf_mul_val gf_neg_val mod_pos_pos_trivial)

lemmas gf_val_ops = gf_add_val gf_sub_val gf_mul_val gf_neg_val

lemma gf_sum_val: "gf_val (gf_sum xs) = sum_list (map gf_val xs) mod gf_p"
  by (simp add: gf_sum_def gf.val_foldl_add)

lemma gf_product_val: "gf_val (gf_product xs) = prod_list (map gf_val xs) mod gf_p"
  by (simp add: gf_product_def gf.val_foldl_mul)

subsection \<open>Properties\<close>

text \<open>
  C19 Every field operation, on any 64-bit representatives (canonical or not), is the operation modulo
  p = 2^64 - 2^32 + 1: the carries and borrows the code folds back with \<open>EPSILON\<close> lose nothing.
\<close>

theorem field_operations_correct:
  "gf_val (gf_add x y) = (gf_val x + gf_val y) mod gf_p \<and>
   gf_val (gf_sub x y) = (gf_val x - gf_val y) mod gf_p \<and>
   gf_val (gf_mul x y) = (gf_val x * gf_val y) mod gf_p \<and>
   gf_val (gf_neg x) = (- gf_val x) mod gf_p \<and>
   gf_val (multiply_accumulate z x y) = (gf_val z + gf_val x * gf_val y) mod gf_p \<and>
   gf_val (gf_sum xs) = sum_list (map gf_val xs) mod gf_p \<and>
   gf_val (gf_product xs) = prod_list (map gf_val xs) mod gf_p \<and>
   gf_val (from_noncanonical_i64 n) = sint n mod gf_p"
  by (simp add: gf_val_ops multiply_accumulate_val gf_sum_val gf_product_val from_noncanonical_i64_val)

text \<open>
  C20 \<open>to_canonical_u64\<close> picks the representative below the modulus with a single conditional
  subtraction, and the field's equality is equality of residues.
\<close>

theorem canonical_representative:
  "to_canonical_u64 x < ORDER \<and> uint (to_canonical_u64 x) = uint x mod gf_p \<and>
   (gf_eq x y \<longleftrightarrow> uint x mod gf_p = uint y mod gf_p)"
  using to_canonical_less_ORDER [of x] uint_to_canonical_u64 [of x] gf_eq_iff [of x y]
  by (simp add: gf_val_def)

text \<open>
  C21 The conditions that \<open>add\<close> and \<open>sub\<close> hand to the compiler as assumptions on the rare double
  carry or double borrow hold for all inputs, so the hints introduce no undefined behaviour.
\<close>

theorem assume_hints_hold: "gf_add_assume x y \<and> gf_sub_assume x y"
  by (simp add: gf_add_assume_holds gf_sub_assume_holds)

text \<open>
  C22 \<open>reduce160\<close> reduces a 160-bit number given as a 128-bit low part and a 32-bit high part, up to
  the bound 2^160 - 2^128 + 2^96 its comment states.
\<close>

theorem reduce160_correct:
  assumes "uint x_lo + 2 ^ 128 * uint x_hi < 2 ^ 160 - 2 ^ 128 + 2 ^ 96"
  shows "gf_val (reduce160 x_lo x_hi) = (uint x_lo + 2 ^ 128 * uint x_hi) mod gf_p"
  using reduce160_val [of x_lo x_hi] assms by simp

theorem reduce160_correct_witness:
  "uint (7 :: u128) + 2 ^ 128 * uint (5 :: u32) < 2 ^ 160 - 2 ^ 128 + 2 ^ 96 \<and>
   gf_val (reduce160 7 5) = (7 + 2 ^ 128 * 5) mod gf_p"
  using reduce160_correct [of 7 5] by simp

end
