(* ===== verification/Radix.thy ===== *)
theory Radix
  imports Prelude
begin

text \<open>
  The parts of the Rust standard library on strings that the program relies on: printing integers
  in a radix (\<open>{}\<close>, \<open>{:#x}\<close>, \<open>0x{:0>16x}\<close>), \<open>from_str_radix\<close>, \<open>trim_start_matches("0x")\<close>,
  \<open>lines\<close>, \<open>split\<close> and \<open>join\<close>, with their round-trip lemmas.
\<close>

subsection \<open>Printing\<close>

definition digit_char :: "nat \<Rightarrow> char" where
  "digit_char d = (if d < 10 then char_of (48 + d) else char_of (87 + d))"

fun show_radix :: "nat \<Rightarrow> nat \<Rightarrow> string" where
  "show_radix b n =
     (if n < b \<or> b < 2 then [digit_char n] else show_radix b (n div b) @ [digit_char (n mod b)])"

declare show_radix.simps [simp del]

definition show_u64 :: "u64 \<Rightarrow> string" where
  "show_u64 x = show_radix 10 (unat x)"

definition format_hex :: "u64 \<Rightarrow> string" where
  "format_hex x = ''0x'' @ show_radix 16 (unat x)"

definition format_hex_pad16 :: "u64 \<Rightarrow> string" where
  "format_hex_pad16 x =
     (let s = show_radix 16 (unat x) in ''0x'' @ replicate (16 - length s) (CHR ''0'') @ s)"

subsection \<open>Parsing\<close>

datatype parse_int_error = Empty | InvalidDigit | PosOverflow | NegOverflow

definition to_digit :: "nat \<Rightarrow> char \<Rightarrow> nat option" where
  "to_digit radix c =
     (let n = of_char c :: nat;
          d = (if 48 \<le> n \<and> n \<le> 57 then Some (n - 48)
               else if 97 \<le> n \<and> n \<le> 122 then Some (n - 87)
               else if 65 \<le> n \<and> n \<le> 90 then Some (n - 55)
               else None)
      in case d of None \<Rightarrow> None | Some v \<Rightarrow> if v < radix then Some v else None)"

fun parse_digits_up :: "nat \<Rightarrow> nat \<Rightarrow> nat \<Rightarrow> string \<Rightarrow> parse_int_error + nat" where
  "parse_digits_up radix maxv acc [] = Inr acc"
| "parse_digits_up radix maxv acc (c # cs) =
     (case to_digit radix c of
        None \<Rightarrow> Inl InvalidDigit
      | Some d \<Rightarrow>
          if maxv < acc * radix + d then Inl PosOverflow
          else parse_digits_up radix maxv (acc * radix + d) cs)"

fun parse_digits_down :: "nat \<Rightarrow> nat \<Rightarrow> nat \<Rightarrow> string \<Rightarrow> parse_int_error + nat" where
  "parse_digits_down radix maxv acc [] = Inr acc"
| "parse_digits_down radix maxv acc (c # cs) =
     (case to_digit radix c of
        None \<Rightarrow> Inl InvalidDigit
      | Some d \<Rightarrow>
          if maxv < acc * radix + d then Inl NegOverflow
          else parse_digits_down radix maxv (acc * radix + d) cs)"

definition u64_from_str_radix :: "nat \<Rightarrow> string \<Rightarrow> parse_int_error + u64" where
  "u64_from_str_radix radix s =
     (case s of
        [] \<Rightarrow> Inl Empty
      | c # cs \<Rightarrow>
          if cs = [] \<and> (c = CHR ''+'' \<or> c = CHR ''-'') then Inl InvalidDigit
          else rbind (parse_digits_up radix (2 ^ 64 - 1) 0 (if c = CHR ''+'' then cs else s))
                 (\<lambda>n. Inr (of_nat n)))"

definition i128_from_str_radix :: "nat \<Rightarrow> string \<Rightarrow> parse_int_error + int" where
  "i128_from_str_radix radix s =
     (case s of
        [] \<Rightarrow> Inl Empty
      | c # cs \<Rightarrow>
          if cs = [] \<and> (c = CHR ''+'' \<or> c = CHR ''-'') then Inl InvalidDigit
          else if c = CHR ''-''
          then rbind (parse_digits_down radix (2 ^ 127) 0 cs) (\<lambda>n. Inr (- int n))
          else rbind (parse_digits_up radix (2 ^ 127 - 1) 0 (if c = CHR ''+'' then cs else s))
                 (\<lambda>n. Inr (int n)))"

fun trim_start_0x :: "string \<Rightarrow> string" where
  "trim_start_0x (a # b # s) =
     (if a = CHR ''0'' \<and> b = CHR ''x'' then trim_start_0x s else a # b # s)"
| "trim_start_0x s = s"

fun starts_with_0x :: "string \<Rightarrow> bool" where
  "starts_with_0x (a # b # s) \<longleftrightarrow> a = CHR ''0'' \<and> b = CHR ''x''"
| "starts_with_0x s \<longleftrightarrow> False"

subsection \<open>Lines\<close>

abbreviation nl :: char where "nl \<equiv> CHR 0x0A"
abbreviation cr :: char where "cr \<equiv> CHR 0x0D"

fun split_nl :: "string \<Rightarrow> string list" where
  "split_nl [] = [[]]"
| "split_nl (c # cs) =
     (if c = nl then [] # split_nl cs
      else case split_nl cs of [] \<Rightarrow> [[c]] | l # ls \<Rightarrow> (c # l) # ls)"

definition strip_cr :: "string \<Rightarrow> string" where
  "strip_cr l = (if l \<noteq> [] \<and> last l = cr then butlast l else l)"

definition str_lines :: "string \<Rightarrow> string list" where
  "str_lines s =
     (let ls = split_nl s
      in map strip_cr (butlast ls) @ (if last ls = [] then [] else [last ls]))"

fun join_nl :: "string list \<Rightarrow> string" where
  "join_nl [] = []"
| "join_nl [l] = l"
| "join_nl (l # ls) = l @ nl # join_nl ls"

subsection \<open>Round trips\<close>

lemma digit_char_inject_range: "d < 36 \<Longrightarrow> of_char (digit_char d) = (if d < 10 then 48 + d else 87 + d)"
  by (simp add: digit_char_def)

lemma to_digit_digit_char [simp]: "d < radix \<Longrightarrow> radix \<le> 36 \<Longrightarrow> to_digit radix (digit_char d) = Some d"
  by (auto simp: to_digit_def digit_char_inject_range Let_def)

lemma show_radix_nonempty [simp]: "show_radix b n \<noteq> []"
  by (subst show_radix.simps) simp

lemma set_show_radix:
  "2 \<le> b \<Longrightarrow> set (show_radix b n) \<subseteq> digit_char ` {..<b}"
proof (induction b n rule: show_radix.induct)
  case (1 b n)
  then show ?case
    by (cases "n < b") (auto simp: show_radix.simps [of b n])
qed

lemma parse_digits_up_append:
  "parse_digits_up radix m acc (xs @ ys) =
     rbind (parse_digits_up radix m acc xs) (\<lambda>a. parse_digits_up radix m a ys)"
  by (induction xs arbitrary: acc) (auto split: option.splits)

lemma parse_show_radix:
  "2 \<le> b \<Longrightarrow> b \<le> 36 \<Longrightarrow> n \<le> m \<Longrightarrow> parse_digits_up b m 0 (show_radix b n) = Inr n"
proof (induction b n rule: show_radix.induct)
  case (1 b n)
  show ?case
  proof (cases "n < b")
    case True
    with "1.prems" show ?thesis by (simp add: show_radix.simps [of b n])
  next
    case False
    have "n div b \<le> m" using "1.prems"(3) div_le_dividend le_trans by blast
    with False "1.IH" "1.prems" have "parse_digits_up b m 0 (show_radix b (n div b)) = Inr (n div b)"
      by simp
    with False "1.prems" show ?thesis
      by (simp add: show_radix.simps [of b n] parse_digits_up_append)
  qed
qed

lemma parse_digits_up_zeros:
  "2 \<le> b \<Longrightarrow> parse_digits_up b m 0 (replicate k (CHR ''0'') @ s) = parse_digits_up b m 0 s"
  by (induction k) (simp_all add: to_digit_def)


text \<open>Hexadecimal and decimal digits never clash with a sign, the \<open>x\<close> of a prefix, or an end of line.\<close>

definition plain_digits :: "string \<Rightarrow> bool" where
  "plain_digits s \<longleftrightarrow> s \<noteq> [] \<and>
     set s \<inter> {CHR ''+'', CHR ''-'', CHR ''x'', CHR ''X'', CHR '';'', CHR '' '', nl, cr} = {}"

lemma digit_char_plain:
  assumes "d < 16"
  shows "digit_char d \<notin> {CHR ''+'', CHR ''-'', CHR ''x'', CHR ''X'', CHR '';'', CHR '' '', nl, cr}"
proof -
  have "of_char (digit_char d) \<in> {48..<58} \<union> {97..<103 :: nat}"
    using assms by (simp add: digit_char_inject_range)
  then show ?thesis by auto
qed

lemma plain_show_radix: "2 \<le> b \<Longrightarrow> b \<le> 16 \<Longrightarrow> plain_digits (show_radix b n)"
proof -
  assume b: "2 \<le> b" "b \<le> 16"
  have "c \<notin> {CHR ''+'', CHR ''-'', CHR ''x'', CHR ''X'', CHR '';'', CHR '' '', nl, cr}"
    if "c \<in> set (show_radix b n)" for c
  proof -
    from that set_show_radix [OF b(1), of n] obtain d where "c = digit_char d" "d < b" by auto
    with b digit_char_plain [of d] show ?thesis by simp
  qed
  then show ?thesis unfolding plain_digits_def by auto
qed

lemma plain_pad: "plain_digits s \<Longrightarrow> plain_digits (replicate k (CHR ''0'') @ s)"
  by (auto simp: plain_digits_def)

lemma trim_start_0x_plain: "plain_digits s \<Longrightarrow> trim_start_0x s = s"
  by (cases s rule: trim_start_0x.cases) (auto simp: plain_digits_def)

lemma trim_start_0x_prefix: "plain_digits s \<Longrightarrow> trim_start_0x (''0x'' @ s) = s"
  by (simp add: trim_start_0x_plain)

lemma u64_from_str_radix_plain:
  "plain_digits s \<Longrightarrow> u64_from_str_radix r s =
     rbind (parse_digits_up r (2 ^ 64 - 1) 0 s) (\<lambda>n. Inr (of_nat n))"
  by (cases s) (auto simp: u64_from_str_radix_def plain_digits_def)

lemma unat_le_max64: "unat (x :: u64) \<le> 2 ^ 64 - 1"
proof -
  have "unat x < 18446744073709551616" using unsigned_less [of x, where 'a = nat] by simp
  then show ?thesis by simp
qed

lemma u64_from_str_radix_show:
  assumes "2 \<le> b" "b \<le> 16"
  shows "u64_from_str_radix b (replicate k (CHR ''0'') @ show_radix b (unat x)) = Inr x"
  using assms unat_le_max64 [of x]
  by (simp add: u64_from_str_radix_plain plain_pad plain_show_radix parse_digits_up_zeros
      parse_show_radix del: of_nat_unat) simp

lemma parse_format_hex: "u64_from_str_radix 16 (trim_start_0x (format_hex x)) = Inr x"
  using u64_from_str_radix_show [of 16 0 x]
  by (simp add: format_hex_def trim_start_0x_plain plain_show_radix)

lemma parse_format_hex_pad16: "u64_from_str_radix 16 (trim_start_0x (format_hex_pad16 x)) = Inr x"
  using u64_from_str_radix_show [of 16 _ x]
  by (simp add: format_hex_pad16_def Let_def trim_start_0x_plain plain_pad plain_show_radix)

lemma starts_with_format_hex [simp]: "starts_with_0x (format_hex x)"
  by (simp add: format_hex_def)

lemma split_nl_no_nl: "nl \<notin> set l \<Longrightarrow> split_nl l = [l]"
  by (induction l) auto

lemma split_nl_nonempty [simp]: "split_nl s \<noteq> []"
  by (induction s) (auto split: list.splits)

lemma split_nl_append: "nl \<notin> set l \<Longrightarrow> split_nl (l @ nl # s) = l # split_nl s"
  by (induction l) auto

lemma split_join_nl:
  "ls \<noteq> [] \<Longrightarrow> (\<And>l. l \<in> set ls \<Longrightarrow> nl \<notin> set l) \<Longrightarrow> split_nl (join_nl ls) = ls"
  by (induction ls rule: join_nl.induct) (auto simp: split_nl_no_nl split_nl_append)

lemma strip_cr_id: "cr \<notin> set l \<Longrightarrow> strip_cr l = l"
  by (cases l rule: rev_cases) (auto simp: strip_cr_def)

lemma lines_join_nl:
  assumes "\<And>l. l \<in> set ls \<Longrightarrow> l \<noteq> [] \<and> nl \<notin> set l \<and> cr \<notin> set l"
  shows "str_lines (join_nl ls) = ls"
proof (cases "ls = []")
  case True
  then show ?thesis by (simp add: str_lines_def)
next
  case False
  with assms have "split_nl (join_nl ls) = ls" by (intro split_join_nl) auto
  moreover have "map strip_cr (butlast ls) = butlast ls"
    using assms by (auto intro!: map_idI strip_cr_id dest: in_set_butlastD)
  ultimately show ?thesis using False assms [of "last ls"] by (simp add: str_lines_def)
qed

end
