(* ===== verification/Errors.thy ===== *)
theory Errors
  imports Radix
begin

text \<open>
  Errors as values. \<open>processor_error\<close> is \<open>ProcessorError\<close> of \<open>core/src/vm/error.rs\<close>; the variants
  that carry a formatted \<open>String\<close> carry here a message type: one constructor per format string of the
  sources, with the values that are interpolated, or the literal text where nothing is. \<open>anyhow_error\<close> is what \<open>anyhow::Error\<close> may hold in
  the executor; panics (\<open>unwrap\<close>, \<open>expect\<close>, \<open>todo!\<close>, capacity overflow) are a constructor of their own.
\<close>

datatype (plugins only: code) mem_message =
    ReadNeverInited u64
  | ReadInvalidAddr u64
  | WriteInvalidValue u64
  | WriteInvalidAddr u64
  | BatchWriteStackHeap u64 u64
  | BatchWriteHeapProphet u64 u64
  | BatchWriteProphetOverflow u64 u64
  | BatchWriteInvalidAddr u64
  | BatchReadStackHeap u64 u64
  | BatchReadHeapProphet u64 u64
  | BatchReadProphetOverflow u64 u64
  | BatchReadInvalidAddr u64

datatype (plugins only: code) tape_message =
    TapeReadNeverInited u64
  | TapeTooLong u64 u64
  | TloadInvalidOp0 u64

datatype (plugins only: code) codec_message =
    InvalidRegIdentifier string
  | InvalidSpecialRegIdentifier string
  | InvalidOpcodeToken string
  | ImmediateNotNumber string
  | ImmediateOverflow string
  | InvalidOperand string codec_message
  | EncodeOp0 string
  | EncodeOp1 string
  | EncodeDst string
  | DecodeEmptyCode
  | DecodeNotU64 string
  | DecodeNoOpcode string
  | DecodeWrongLength nat nat string
  | DecodeMissing string
  | ConvertStrToU64Failed parse_int_error
  | InstructionsEmpty

datatype (plugins only: code) inst_message =
    OperandsMustBeU32 string
  | NotTwoOperandsArithmetic string
  | MustSet string string
  | DstMustBeRegister string
  | Op0CannotBeSet string
  | CjmpOp0MustBeBinary

datatype (plugins only: code) io_message =
    ColumnFamilyMissing
  | DiskFormatError
  | DbFailed string
  | ProgramBytesNotFound
  | ProgramHashLoadFailed "u64 list"

datatype (plugins only: code) anyhow_message =
    BytecodeU64Error parse_int_error
  | GetInstImmError
  | ParseU64FromStringError
  | PcCannotBeOperand
  | ExecutorCannotBeRunning
  | BincodeFailed string

datatype (plugins only: code) panic =
    PanicTodo
  | PanicExpect
  | PanicUnwrapNone
  | PanicIndexOutOfBounds
  | PanicCapacityOverflow
  | PanicAssertFailed
  | PanicWrongType

datatype (plugins only: code) processor_error =
    ParseIntError
  | ParseOpcodeError
  | InterpreterReturnSingle
  | InterpreterRunError string
  | U32RangeCheckFail
  | AssertFail u64 u64
  | MemVistInv u64
  | TapeVistInv u64
  | PcVistInv u64
  | TloadFlagInvalid u64
  | TstoreError string
  | PubKeyInvalid string
  | SignatureInvalid string
  | MessageInvalid string
  | EmptyHashTraceError
  | JsonSerdeError
  | FileIOError
  | MstoreError string
  | MloadError string
  | RegIndexError nat
  | RegexNewError string
  | RegexCaptureError string
  | ArrayIndexError string
  | CannotSStoreInCall
  | SStoreError
  | MemoryAccessError mem_message
  | TapeAccessError tape_message
  | IoError io_message
  | InstructionsInitError codec_message
  | InvalidInstruction inst_message
  | ProgLoadError io_message
  | CpuLifeCycleOverflow u64
  | StorageStoreOnCallError
  | InvalidTopicLength u64
  | EventOnCallError

datatype (plugins only: code) anyhow_error =
    Processor processor_error
  | ParseInt parse_int_error
  | Anyhow anyhow_message
  | Panicked panic

type_synonym 'a result = "anyhow_error + 'a"

abbreviation fail :: "processor_error \<Rightarrow> 'a result" where
  "fail e \<equiv> Inl (Processor e)"

text \<open>\<open>Vec::with_capacity(n)\<close> for 8-byte elements panics when the size in bytes exceeds
  \<open>isize::MAX\<close>.\<close>

definition vec_with_capacity :: "u64 \<Rightarrow> unit result" where
  "vec_with_capacity n = guard (Panicked PanicCapacityOverflow) (unat n * 8 \<le> 2 ^ 63 - 1)"

text \<open>\<open>v.try_into().expect(..)\<close> from a vector to an array of length \<open>n\<close>.\<close>

definition try_into_array :: "nat \<Rightarrow> 'a list \<Rightarrow> 'a list result" where
  "try_into_array n v = (if length v = n then Inr v else Inl (Panicked PanicExpect))"

end
