(* ===== verification/Opcodes.thy ===== *)
theory Opcodes
  imports Errors
begin

text \<open>
  The instruction set's opcodes (\<open>core/src/vm/opcodes.rs\<close>): the enum in declaration order, the
  assembler tokens, the bit position of each opcode in the instruction word, and parsing from a token.
\<close>

datatype (plugins only: code) OlaOpcode =
    ADD | MUL | EQ | ASSERT | MOV | JMP | CJMP | CALL | RET | MLOAD | MSTORE | END | RC
  | AND_OP | OR_OP | XOR_OP | NOT_OP | NEQ | GTE | POSEIDON | SLOAD | SSTORE | TLOAD | TSTORE
  | SCCALL | SIGCHECK | EVENT

text \<open>\<open>enum_iterator::all\<close> enumerates the variants in declaration order.\<close>

definition all_opcodes :: "OlaOpcode list" where
  "all_opcodes =
     [ADD, MUL, EQ, ASSERT, MOV, JMP, CJMP, CALL, RET, MLOAD, MSTORE, END, RC,
      AND_OP, OR_OP, XOR_OP, NOT_OP, NEQ, GTE, POSEIDON, SLOAD, SSTORE, TLOAD, TSTORE,
      SCCALL, SIGCHECK, EVENT]"

fun opcode_token :: "OlaOpcode \<Rightarrow> string" where
  "opcode_token ADD = ''add''"
| "opcode_token MUL = ''mul''"
| "opcode_token EQ = ''eq''"
| "opcode_token ASSERT = ''assert''"
| "opcode_token MOV = ''mov''"
| "opcode_token JMP = ''jmp''"
| "opcode_token CJMP = ''cjmp''"
| "opcode_token CALL = ''call''"
| "opcode_token RET = ''ret''"
| "opcode_token MLOAD = ''mload''"
| "opcode_token MSTORE = ''mstore''"
| "opcode_token END = ''end''"
| "opcode_token RC = ''range''"
| "opcode_token AND_OP = ''and''"
| "opcode_token OR_OP = ''or''"
| "opcode_token XOR_OP = ''xor''"
| "opcode_token NOT_OP = ''not''"
| "opcode_token NEQ = ''neq''"
| "opcode_token GTE = ''gte''"
| "opcode_token POSEIDON = ''poseidon''"
| "opcode_token SLOAD = ''sload''"
| "opcode_token SSTORE = ''sstore''"
| "opcode_token TLOAD = ''tload''"
| "opcode_token TSTORE = ''tstore''"
| "opcode_token SCCALL = ''sccall''"
| "opcode_token SIGCHECK = ''sigcheck''"
| "opcode_token EVENT = ''log''"

fun binary_bit_shift :: "OlaOpcode \<Rightarrow> nat" where
  "binary_bit_shift ADD = 31"
| "binary_bit_shift MUL = 30"
| "binary_bit_shift EQ = 29"
| "binary_bit_shift ASSERT = 28"
| "binary_bit_shift MOV = 27"
| "binary_bit_shift JMP = 26"
| "binary_bit_shift CJMP = 25"
| "binary_bit_shift CALL = 24"
| "binary_bit_shift RET = 23"
| "binary_bit_shift MLOAD = 22"
| "binary_bit_shift MSTORE = 21"
| "binary_bit_shift END = 20"
| "binary_bit_shift RC = 19"
| "binary_bit_shift AND_OP = 18"
| "binary_bit_shift OR_OP = 17"
| "binary_bit_shift XOR_OP = 16"
| "binary_bit_shift NOT_OP = 15"
| "binary_bit_shift NEQ = 14"
| "binary_bit_shift GTE = 13"
| "binary_bit_shift POSEIDON = 12"
| "binary_bit_shift SLOAD = 11"
| "binary_bit_shift SSTORE = 10"
| "binary_bit_shift TLOAD = 9"
| "binary_bit_shift TSTORE = 8"
| "binary_bit_shift SCCALL = 7"
| "binary_bit_shift SIGCHECK = 6"
| "binary_bit_shift EVENT = 5"

definition binary_bit_mask :: "OlaOpcode \<Rightarrow> u64" where
  "binary_bit_mask op = push_bit (binary_bit_shift op) 1"

definition opcode_to_string :: "OlaOpcode \<Rightarrow> string" where
  "opcode_to_string op = opcode_token op @ ''('' @ show_radix 10 (binary_bit_shift op) @ '')''"

definition opcode_from_str :: "string \<Rightarrow> codec_message + OlaOpcode" where
  "opcode_from_str s =
     (case find (\<lambda>op. s = opcode_token op) all_opcodes of
        Some op \<Rightarrow> Inr op
      | None \<Rightarrow> Inl (InvalidOpcodeToken s))"

subsection \<open>Enumeration, distinctness and the token round trip\<close>

lemma all_opcodes_complete [simp]: "op \<in> set all_opcodes"
  by (cases op) (simp_all add: all_opcodes_def)

lemma distinct_all_opcodes: "distinct all_opcodes"
  by (simp add: all_opcodes_def)

lemma binary_bit_shift_range: "5 \<le> binary_bit_shift op \<and> binary_bit_shift op \<le> 31"
  by (cases op) simp_all

lemma inject_on_opcodes:
  "distinct (map f all_opcodes) \<Longrightarrow> f a = f b \<longleftrightarrow> a = b"
  using inj_onD [of f "set all_opcodes" a b] by (auto simp: distinct_map)

lemma binary_bit_shift_inject: "binary_bit_shift a = binary_bit_shift b \<longleftrightarrow> a = b"
  by (rule inject_on_opcodes) (simp add: all_opcodes_def)

lemma opcode_token_inject: "opcode_token a = opcode_token b \<longleftrightarrow> a = b"
  by (rule inject_on_opcodes) code_simp

lemma find_unique:
  assumes "x \<in> set xs" and "P x" and "\<And>y. P y \<Longrightarrow> y = x"
  shows "find P xs = Some x"
proof -
  have "P = (\<lambda>y. y = x)" using assms(2,3) by blast
  moreover have "find (\<lambda>y. y = x) xs = Some x" using assms(1) by (induction xs) auto
  ultimately show ?thesis by simp
qed

lemma opcode_from_str_token: "opcode_from_str (opcode_token op) = Inr op"
proof -
  have "find (\<lambda>o'. opcode_token op = opcode_token o') all_opcodes = Some op"
    by (rule find_unique) (simp_all add: opcode_token_inject)
  then show ?thesis by (simp add: opcode_from_str_def)
qed

lemma opcode_from_str_Inr: "opcode_from_str s = Inr op \<longleftrightarrow> s = opcode_token op"
proof
  assume "opcode_from_str s = Inr op"
  then have "find (\<lambda>op. s = opcode_token op) all_opcodes = Some op"
    by (simp add: opcode_from_str_def split: option.splits)
  then show "s = opcode_token op"
    unfolding find_Some_iff by blast
qed (simp add: opcode_from_str_token)

text \<open>
  C27 Parsing an opcode accepts exactly the tokens the printer produces, and gives back the opcode
  that was printed; no two opcodes share a token or an instruction bit.
\<close>

theorem opcode_tokens_and_bits:
  "(opcode_from_str s = Inr opc \<longleftrightarrow> s = opcode_token opc) \<and>
   (binary_bit_mask opc = binary_bit_mask opc' \<longleftrightarrow> opc = opc')"
proof -
  have "bit (binary_bit_mask o1) (binary_bit_shift o2) \<longleftrightarrow> o1 = o2" for o1 o2
    using binary_bit_shift_range [of o1] binary_bit_shift_inject [of o1 o2]
    by (auto simp: binary_bit_mask_def bit_simps simp del: push_bit_of_1)
  then have "binary_bit_mask opc = binary_bit_mask opc' \<longleftrightarrow> opc = opc'" by metis
  then show ?thesis by (simp add: opcode_from_str_Inr)
qed

end
