(* ===== verification/Hardware.thy ===== *)
theory Hardware
  imports Goldilocks Opcodes
begin

text \<open>
  The machine's hardware (\<open>core/src/vm/hardware.rs\<close>): registers and their bit positions in an
  instruction, the three-region memory \<open>OlaMemory\<close>, and the transaction tape \<open>OlaTape\<close>.
  Memory is proved to refine an abstract address-to-value store (locale \<open>cell_store\<close>), the tape a
  list (locale \<open>append_log\<close>).
\<close>

subsection \<open>Registers\<close>

datatype (plugins only: code) OlaRegister = R0 | R1 | R2 | R3 | R4 | R5 | R6 | R7 | R8 | R9

definition NUM_GENERAL_PURPOSE_REGISTER :: nat where
  "NUM_GENERAL_PURPOSE_REGISTER = 10"

definition all_registers :: "OlaRegister list" where
  "all_registers = [R0, R1, R2, R3, R4, R5, R6, R7, R8, R9]"

fun reg_index :: "OlaRegister \<Rightarrow> nat" where
  "reg_index R9 = 9"
| "reg_index R8 = 8"
| "reg_index R7 = 7"
| "reg_index R6 = 6"
| "reg_index R5 = 5"
| "reg_index R4 = 4"
| "reg_index R3 = 3"
| "reg_index R2 = 2"
| "reg_index R1 = 1"
| "reg_index R0 = 0"

fun binary_bit_shift_as_op0 :: "OlaRegister \<Rightarrow> nat" where
  "binary_bit_shift_as_op0 R9 = 61"
| "binary_bit_shift_as_op0 R8 = 60"
| "binary_bit_shift_as_op0 R7 = 59"
| "binary_bit_shift_as_op0 R6 = 58"
| "binary_bit_shift_as_op0 R5 = 57"
| "binary_bit_shift_as_op0 R4 = 56"
| "binary_bit_shift_as_op0 R3 = 55"
| "binary_bit_shift_as_op0 R2 = 54"
| "binary_bit_shift_as_op0 R1 = 53"
| "binary_bit_shift_as_op0 R0 = 52"

fun binary_bit_shift_as_op1 :: "OlaRegister \<Rightarrow> nat" where
  "binary_bit_shift_as_op1 R9 = 51"
| "binary_bit_shift_as_op1 R8 = 50"
| "binary_bit_shift_as_op1 R7 = 49"
| "binary_bit_shift_as_op1 R6 = 48"
| "binary_bit_shift_as_op1 R5 = 47"
| "binary_bit_shift_as_op1 R4 = 46"
| "binary_bit_shift_as_op1 R3 = 45"
| "binary_bit_shift_as_op1 R2 = 44"
| "binary_bit_shift_as_op1 R1 = 43"
| "binary_bit_shift_as_op1 R0 = 42"

fun binary_bit_shift_as_dst :: "OlaRegister \<Rightarrow> nat" where
  "binary_bit_shift_as_dst R9 = 41"
| "binary_bit_shift_as_dst R8 = 40"
| "binary_bit_shift_as_dst R7 = 39"
| "binary_bit_shift_as_dst R6 = 38"
| "binary_bit_shift_as_dst R5 = 37"
| "binary_bit_shift_as_dst R4 = 36"
| "binary_bit_shift_as_dst R3 = 35"
| "binary_bit_shift_as_dst R2 = 34"
| "binary_bit_shift_as_dst R1 = 33"
| "binary_bit_shift_as_dst R0 = 32"

definition binary_bit_mask_as_op0 :: "OlaRegister \<Rightarrow> u64" where
  "binary_bit_mask_as_op0 r = push_bit (binary_bit_shift_as_op0 r) 1"

definition binary_bit_mask_as_op1 :: "OlaRegister \<Rightarrow> u64" where
  "binary_bit_mask_as_op1 r = push_bit (binary_bit_shift_as_op1 r) 1"

definition binary_bit_mask_as_dst :: "OlaRegister \<Rightarrow> u64" where
  "binary_bit_mask_as_dst r = push_bit (binary_bit_shift_as_dst r) 1"

definition reg_from_str :: "string \<Rightarrow> codec_message + OlaRegister" where
  "reg_from_str s =
     (if s = ''r0'' then Inr R0 else if s = ''r1'' then Inr R1
      else if s = ''r2'' then Inr R2 else if s = ''r3'' then Inr R3
      else if s = ''r4'' then Inr R4 else if s = ''r5'' then Inr R5
      else if s = ''r6'' then Inr R6 else if s = ''r7'' then Inr R7
      else if s = ''r8'' then Inr R8 else if s = ''r9'' then Inr R9
      else Inl (InvalidRegIdentifier s))"

fun reg_to_string :: "OlaRegister \<Rightarrow> string" where
  "reg_to_string R0 = ''r0''"
| "reg_to_string R1 = ''r1''"
| "reg_to_string R2 = ''r2''"
| "reg_to_string R3 = ''r3''"
| "reg_to_string R4 = ''r4''"
| "reg_to_string R5 = ''r5''"
| "reg_to_string R6 = ''r6''"
| "reg_to_string R7 = ''r7''"
| "reg_to_string R8 = ''r8''"
| "reg_to_string R9 = ''r9''"

datatype (plugins only: code) OlaSpecialRegister = PC | PSP

fun special_reg_to_string :: "OlaSpecialRegister \<Rightarrow> string" where
  "special_reg_to_string PC = ''pc''"
| "special_reg_to_string PSP = ''psp''"

definition special_reg_from_str :: "string \<Rightarrow> codec_message + OlaSpecialRegister" where
  "special_reg_from_str s =
     (if s = ''pc'' then Inr PC else if s = ''psp'' then Inr PSP
      else Inl (InvalidSpecialRegIdentifier s))"

lemma all_registers_complete [simp]: "r \<in> set all_registers"
  by (cases r) (simp_all add: all_registers_def)

lemma reg_index_less: "reg_index r < NUM_GENERAL_PURPOSE_REGISTER"
  by (cases r) (simp_all add: NUM_GENERAL_PURPOSE_REGISTER_def)

lemma reg_shifts:
  "binary_bit_shift_as_op0 r = 52 + reg_index r"
  "binary_bit_shift_as_op1 r = 42 + reg_index r"
  "binary_bit_shift_as_dst r = 32 + reg_index r"
  by (cases r; simp)+

lemma reg_index_inject: "reg_index a = reg_index b \<longleftrightarrow> a = b"
  by (cases a; cases b) simp_all

lemma reg_from_to_string: "reg_from_str (reg_to_string r) = Inr r"
  by (cases r) (simp_all add: reg_from_str_def)

lemma special_reg_from_to_string: "special_reg_from_str (special_reg_to_string r) = Inr r"
  by (cases r) (simp_all add: special_reg_from_str_def)

subsection \<open>Memory\<close>

definition MAX_VALUE :: u64 where "MAX_VALUE = 0xFFFFFFFF00000001"
definition MEM_MAX_ADDR :: u64 where "MEM_MAX_ADDR = 0xFFFFFFFF00000001"
definition MEM_REGION_SPAN :: u64 where "MEM_REGION_SPAN = 0xFFFFFFFF"
definition MEM_STACK_END :: u64 where "MEM_STACK_END = MEM_MAX_ADDR - 2 * MEM_REGION_SPAN"
definition MEM_HEAP_END :: u64 where "MEM_HEAP_END = MEM_MAX_ADDR - MEM_REGION_SPAN"
definition MEM_PROPHET_END :: u64 where "MEM_PROPHET_END = MEM_MAX_ADDR"

definition in_stack_region :: "u64 \<Rightarrow> bool" where
  "in_stack_region a \<longleftrightarrow> 0 \<le> a \<and> a < MEM_STACK_END"

definition in_heap_region :: "u64 \<Rightarrow> bool" where
  "in_heap_region a \<longleftrightarrow> MEM_STACK_END \<le> a \<and> a < MEM_HEAP_END"

definition in_prophet_region :: "u64 \<Rightarrow> bool" where
  "in_prophet_region a \<longleftrightarrow> MEM_HEAP_END \<le> a \<and> a < MEM_PROPHET_END"

record OlaMemory =
  mem_psp :: u64
  stack_region :: "u64 \<rightharpoonup> u64"
  heap_region :: "u64 \<rightharpoonup> u64"
  prophet_region :: "u64 \<rightharpoonup> u64"

definition mem_default :: OlaMemory where
  "mem_default = \<lparr>mem_psp = MEM_HEAP_END, stack_region = Map.empty,
     heap_region = [MEM_STACK_END \<mapsto> MEM_STACK_END + 1], prophet_region = Map.empty\<rparr>"

definition mem_hp :: "OlaMemory \<Rightarrow> u64" where
  "mem_hp m = MEM_STACK_END"

definition region_read :: "(u64 \<rightharpoonup> u64) \<Rightarrow> u64 \<Rightarrow> u64 result" where
  "region_read region a =
     (case region a of
        Some v \<Rightarrow> Inr v
      | None \<Rightarrow> fail (MemoryAccessError (ReadNeverInited a)))"

definition mem_read :: "OlaMemory \<Rightarrow> u64 \<Rightarrow> u64 result" where
  "mem_read m a =
     (if in_stack_region a then region_read (stack_region m) a
      else if in_heap_region a then region_read (heap_region m) a
      else if in_prophet_region a then region_read (prophet_region m) a
      else fail (MemoryAccessError (ReadInvalidAddr a)))"

definition mem_write_prophet :: "OlaMemory \<Rightarrow> u64 \<Rightarrow> OlaMemory result" where
  "mem_write_prophet m v =
     (if MAX_VALUE < v then fail (MemoryAccessError (WriteInvalidValue v))
      else Inr (m\<lparr>prophet_region := (prophet_region m)(mem_psp m \<mapsto> v), mem_psp := mem_psp m + 1\<rparr>))"

definition mem_write :: "OlaMemory \<Rightarrow> u64 \<Rightarrow> u64 \<Rightarrow> OlaMemory result" where
  "mem_write m a v =
     (if MAX_VALUE < v then fail (MemoryAccessError (WriteInvalidValue v))
      else if in_stack_region a then Inr (m\<lparr>stack_region := (stack_region m)(a \<mapsto> v)\<rparr>)
      else if in_heap_region a then Inr (m\<lparr>heap_region := (heap_region m)(a \<mapsto> v)\<rparr>)
      else if in_prophet_region a then mem_write_prophet m v
      else fail (MemoryAccessError (WriteInvalidAddr a)))"

text \<open>The address ranges \<open>from .. from + n\<close> of the batch loops, in order.\<close>

definition addr_run :: "u64 \<Rightarrow> nat \<Rightarrow> u64 list" where
  "addr_run from n = map (\<lambda>i. from + of_nat i) [0..<n]"

definition region_batch_insert :: "(u64 \<rightharpoonup> u64) \<Rightarrow> u64 \<Rightarrow> u64 list \<Rightarrow> (u64 \<rightharpoonup> u64)" where
  "region_batch_insert region from values =
     foldl (\<lambda>r (a, v). r(a \<mapsto> v)) region (zip (addr_run from (length values)) values)"

definition mem_batch_write :: "OlaMemory \<Rightarrow> u64 \<Rightarrow> u64 list \<Rightarrow> OlaMemory result" where
  "mem_batch_write m from values =
     (let len = of_nat (length values) :: u64 in
      if from < MEM_STACK_END then
        (if MEM_STACK_END \<le> from + len
         then fail (MemoryAccessError (BatchWriteStackHeap from (from + len)))
         else Inr (m\<lparr>stack_region := region_batch_insert (stack_region m) from values\<rparr>))
      else if from < MEM_HEAP_END then
        (if MEM_HEAP_END \<le> from + len
         then fail (MemoryAccessError (BatchWriteHeapProphet from (from + len)))
         else Inr (m\<lparr>heap_region := region_batch_insert (heap_region m) from values\<rparr>))
      else if from < MEM_PROPHET_END then
        (if MEM_PROPHET_END \<le> from + len
         then fail (MemoryAccessError (BatchWriteProphetOverflow from (from + len)))
         else Inr (m\<lparr>prophet_region := region_batch_insert (prophet_region m) from values,
                     mem_psp := mem_psp m + len\<rparr>))
      else fail (MemoryAccessError (BatchWriteInvalidAddr from)))"

definition region_batch_read :: "(u64 \<rightharpoonup> u64) \<Rightarrow> u64 \<Rightarrow> u64 \<Rightarrow> u64 list result" where
  "region_batch_read region from len =
     rbind (vec_with_capacity len)
       (\<lambda>_. traverse (region_read region) (addr_run from (unat len)))"

definition mem_batch_read :: "OlaMemory \<Rightarrow> u64 \<Rightarrow> u64 \<Rightarrow> u64 list result" where
  "mem_batch_read m from len =
     (if from < MEM_STACK_END then
        (if MEM_STACK_END \<le> from + len
         then fail (MemoryAccessError (BatchReadStackHeap from (from + len)))
         else region_batch_read (stack_region m) from len)
      else if from < MEM_HEAP_END then
        (if MEM_HEAP_END \<le> from + len
         then fail (MemoryAccessError (BatchReadHeapProphet from (from + len)))
         else region_batch_read (heap_region m) from len)
      else if from < MEM_PROPHET_END then
        (if MEM_PROPHET_END \<le> from + len
         then fail (MemoryAccessError (BatchReadProphetOverflow from (from + len)))
         else region_batch_read (prophet_region m) from len)
      else fail (MemoryAccessError (BatchReadInvalidAddr from)))"

subsection \<open>The tape\<close>

record OlaTape =
  tape_tp :: u64
  addr_to_value :: "u64 \<rightharpoonup> u64"

definition tape_default :: OlaTape where
  "tape_default = \<lparr>tape_tp = 0, addr_to_value = Map.empty\<rparr>"

definition tape_write :: "OlaTape \<Rightarrow> u64 \<Rightarrow> OlaTape" where
  "tape_write t v =
     t\<lparr>addr_to_value := (addr_to_value t)(tape_tp t \<mapsto> v), tape_tp := tape_tp t + 1\<rparr>"

definition tape_batch_write :: "OlaTape \<Rightarrow> u64 list \<Rightarrow> OlaTape" where
  "tape_batch_write t vals = foldl tape_write t vals"

definition tape_read_top :: "OlaTape \<Rightarrow> u64 \<Rightarrow> u64 result" where
  "tape_read_top t a =
     (case addr_to_value t a of
        Some v \<Rightarrow> Inr v
      | None \<Rightarrow> fail (TapeAccessError (TapeReadNeverInited a)))"

definition tape_read_stack :: "OlaTape \<Rightarrow> u64 \<Rightarrow> u64 list result" where
  "tape_read_stack t len =
     (if tape_tp t < len then fail (TapeAccessError (TapeTooLong (tape_tp t) len))
      else rbind (vec_with_capacity len)
        (\<lambda>_. rbind
           (traverse
              (\<lambda>i. case addr_to_value t (tape_tp t - 1 - i) of
                     Some v \<Rightarrow> Inr v
                   | None \<Rightarrow> fail (TapeAccessError (TapeReadNeverInited (tape_tp t - i))))
              (map of_nat [0..<unat len]))
           (\<lambda>res. Inr (rev res))))"


subsection \<open>Contracts\<close>

text \<open>
  A store of cells: on the addresses it owns, a write of an admissible value succeeds and is exactly a
  map update. \<open>peek\<close> is the abstract state.
\<close>

locale cell_store =
  fixes peek :: "'s \<Rightarrow> 'a \<rightharpoonup> 'v"
    and put :: "'s \<Rightarrow> 'a \<Rightarrow> 'v \<Rightarrow> 'e + 's"
    and own :: "'a \<Rightarrow> bool"
    and admissible :: "'v \<Rightarrow> bool"
  assumes put_total: "own a \<Longrightarrow> admissible v \<Longrightarrow> \<exists>s'. put s a v = Inr s'"
    and peek_put: "own a \<Longrightarrow> put s a v = Inr s' \<Longrightarrow> peek s' = (peek s)(a \<mapsto> v)"
begin

lemma put_all:
  assumes "\<forall>(a, v) \<in> set avs. own a \<and> admissible v"
  shows "\<exists>s'. rfold (\<lambda>s (a, v). put s a v) s avs = Inr s' \<and> peek s' = peek s ++ map_of (rev avs)"
  using assms
proof (induction avs arbitrary: s)
  case Nil
  then show ?case by simp
next
  case (Cons av avs)
  obtain a v where av: "av = (a, v)" by (cases av)
  from Cons.prems av obtain s1 where s1: "put s a v = Inr s1"
    using put_total by fastforce
  with Cons.prems av have p1: "peek s1 = (peek s)(a \<mapsto> v)"
    using peek_put by fastforce
  from Cons.prems obtain s' where
    "rfold (\<lambda>s (a, v). put s a v) s1 avs = Inr s'" "peek s' = peek s1 ++ map_of (rev avs)"
    using Cons.IH [of s1] by auto
  with s1 p1 av show ?case
    by (simp add: map_add_def fun_eq_iff split: option.splits)
qed

lemma put_get:
  assumes "own a" "admissible v"
  obtains s' where "put s a v = Inr s'" "peek s' a = Some v" "\<And>b. b \<noteq> a \<Longrightarrow> peek s' b = peek s b"
  using put_total [OF assms] peek_put [OF assms(1)] by (metis fun_upd_other fun_upd_same)

end

text \<open>An append-only log: \<open>rep s xs\<close> says the state \<open>s\<close> holds exactly the values \<open>xs\<close>; \<open>cap\<close> is the
  length up to which pushing keeps the representation.\<close>

locale append_log =
  fixes rep :: "'s \<Rightarrow> 'v list \<Rightarrow> bool"
    and push :: "'s \<Rightarrow> 'v \<Rightarrow> 's"
    and cap :: nat
  assumes rep_push: "rep s xs \<Longrightarrow> length xs < cap \<Longrightarrow> rep (push s v) (xs @ [v])"
begin

lemma rep_push_all:
  "rep s xs \<Longrightarrow> length xs + length vs \<le> cap \<Longrightarrow> rep (foldl push s vs) (xs @ vs)"
proof (induction vs arbitrary: s xs)
  case (Cons v vs)
  then have "rep (push s v) (xs @ [v])" by (intro rep_push) auto
  from Cons.IH [OF this] Cons.prems show ?case by simp
qed simp

end

subsection \<open>Memory as a store of cells\<close>

definition mem_peek :: "OlaMemory \<Rightarrow> u64 \<rightharpoonup> u64" where
  "mem_peek m a =
     (if in_stack_region a then stack_region m a
      else if in_heap_region a then heap_region m a
      else if in_prophet_region a then prophet_region m a
      else None)"

definition mem_own :: "u64 \<Rightarrow> bool" where
  "mem_own a \<longleftrightarrow> in_stack_region a \<or> in_heap_region a"

definition mem_admissible :: "u64 \<Rightarrow> bool" where
  "mem_admissible v \<longleftrightarrow> v \<le> MAX_VALUE"

lemmas region_defs = in_stack_region_def in_heap_region_def in_prophet_region_def
  MEM_STACK_END_def MEM_HEAP_END_def MEM_PROPHET_END_def MEM_MAX_ADDR_def MEM_REGION_SPAN_def

lemma region_bounds:
  "MEM_STACK_END = 0xFFFFFFFD00000003"
  "MEM_HEAP_END = 0xFFFFFFFE00000002"
  "MEM_PROPHET_END = 0xFFFFFFFF00000001"
  by (simp_all add: MEM_STACK_END_def MEM_HEAP_END_def MEM_PROPHET_END_def MEM_MAX_ADDR_def
      MEM_REGION_SPAN_def)

lemma regions_disjoint:
  "\<not> (in_stack_region a \<and> in_heap_region a)"
  "\<not> (in_stack_region a \<and> in_prophet_region a)"
  "\<not> (in_heap_region a \<and> in_prophet_region a)"
proof -
  have "MEM_STACK_END \<le> MEM_HEAP_END"
    by (simp add: region_bounds)
  then show "\<not> (in_stack_region a \<and> in_heap_region a)"
      "\<not> (in_stack_region a \<and> in_prophet_region a)"
      "\<not> (in_heap_region a \<and> in_prophet_region a)"
    unfolding in_stack_region_def in_heap_region_def in_prophet_region_def
    by (auto dest: less_le_trans simp: not_le)
qed

lemma regions_cover:
  "in_stack_region a \<or> in_heap_region a \<or> in_prophet_region a \<longleftrightarrow> a < MEM_MAX_ADDR"
proof -
  have "MEM_STACK_END \<le> MEM_HEAP_END" "MEM_HEAP_END \<le> MEM_MAX_ADDR" "MEM_PROPHET_END = MEM_MAX_ADDR"
    by (simp_all add: region_bounds MEM_MAX_ADDR_def)
  then show ?thesis
    unfolding in_stack_region_def in_heap_region_def in_prophet_region_def
    by (auto simp: not_less)
qed

lemma mem_read_peek:
  "mem_read m a =
     (case mem_peek m a of
        Some v \<Rightarrow> Inr v
      | None \<Rightarrow> fail (MemoryAccessError
          (if a < MEM_MAX_ADDR then ReadNeverInited a else ReadInvalidAddr a)))"
  using regions_cover [of a]
  by (auto simp: mem_read_def mem_peek_def region_read_def split: option.splits)

interpretation mem: cell_store mem_peek mem_write mem_own mem_admissible
proof
  fix a v s
  assume "mem_own a" "mem_admissible v"
  then show "\<exists>s'. mem_write s a v = Inr s'"
    by (auto simp: mem_own_def mem_admissible_def mem_write_def not_less)
next
  fix a s v s'
  assume "mem_own a" "mem_write s a v = Inr s'"
  then show "mem_peek s' = (mem_peek s)(a \<mapsto> v)"
    using regions_disjoint
    by (auto simp: mem_own_def mem_write_def mem_peek_def fun_eq_iff split: if_splits)
qed

lemma mem_write_Inr_iff:
  "mem_write m a v = Inr m' \<longleftrightarrow>
     v \<le> MAX_VALUE \<and>
     (in_stack_region a \<and> m' = m\<lparr>stack_region := (stack_region m)(a \<mapsto> v)\<rparr>
      \<or> in_heap_region a \<and> m' = m\<lparr>heap_region := (heap_region m)(a \<mapsto> v)\<rparr>
      \<or> in_prophet_region a \<and>
          m' = m\<lparr>prophet_region := (prophet_region m)(mem_psp m \<mapsto> v), mem_psp := mem_psp m + 1\<rparr>)"
  using regions_disjoint [of a]
  by (auto simp: mem_write_def mem_write_prophet_def not_less)

lemma mem_write_Inl_iff:
  "(\<exists>e. mem_write m a v = Inl e) \<longleftrightarrow> MAX_VALUE < v \<or> \<not> a < MEM_MAX_ADDR"
  using regions_cover [of a]
  by (auto simp: mem_write_def mem_write_prophet_def)


lemma foldl_updates: "foldl (\<lambda>r (a, v). r(a \<mapsto> v)) r avs = r ++ map_of (rev avs)"
  by (induction avs arbitrary: r) (auto simp: map_add_def fun_eq_iff split: option.splits)

lemma addr_run_simps [simp]: "length (addr_run from n) = n"
  by (simp add: addr_run_def)

lemma addr_run_nth [simp]: "i < n \<Longrightarrow> addr_run from n ! i = from + of_nat i"
  by (simp add: addr_run_def)

lemma of_nat_u64_inject:
  assumes "i < 2 ^ 64" "j < 2 ^ 64"
  shows "(of_nat i :: u64) = of_nat j \<longleftrightarrow> i = j"
proof -
  have "unat (of_nat i :: u64) = i" "unat (of_nat j :: u64) = j"
    using assms by (simp_all add: unat_of_nat)
  then show ?thesis by metis
qed

lemma distinct_addr_run: "n \<le> 2 ^ 64 \<Longrightarrow> distinct (addr_run from n)"
  by (auto simp: addr_run_def distinct_map inj_on_def of_nat_u64_inject)

lemma region_batch_insert_nth:
  assumes "length vs \<le> 2 ^ 64" "i < length vs"
  shows "region_batch_insert region from vs (from + of_nat i) = Some (vs ! i)"
proof -
  let ?as = "addr_run from (length vs)"
  have d: "distinct (map fst (zip ?as vs))"
    using distinct_addr_run [OF assms(1)] by simp
  have "map_of (zip ?as vs) (?as ! i) = Some (vs ! i)"
    using assms distinct_addr_run [OF assms(1)] by (intro map_of_zip_nth) simp_all
  moreover have "map_of (rev (zip ?as vs)) = map_of (zip ?as vs)"
    using d by (subst map_of_inject_set) (simp_all add: rev_map [symmetric])
  ultimately show ?thesis
    using assms by (simp add: region_batch_insert_def foldl_updates map_add_def)
qed

lemma region_batch_insert_other:
  assumes "a \<notin> set (addr_run from (length vs))"
  shows "region_batch_insert region from vs a = region a"
proof -
  have "map_of (rev (zip (addr_run from (length vs)) vs)) a = None"
    using assms by (auto simp: map_of_eq_None_iff dest: set_zip_leftD)
  then show ?thesis
    by (simp add: region_batch_insert_def foldl_updates map_add_def)
qed

lemma region_batch_read_insert:
  assumes "length vs * 8 \<le> 2 ^ 63 - 1"
  shows "region_batch_read (region_batch_insert region from vs) from (of_nat (length vs)) = Inr vs"
proof -
  have u: "unat (of_nat (length vs) :: u64) = length vs"
    using assms by (simp add: unat_of_nat)
  have "traverse (region_read (region_batch_insert region from vs)) (addr_run from (length vs)) = Inr vs"
    using assms
    by (subst traverse_Inr_iff)
      (auto simp: region_read_def region_batch_insert_nth)
  then show ?thesis
    using assms u by (simp add: region_batch_read_def vec_with_capacity_def guard_def)
qed

lemma mem_batch_read_write:
  assumes "mem_batch_write m from vs = Inr m'" "length vs * 8 \<le> 2 ^ 63 - 1"
  shows "mem_batch_read m' from (of_nat (length vs)) = Inr vs"
  using assms(1)
  by (auto simp: mem_batch_write_def mem_batch_read_def Let_def region_batch_read_insert [OF assms(2)]
      split: if_splits)

subsection \<open>The tape as a list\<close>

definition tape_rep :: "OlaTape \<Rightarrow> u64 list \<Rightarrow> bool" where
  "tape_rep t xs \<longleftrightarrow>
     length xs < 2 ^ 64 \<and> tape_tp t = of_nat (length xs) \<and>
     addr_to_value t = (\<lambda>a. if unat a < length xs then Some (xs ! unat a) else None)"

lemma tape_rep_default: "tape_rep tape_default []"
  by (simp add: tape_rep_def tape_default_def)

lemma unat_of_nat_u64: "n < 2 ^ 64 \<Longrightarrow> unat (of_nat n :: u64) = n"
  by (simp add: unat_of_nat)

interpretation tape: append_log tape_rep tape_write "2 ^ 64 - 1"
proof
  fix t xs and v :: u64
  assume t: "tape_rep t xs" and l: "length xs < 2 ^ 64 - 1"
  then have len: "length xs < 2 ^ 64" by simp
  have "unat a = length xs \<longleftrightarrow> a = of_nat (length xs)" for a :: u64
    using unat_of_nat_u64 [OF len] by (metis unsigned_word_eqI)
  with t l show "tape_rep (tape_write t v) (xs @ [v])"
    by (auto simp: tape_rep_def tape_write_def fun_eq_iff nth_append less_Suc_eq unat_of_nat_u64 [OF len])
qed

lemma tape_rep_batch_write:
  "tape_rep t xs \<Longrightarrow> length xs + length vs < 2 ^ 64 \<Longrightarrow> tape_rep (tape_batch_write t vs) (xs @ vs)"
  unfolding tape_batch_write_def by (rule tape.rep_push_all) auto

lemma tape_read_top_rep:
  assumes "tape_rep t xs"
  shows "tape_read_top t a =
    (if unat a < length xs then Inr (xs ! unat a)
     else fail (TapeAccessError (TapeReadNeverInited a)))"
  using assms by (simp add: tape_rep_def tape_read_top_def)

lemma tape_read_stack_rep:
  assumes "tape_rep t xs" "unat n * 8 \<le> 2 ^ 63 - 1"
  shows "tape_read_stack t n =
    (if unat n \<le> length xs then Inr (drop (length xs - unat n) xs)
     else fail (TapeAccessError (TapeTooLong (tape_tp t) n)))"
proof (cases "unat n \<le> length xs")
  case True
  have len: "length xs < 2 ^ 64" and tp: "unat (tape_tp t) = length xs"
    using assms(1) by (auto simp: tape_rep_def unat_of_nat_u64)
  have addr: "unat (tape_tp t - 1 - of_nat i) = length xs - 1 - i" if "i < unat n" for i
  proof -
    have "tape_tp t - 1 - of_nat i = of_nat (length xs - 1 - i)"
      using that True assms(1) by (simp add: tape_rep_def of_nat_diff)
    then show ?thesis using len by (simp add: unat_of_nat_u64)
  qed
  have "traverse (\<lambda>i. case addr_to_value t (tape_tp t - 1 - i) of Some v \<Rightarrow> Inr v
          | None \<Rightarrow> fail (TapeAccessError (TapeReadNeverInited (tape_tp t - i))))
        (map of_nat [0..<unat n]) = Inr (rev (drop (length xs - unat n) xs))"
    using True assms(1) addr
    by (subst traverse_Inr_iff)
      (auto simp: rev_nth tape_rep_def)
  with True assms tp show ?thesis
    by (simp add: tape_read_stack_def vec_with_capacity_def guard_def word_less_nat_alt)
next
  case False
  with assms show ?thesis
    by (simp add: tape_read_stack_def word_less_nat_alt tape_rep_def unat_of_nat_u64)
qed

lemma mem_read_prophet_write:
  assumes "mem_write m a v = Inr m'" "in_prophet_region a"
  shows "mem_read m' b = (if b = mem_psp m \<and> in_prophet_region b then Inr v else mem_read m b)"
proof -
  have m': "m' = m\<lparr>prophet_region := (prophet_region m)(mem_psp m \<mapsto> v), mem_psp := mem_psp m + 1\<rparr>"
    using assms regions_disjoint [of a] unfolding mem_write_Inr_iff by blast
  then have "mem_peek m' b = (if b = mem_psp m \<and> in_prophet_region b then Some v else mem_peek m b)"
    using regions_disjoint [of b] by (auto simp: mem_peek_def)
  then show ?thesis by (auto simp: mem_read_peek)
qed

lemma mem_read_default:
  "mem_read mem_default b =
     (if b = MEM_STACK_END then Inr (MEM_STACK_END + 1)
      else fail (MemoryAccessError (if b < MEM_MAX_ADDR then ReadNeverInited b else ReadInvalidAddr b)))"
proof -
  have "\<not> in_stack_region MEM_STACK_END" "in_heap_region MEM_STACK_END"
    by (simp_all add: in_stack_region_def in_heap_region_def region_bounds)
  then have "mem_peek mem_default b = (if b = MEM_STACK_END then Some (MEM_STACK_END + 1) else None)"
    by (auto simp: mem_peek_def mem_default_def)
  then show ?thesis by (simp add: mem_read_peek)
qed

subsection \<open>Properties\<close>

text \<open>
  C16 Memory access on every branch. A write fails exactly for a value above \<open>MAX_VALUE\<close> or an address
  outside memory, with the error for it. A successful write to the stack or heap changes what is
  read at exactly that address; one anywhere in the prophet region ignores its address, appends at
  \<open>psp\<close> and changes what is read there only. In the initial memory a read returns the heap pointer at its address, and
  elsewhere fails, for a cell never written or an address outside memory; with the statements on writes this
  gives every read of every memory reached by writes.
\<close>

theorem memory_write_read:
  "(case mem_write m a v of
      Inl e \<Rightarrow> e = Processor (MemoryAccessError (if MAX_VALUE < v then WriteInvalidValue v else WriteInvalidAddr a)) \<and>
        (MAX_VALUE < v \<or> MEM_MAX_ADDR \<le> a)
    | Inr m' \<Rightarrow> v \<le> MAX_VALUE \<and> a < MEM_MAX_ADDR \<and>
        (if in_prophet_region a
         then mem_psp m' = mem_psp m + 1 \<and> prophet_region m' = (prophet_region m)(mem_psp m \<mapsto> v) \<and>
              stack_region m' = stack_region m \<and> heap_region m' = heap_region m \<and>
              mem_read m' b = (if b = mem_psp m \<and> in_prophet_region b then Inr v else mem_read m b)
         else mem_psp m' = mem_psp m \<and> mem_read m' b = (if b = a then Inr v else mem_read m b))) \<and>
   mem_read mem_default b =
     (if b = MEM_STACK_END then Inr (MEM_STACK_END + 1)
      else fail (MemoryAccessError (if b < MEM_MAX_ADDR then ReadNeverInited b else ReadInvalidAddr b)))"
proof (intro conjI mem_read_default)
  show "case mem_write m a v of
      Inl e \<Rightarrow> e = Processor (MemoryAccessError (if MAX_VALUE < v then WriteInvalidValue v else WriteInvalidAddr a)) \<and>
        (MAX_VALUE < v \<or> MEM_MAX_ADDR \<le> a)
    | Inr m' \<Rightarrow> v \<le> MAX_VALUE \<and> a < MEM_MAX_ADDR \<and>
        (if in_prophet_region a
         then mem_psp m' = mem_psp m + 1 \<and> prophet_region m' = (prophet_region m)(mem_psp m \<mapsto> v) \<and>
              stack_region m' = stack_region m \<and> heap_region m' = heap_region m \<and>
              mem_read m' b = (if b = mem_psp m \<and> in_prophet_region b then Inr v else mem_read m b)
         else mem_psp m' = mem_psp m \<and> mem_read m' b = (if b = a then Inr v else mem_read m b))"
  proof (cases "mem_write m a v")
    case (Inl e)
    then show ?thesis using mem_write_Inl_iff [of m a v]
      by (auto simp: not_less mem_write_def mem_write_prophet_def split: if_splits)
  next
    case (Inr m')
    note w = Inr [unfolded mem_write_Inr_iff]
    show ?thesis
    proof (cases "in_prophet_region a")
      case True
      with w Inr regions_disjoint [of a] regions_cover [of a] mem_read_prophet_write [OF Inr True] show ?thesis by auto
    next
      case False
      with w regions_cover [of a] have own: "mem_own a" "a < MEM_MAX_ADDR" by (auto simp: mem_own_def)
      from mem.peek_put [OF own(1) Inr] False own w Inr show ?thesis by (auto simp: mem_read_peek)
    qed
  qed
qed

text \<open>
  C17 What a batch write stores, a batch read of the same length at the same address returns, in any
  region, for every batch a vector can hold.
\<close>

theorem memory_batch_roundtrip:
  assumes "mem_batch_write m from vs = Inr m'" "length vs * 8 \<le> 2 ^ 63 - 1"
  shows "mem_batch_read m' from (of_nat (length vs)) = Inr vs"
  using assms by (rule mem_batch_read_write)

theorem memory_batch_roundtrip_witness:
  "\<exists>m'. mem_batch_write mem_default 5 [7, 8] = Inr m' \<and> mem_batch_read m' 5 2 = Inr [7, 8]"
proof -
  have "\<exists>m'. mem_batch_write mem_default 5 [7, 8] = Inr m'"
    by (simp add: mem_batch_write_def region_bounds)
  then show ?thesis using memory_batch_roundtrip [of mem_default 5 "[7, 8]"] by auto
qed

text \<open>
  C18 The tape refines an append-only list: writing a batch appends it, \<open>read_top\<close> is indexing from the
  bottom and \<open>read_stack\<close> returns the last n values in the order written, with an error beyond the end.
\<close>

theorem tape_refines_list:
  assumes "tape_rep t xs" "length xs + length vs < 2 ^ 64" "unat n * 8 \<le> 2 ^ 63 - 1"
  shows "tape_rep (tape_batch_write t vs) (xs @ vs) \<and>
    tape_read_top t a = (if unat a < length xs then Inr (xs ! unat a)
      else fail (TapeAccessError (TapeReadNeverInited a))) \<and>
    tape_read_stack t n = (if unat n \<le> length xs then Inr (drop (length xs - unat n) xs)
      else fail (TapeAccessError (TapeTooLong (tape_tp t) n)))"
  using tape_rep_batch_write [OF assms(1,2)] tape_read_top_rep [OF assms(1)]
    tape_read_stack_rep [OF assms(1,3)] by simp

theorem tape_refines_list_witness:
  "tape_rep (tape_batch_write tape_default [3, 4]) ([] @ [3, 4]) \<and>
   tape_read_stack tape_default 1 = fail (TapeAccessError (TapeTooLong 0 1))"
  using tape_refines_list [OF tape_rep_default, of "[3, 4]" 1 0] by (simp add: tape_default_def)

end
