(* ===== verification/Operands.thy ===== *)
theory Operands
  imports Hardware
begin

text \<open>
  Instruction operands and immediates (\<open>core/src/vm/operands.rs\<close>). An \<open>ImmediateValue\<close> keeps its
  value as a hexadecimal string, as the source does; the parser works on \<open>i128\<close> with the wrapping
  operations of a release build. The three regular expressions of \<open>OlaOperand::from_str\<close> are written
  out as matchers.
\<close>

record ImmediateValue =
  hex :: string

datatype (plugins only: code) OlaOperand =
    ImmediateOperand ImmediateValue
  | RegisterOperand OlaRegister
  | RegisterWithOffset OlaRegister ImmediateValue
  | RegisterWithFactor OlaRegister ImmediateValue
  | SpecialReg OlaSpecialRegister

fun get_asm_token :: "OlaOperand \<Rightarrow> string" where
  "get_asm_token (ImmediateOperand value) = hex value"
| "get_asm_token (RegisterOperand register) = reg_to_string register"
| "get_asm_token (RegisterWithOffset register offset) = reg_to_string register @ ''+'' @ hex offset"
| "get_asm_token (SpecialReg special_reg) = special_reg_to_string special_reg"
| "get_asm_token (RegisterWithFactor register factor) = hex factor @ ''*'' @ reg_to_string register"

definition imm_to_u64 :: "ImmediateValue \<Rightarrow> parse_int_error + u64" where
  "imm_to_u64 v = u64_from_str_radix 16 (trim_start_0x (hex v))"

definition imm_to_u64_or_0 :: "ImmediateValue \<Rightarrow> u64" where
  "imm_to_u64_or_0 v = (case imm_to_u64 v of Inr x \<Rightarrow> x | Inl _ \<Rightarrow> 0)"

definition imm_to_string :: "ImmediateValue \<Rightarrow> string" where
  "imm_to_string v = hex v @ ''('' @ show_u64 (imm_to_u64_or_0 v) @ '')''"

text \<open>Arithmetic on \<open>i128\<close> wraps.\<close>

definition wrap_i128 :: "int \<Rightarrow> int" where
  "wrap_i128 x = (x + 2 ^ 127) mod 2 ^ 128 - 2 ^ 127"

definition imm_from_str :: "string \<Rightarrow> codec_message + ImmediateValue" where
  "imm_from_str s =
     (if starts_with_0x s then
        (case u64_from_str_radix 16 (trim_start_0x s) of
           Inl _ \<Rightarrow> Inl (ImmediateNotNumber s)
         | Inr value \<Rightarrow>
             if ORDER \<le> value then Inl (ImmediateOverflow s)
             else Inr \<lparr>hex = format_hex value\<rparr>)
      else
        (case i128_from_str_radix 10 s of
           Inl _ \<Rightarrow> Inl (ImmediateNotNumber s)
         | Inr value \<Rightarrow>
             (let signed_order = uint ORDER in
              if signed_order \<le> value \<or> signed_order \<le> wrap_i128 (value * - 1)
              then Inl (ImmediateOverflow s)
              else
                let actual_value =
                  (if value < 0 then wrap_i128 (signed_order - wrap_i128 \<bar>value\<bar>) else value)
                in Inr \<lparr>hex = format_hex (word_of_int actual_value)\<rparr>)))"

fun operand_to_string :: "OlaOperand \<Rightarrow> string" where
  "operand_to_string (ImmediateOperand value) = ''ImmediateOperand('' @ imm_to_string value @ '')''"
| "operand_to_string (RegisterOperand register) = ''RegisterOperand('' @ reg_to_string register @ '')''"
| "operand_to_string (RegisterWithOffset register offset) =
     ''RegisterWithOffset(['' @ reg_to_string register @ '','' @ show_u64 (imm_to_u64_or_0 offset) @ ''])''"
| "operand_to_string (SpecialReg special_reg) =
     ''SpecialReg('' @ special_reg_to_string special_reg @ '')''"
| "operand_to_string (RegisterWithFactor register factor) =
     ''RegisterWithFactor('' @ show_u64 (imm_to_u64_or_0 factor) @ ''*'' @ reg_to_string register @ '')''"

definition is_ascii_digit :: "char \<Rightarrow> bool" where
  "is_ascii_digit c \<longleftrightarrow> 48 \<le> (of_char c :: nat) \<and> (of_char c :: nat) \<le> 57"

text \<open>\<open>^-?[[:digit:]]+$\<close>\<close>

definition re_imm :: "string \<Rightarrow> bool" where
  "re_imm s =
     (let t = (if s \<noteq> [] \<and> hd s = CHR ''-'' then tl s else s)
      in t \<noteq> [] \<and> list_all is_ascii_digit t)"

text \<open>\<open>^r[0-8]$\<close>\<close>

definition re_reg :: "string \<Rightarrow> bool" where
  "re_reg s \<longleftrightarrow> length s = 2 \<and> s ! 0 = CHR ''r'' \<and> is_ascii_digit (s ! 1) \<and> s ! 1 \<noteq> CHR ''9''"

text \<open>\<open>^\[(r[0-8]),(-?[[:digit:]]+)\]$\<close>, with its two captures.\<close>

definition re_reg_offset :: "string \<Rightarrow> (string \<times> string) option" where
  "re_reg_offset s =
     (let r = take 2 (drop 1 s); off = butlast (drop 4 s) in
      if length s > 5 \<and> hd s = CHR ''['' \<and> re_reg r \<and> s ! 3 = CHR '','' \<and> last s = CHR '']'' \<and> re_imm off
      then Some (r, off) else None)"

definition operand_from_str :: "string \<Rightarrow> codec_message + OlaOperand" where
  "operand_from_str s =
     (case re_reg_offset s of
        Some (str_reg, str_offset) \<Rightarrow>
          rbind (reg_from_str str_reg)
            (\<lambda>register. rbind (imm_from_str str_offset)
              (\<lambda>offset. Inr (RegisterWithOffset register offset)))
      | None \<Rightarrow>
          if re_reg s then rbind (reg_from_str s) (\<lambda>register. Inr (RegisterOperand register))
          else if re_imm s then rbind (imm_from_str s) (\<lambda>value. Inr (ImmediateOperand value))
          else (case special_reg_from_str s of
              Inl err \<Rightarrow> Inl (InvalidOperand s err)
            | Inr special_reg \<Rightarrow> Inr (SpecialReg special_reg)))"

subsection \<open>Immediates\<close>

text \<open>The immediates the parser can produce: a canonical field element in lower-case hexadecimal.\<close>

definition wf_imm :: "ImmediateValue \<Rightarrow> bool" where
  "wf_imm v = (case imm_to_u64 v of Inr x \<Rightarrow> x < ORDER \<and> hex v = format_hex x | Inl _ \<Rightarrow> False)"

lemma imm_to_u64_format_hex [simp]: "imm_to_u64 \<lparr>hex = format_hex x\<rparr> = Inr x"
  by (simp add: imm_to_u64_def parse_format_hex)

lemma wf_imm_iff: "wf_imm v \<longleftrightarrow> (\<exists>x < ORDER. v = \<lparr>hex = format_hex x\<rparr>)"
proof
  assume "wf_imm v"
  then obtain x where "x < ORDER" "hex v = format_hex x"
    by (auto simp: wf_imm_def split: sum.splits)
  then show "\<exists>x < ORDER. v = \<lparr>hex = format_hex x\<rparr>"
    by (intro exI [of _ x]) simp
qed (auto simp: wf_imm_def)

lemma imm_from_str_format_hex:
  "x < ORDER \<Longrightarrow> imm_from_str (format_hex x) = Inr \<lparr>hex = format_hex x\<rparr>"
  by (simp add: imm_from_str_def parse_format_hex)

lemma imm_from_str_wf: "wf_imm v \<Longrightarrow> imm_from_str (hex v) = Inr v"
  by (auto simp: wf_imm_iff imm_from_str_format_hex)

lemma wrap_i128_id: "- (2 ^ 127) \<le> x \<Longrightarrow> x < 2 ^ 127 \<Longrightarrow> wrap_i128 x = x"
  by (simp add: wrap_i128_def)

text \<open>A decimal immediate strictly between \<open>-p\<close> and \<open>p\<close> denotes its residue modulo \<open>p\<close>.\<close>

lemma imm_from_str_decimal:
  assumes "\<not> starts_with_0x s" "i128_from_str_radix 10 s = Inr v" "- gf_p < v" "v < gf_p"
  shows "imm_from_str s = Inr \<lparr>hex = format_hex (word_of_int (v mod gf_p))\<rparr>"
proof -
  have p: "uint ORDER = gf_p" by (simp add: ORDER_def gf_p_def)
  have w: "wrap_i128 (- v) = - v" "v < 0 \<Longrightarrow> wrap_i128 (gf_p + v) = gf_p + v"
    using assms(3,4) by (simp_all add: wrap_i128_id gf_p_def)
  have m: "v mod gf_p = (if v < 0 then gf_p - \<bar>v\<bar> else v)"
  proof (cases "v < 0")
    case True
    then have "(v + gf_p) mod gf_p = v + gf_p"
      using assms(3) by (intro mod_pos_pos_trivial) simp_all
    with True show ?thesis by simp
  qed (use assms(4) in simp)
  show ?thesis
    using assms unfolding imm_from_str_def p Let_def m by (auto simp: w)
qed

text \<open>Two's-complement minimum: \<open>value * -1\<close> wraps, so the range check does not see it, and the result is
  the field order itself.\<close>

lemma imm_from_str_i128_min:
  assumes "\<not> starts_with_0x s" "i128_from_str_radix 10 s = Inr (- (2 ^ 127))"
  shows "imm_from_str s = Inr \<lparr>hex = format_hex ORDER\<rparr>"
proof -
  have r: "(- 170141183460469231713240559646469521407 :: u64) = 18446744069414584321"
    by (rule word_uint_eqI) (simp add: uint_word_ariths)
  show ?thesis
    using assms by (simp add: imm_from_str_def Let_def wrap_i128_def ORDER_def r)
qed

lemma operand_from_str_r9: "operand_from_str ''r9'' = Inl (InvalidOperand ''r9'' (InvalidSpecialRegIdentifier ''r9''))"
  by code_simp

lemma parse_digits_bounds:
  "parse_digits_up radix m acc s = Inr n \<Longrightarrow> acc \<le> m \<Longrightarrow> n \<le> m"
  "parse_digits_down radix m acc s = Inr n \<Longrightarrow> acc \<le> m \<Longrightarrow> n \<le> m"
  by (induction s arbitrary: acc) (auto split: option.splits if_splits)

lemma i128_from_str_radix_range:
  assumes "i128_from_str_radix radix s = Inr v"
  shows "- (2 ^ 127) \<le> v" "v < 2 ^ 127"
proof -
  have d: "int n \<le> 2 ^ 127" if "parse_digits_down radix (2 ^ 127) 0 t = Inr n" for t n
    using parse_digits_bounds(2) [OF that] by simp
  have u: "int n < 2 ^ 127" if "parse_digits_up radix (2 ^ 127 - 1) 0 t = Inr n" for t n
    using parse_digits_bounds(1) [OF that] by simp
  have "(\<exists>t n. parse_digits_down radix (2 ^ 127) 0 t = Inr n \<and> v = - int n) \<or>
      (\<exists>t n. parse_digits_up radix (2 ^ 127 - 1) 0 t = Inr n \<and> v = int n)"
    using assms unfolding i128_from_str_radix_def
    by (cases s) (auto simp: rbind_Inr_iff simp del: parse_digits_up.simps parse_digits_down.simps split: if_splits)
  then show "- (2 ^ 127) \<le> v" "v < 2 ^ 127" using d u by fastforce+
qed

lemma imm_from_str_overflow:
  assumes "\<not> starts_with_0x s" "i128_from_str_radix 10 s = Inr v" "v \<noteq> - (2 ^ 127)" "\<not> (- gf_p < v \<and> v < gf_p)"
  shows "imm_from_str s = Inl (ImmediateOverflow s)"
proof -
  have p: "uint ORDER = gf_p" by (simp add: ORDER_def gf_p_def)
  have "wrap_i128 (- v) = - v"
    using i128_from_str_radix_range [OF assms(2)] assms(3) by (intro wrap_i128_id) simp_all
  then show ?thesis using assms by (auto simp: imm_from_str_def p Let_def)
qed

subsection \<open>Properties\<close>

text \<open>
  C23 A decimal immediate strictly between -p and p is stored as its residue modulo p, printed in
  hexadecimal, and reads back as that canonical 64-bit value.
\<close>

theorem decimal_immediate_value:
  assumes "\<not> starts_with_0x s" "i128_from_str_radix 10 s = Inr v" "- gf_p < v" "v < gf_p"
  shows "\<exists>im. imm_from_str s = Inr im \<and> imm_to_u64 im = Inr (word_of_int (v mod gf_p)) \<and> wf_imm im"
proof -
  have "uint (word_of_int (v mod gf_p) :: u64) = v mod gf_p"
    by (simp add: uint_word_of_int gf_p_def)
  then have "(word_of_int (v mod gf_p) :: u64) < ORDER"
    by (simp add: word_less_def)
  then show ?thesis using imm_from_str_decimal [OF assms] by (auto simp: wf_imm_iff)
qed

theorem decimal_immediate_value_witness:
  "\<exists>im. imm_from_str ''-12'' = Inr im \<and> imm_to_u64 im = Inr (word_of_int ((- 12) mod gf_p)) \<and> wf_imm im"
  by (rule decimal_immediate_value)
    (simp_all add: i128_from_str_radix_def to_digit_def gf_p_def)

text \<open>
  C24 The parser of decimal immediates, for every string: what is not a decimal number of 128 bits is refused, a
  number strictly between -p and p becomes its residue modulo p, and every other number is refused
  as an overflow, with one exception. The negation of \<open>i128::MIN\<close> in the range check wraps around to a
  negative number, so that number is accepted, and becomes the non-canonical value \<open>ORDER\<close>.
\<close>

theorem decimal_immediates:
  assumes "\<not> starts_with_0x s"
  shows "imm_from_str s =
    (case i128_from_str_radix 10 s of
       Inl _ \<Rightarrow> Inl (ImmediateNotNumber s)
     | Inr v \<Rightarrow>
         if - gf_p < v \<and> v < gf_p then Inr \<lparr>hex = format_hex (word_of_int (v mod gf_p))\<rparr>
         else if v = - (2 ^ 127) then Inr \<lparr>hex = format_hex ORDER\<rparr>
         else Inl (ImmediateOverflow s))"
proof (cases "i128_from_str_radix 10 s")
  case (Inl e)
  then show ?thesis using assms by (simp add: imm_from_str_def)
next
  case (Inr v)
  show ?thesis
    using imm_from_str_decimal [OF assms Inr] imm_from_str_i128_min [OF assms] imm_from_str_overflow [OF assms Inr] Inr
    by (cases "- gf_p < v \<and> v < gf_p"; cases "v = - (2 ^ 127)") simp_all
qed

theorem decimal_immediates_witness:
  "imm_from_str ''-170141183460469231731687303715884105728'' = Inr \<lparr>hex = format_hex ORDER\<rparr> \<and>
   imm_from_str ''18446744069414584321'' = Inl (ImmediateOverflow ''18446744069414584321'')"
  by (simp add: decimal_immediates i128_from_str_radix_def to_digit_def gf_p_def)

end
