(* ===== verification/BinaryProgram.thy ===== *)
theory BinaryProgram
  imports Operands
begin

text \<open>
  Binary programs: the instruction word codec of \<open>core/src/program/binary_program.rs\<close> and the
  program decoder of \<open>core/src/program/decoder.rs\<close>. The theorems show that encoding a well-formed
  instruction and decoding it gives the instruction back, that every decoded instruction is
  well-formed, and that the whole program round-trips through its textual bytecode.
\<close>

record OlaProphetInput =
  in_name :: string
  in_length :: u64
  in_is_ref :: bool
  in_is_input_output :: bool

record OlaProphetOutput =
  out_name :: string
  out_length :: u64
  out_is_ref :: bool
  out_is_input_output :: bool

record OlaProphet =
  host :: u64
  code :: string
  ctx :: "(string \<times> u64) list"
  inputs :: "OlaProphetInput list"
  outputs :: "OlaProphetOutput list"

record BinaryInstruction =
  opcode :: OlaOpcode
  op0 :: "OlaOperand option"
  op1 :: "OlaOperand option"
  dst :: "OlaOperand option"
  prophet :: "OlaProphet option"

record BinaryProgram =
  bytecode :: string
  prophets :: "OlaProphet list"
  debug_info :: "(u64 \<rightharpoonup> string) option"

definition BIT_SHIFT_OP1_IMM :: nat where
  "BIT_SHIFT_OP1_IMM = 62"

definition binary_length :: "BinaryInstruction \<Rightarrow> nat" where
  "binary_length i =
     (if opcode i = MLOAD \<or> opcode i = MSTORE then 2
      else 1 + (case op1 i of
          Some (ImmediateOperand _) \<Rightarrow> 1
        | Some (RegisterWithOffset _ _) \<Rightarrow> 1
        | Some (RegisterWithFactor _ _) \<Rightarrow> 1
        | _ \<Rightarrow> 0))"

subsection \<open>Display\<close>

definition option_operand_to_string :: "OlaOperand option \<Rightarrow> string" where
  "option_operand_to_string x = (case x of Some op \<Rightarrow> operand_to_string op | None \<Rightarrow> ''None'')"

definition inst_to_string :: "BinaryInstruction \<Rightarrow> string" where
  "inst_to_string i =
     ''BinaryInstruction ==> opcode: '' @ opcode_to_string (opcode i)
     @ '', op0: '' @ option_operand_to_string (op0 i)
     @ '', op1: '' @ option_operand_to_string (op1 i)
     @ '', dst: '' @ option_operand_to_string (dst i)
     @ '', prophet: '' @ (case prophet i of Some p \<Rightarrow> code p | None \<Rightarrow> ''None'')"

definition unwrap_token :: "OlaOperand option \<Rightarrow> string result" where
  "unwrap_token x = ok_or (Panicked PanicUnwrapNone) (map_option get_asm_token x)"

definition get_asm_form_code :: "BinaryInstruction \<Rightarrow> string result" where
  "get_asm_form_code i =
     (let opc = opcode i; tok = opcode_token opc in
      if opc \<in> {ADD, MUL, AND_OP, OR_OP, XOR_OP, EQ, NEQ, GTE, TLOAD, POSEIDON} then
        rbind (unwrap_token (dst i)) (\<lambda>d. rbind (unwrap_token (op0 i)) (\<lambda>a.
        rbind (unwrap_token (op1 i)) (\<lambda>b. Inr (tok @ '' '' @ d @ '' '' @ a @ '' '' @ b))))
      else if opc \<in> {MOV, NOT_OP, SIGCHECK} then
        rbind (unwrap_token (dst i)) (\<lambda>d. rbind (unwrap_token (op1 i)) (\<lambda>b.
          Inr (tok @ '' '' @ d @ '' '' @ b)))
      else if opc = MLOAD then
        rbind (unwrap_token (op0 i)) (\<lambda>anchor. rbind (unwrap_token (op1 i)) (\<lambda>offset.
        rbind (unwrap_token (dst i)) (\<lambda>dst_reg.
          Inr (tok @ '' '' @ dst_reg @ '' ['' @ anchor @ ''+'' @ offset @ '']''))))
      else if opc = MSTORE then
        rbind (unwrap_token (op0 i)) (\<lambda>anchor. rbind (unwrap_token (op1 i)) (\<lambda>offset.
        rbind (unwrap_token (dst i)) (\<lambda>value_reg.
          Inr (tok @ '' ['' @ anchor @ ''+'' @ offset @ ''] '' @ value_reg))))
      else if opc \<in> {CJMP, SCCALL, SLOAD, SSTORE, TSTORE, EVENT} then
        rbind (unwrap_token (op0 i)) (\<lambda>a. rbind (unwrap_token (op1 i)) (\<lambda>b.
          Inr (tok @ '' '' @ a @ '' '' @ b)))
      else if opc \<in> {JMP, CALL, RC, ASSERT} then
        rbind (unwrap_token (op1 i)) (\<lambda>b. Inr (tok @ '' '' @ b))
      else Inr tok)"

subsection \<open>Encoding\<close>

text \<open>The three \<open>match\<close> blocks of \<open>encode\<close>, each updating the instruction word and the immediate.\<close>

definition encode_op0 ::
    "BinaryInstruction \<Rightarrow> u64 \<Rightarrow> ImmediateValue option \<Rightarrow> codec_message + u64 \<times> ImmediateValue option" where
  "encode_op0 i w imm =
     (case op0 i of
        Some (ImmediateOperand _) \<Rightarrow>
          Inl (EncodeOp0 (''encode err, op0 cannot be immediate value: '' @ inst_to_string i))
      | Some (RegisterOperand register) \<Rightarrow> Inr (w OR binary_bit_mask_as_op0 register, imm)
      | Some (RegisterWithOffset register offset) \<Rightarrow>
          Inr (w OR binary_bit_mask_as_op0 register, Some offset)
      | Some (SpecialReg _) \<Rightarrow>
          Inl (EncodeOp0 (''encode err, op0 cannot be special reg: '' @ inst_to_string i))
      | Some (RegisterWithFactor _ _) \<Rightarrow>
          Inl (EncodeOp0 (''encode err, op0 cannot be reg with factor: '' @ inst_to_string i))
      | None \<Rightarrow> Inr (w, imm))"

definition encode_op1 ::
    "BinaryInstruction \<Rightarrow> u64 \<Rightarrow> ImmediateValue option
      \<Rightarrow> codec_message + u64 \<times> ImmediateValue option \<times> bool" where
  "encode_op1 i w imm =
     (case op1 i of
        Some (ImmediateOperand value) \<Rightarrow> Inr (w, Some value, True)
      | Some (RegisterOperand register) \<Rightarrow> Inr (w OR binary_bit_mask_as_op1 register, imm, False)
      | Some (RegisterWithOffset register offset) \<Rightarrow>
          Inr (w OR binary_bit_mask_as_op1 register, Some offset, False)
      | Some (SpecialReg _) \<Rightarrow>
          if opcode i \<noteq> MOV
          then Inl (EncodeOp1 (''encode err, special_reg operand only supported for mov: '' @ inst_to_string i))
          else Inr (w, imm, False)
      | Some (RegisterWithFactor register factor) \<Rightarrow>
          Inr (w OR binary_bit_mask_as_op1 register, Some factor, False)
      | None \<Rightarrow> Inr (w, imm, False))"

definition encode_dst ::
    "BinaryInstruction \<Rightarrow> u64 \<Rightarrow> ImmediateValue option \<Rightarrow> codec_message + u64 \<times> ImmediateValue option" where
  "encode_dst i w imm =
     (case dst i of
        Some (ImmediateOperand _) \<Rightarrow>
          Inl (EncodeDst (''encode err, dst cannot be ImmediateOperand: '' @ inst_to_string i))
      | Some (RegisterOperand register) \<Rightarrow> Inr (w OR binary_bit_mask_as_dst register, imm)
      | Some (RegisterWithOffset register offset) \<Rightarrow>
          Inr (w OR binary_bit_mask_as_dst register, Some offset)
      | Some (SpecialReg _) \<Rightarrow>
          Inl (EncodeDst (''encode err, dst cannot be SpecialReg: '' @ inst_to_string i))
      | Some (RegisterWithFactor _ _) \<Rightarrow>
          Inl (EncodeDst (''encode err, dst cannot be reg with factor: '' @ inst_to_string i))
      | None \<Rightarrow> Inr (w, imm))"

definition encode :: "BinaryInstruction \<Rightarrow> codec_message + string list" where
  "encode i =
     rbind (encode_op0 i 0 None) (\<lambda>(w0, imm0).
     rbind (encode_op1 i w0 imm0) (\<lambda>(w1, imm1, is_op1_imm).
     rbind (encode_dst i w1 imm1) (\<lambda>(w2, imm).
       let w3 = (if is_op1_imm then w2 OR push_bit BIT_SHIFT_OP1_IMM 1 else w2);
           w4 = w3 OR binary_bit_mask (opcode i)
       in Inr (format_hex_pad16 w4 # (case imm of Some v \<Rightarrow> [hex v] | None \<Rightarrow> [])))))"

definition parse_u64_from_string :: "string \<Rightarrow> u64 result" where
  "parse_u64_from_string s =
     (case u64_from_str_radix 16 (trim_start_0x s) of
        Inr res \<Rightarrow> Inr res
      | Inl _ \<Rightarrow> Inl (Anyhow ParseU64FromStringError))"

definition get_inst_imm_u64 :: "BinaryInstruction \<Rightarrow> (u64 \<times> u64 option) result" where
  "get_inst_imm_u64 i =
     (case encode i of
        Inr (instruction_binary # rest) \<Rightarrow>
          rbind (parse_u64_from_string instruction_binary) (\<lambda>inst.
            (case rest of
               v # _ \<Rightarrow> rbind (parse_u64_from_string v) (\<lambda>value. Inr (inst, Some value))
             | [] \<Rightarrow> Inr (inst, None)))
      | Inr [] \<Rightarrow> Inl (Anyhow GetInstImmError)
      | Inl _ \<Rightarrow> Inl (Anyhow GetInstImmError))"

subsection \<open>Decoding\<close>

definition match_opcode :: "u64 \<Rightarrow> OlaOpcode option" where
  "match_opcode w = find (\<lambda>op. w AND binary_bit_mask op \<noteq> 0) all_opcodes"

definition match_reg :: "(OlaRegister \<Rightarrow> u64) \<Rightarrow> u64 \<Rightarrow> OlaRegister option" where
  "match_reg reg_mask w = find (\<lambda>reg. w AND reg_mask reg \<noteq> 0) all_registers"

definition decode_mem_inst ::
    "OlaOpcode \<Rightarrow> u64 \<Rightarrow> bool \<Rightarrow> ImmediateValue option \<Rightarrow> OlaProphet option
      \<Rightarrow> codec_message + BinaryInstruction" where
  "decode_mem_inst opc w is_op1_imm immediate_value proph =
     rbind (ok_or (DecodeMissing ''No matched dst register for mstore'')
              (match_reg binary_bit_mask_as_dst w)) (\<lambda>value_reg.
     rbind (ok_or (DecodeMissing ''No matched op0 register for mstore'')
              (match_reg binary_bit_mask_as_op0 w)) (\<lambda>anchor.
     rbind
       (if is_op1_imm then
          rbind (ok_or (DecodeMissing ''Empty immediate value'') immediate_value)
            (\<lambda>v. Inr (ImmediateOperand v))
        else
          rbind (ok_or (DecodeMissing ''No matched op1 register for mstore'')
                   (match_reg binary_bit_mask_as_op1 w)) (\<lambda>offset_reg.
          rbind (ok_or (DecodeMissing ''Empty immediate value'') immediate_value)
            (\<lambda>v. Inr (RegisterWithFactor offset_reg v))))
       (\<lambda>offset. Inr \<lparr>opcode = opc, op0 = Some (RegisterOperand anchor), op1 = Some offset,
                        dst = Some (RegisterOperand value_reg), prophet = proph\<rparr>)))"

definition decode_plain_inst ::
    "OlaOpcode \<Rightarrow> u64 \<Rightarrow> bool \<Rightarrow> ImmediateValue option \<Rightarrow> OlaProphet option
      \<Rightarrow> codec_message + BinaryInstruction" where
  "decode_plain_inst opc w is_op1_imm immediate_value proph =
     rbind
       (if is_op1_imm then
          rbind (ok_or (DecodeMissing ''Empty immediate value'') immediate_value)
            (\<lambda>v. Inr (Some (ImmediateOperand v)))
        else if opc = MSTORE \<or> opc = MLOAD then
          rbind (ok_or (DecodeMissing ''No matched op1 register'')
                   (match_reg binary_bit_mask_as_op1 w)) (\<lambda>reg.
          rbind (ok_or (DecodeMissing ''Empty immediate value'') immediate_value)
            (\<lambda>v. Inr (Some (RegisterWithFactor reg v))))
        else
          (case match_reg binary_bit_mask_as_op1 w of
             Some reg \<Rightarrow> Inr (Some (RegisterOperand reg))
           | None \<Rightarrow> if opc = MOV then Inr (Some (SpecialReg PSP)) else Inr None))
       (\<lambda>o1. Inr \<lparr>opcode = opc,
                   op0 = map_option RegisterOperand (match_reg binary_bit_mask_as_op0 w),
                   op1 = o1,
                   dst = map_option RegisterOperand (match_reg binary_bit_mask_as_dst w),
                   prophet = proph\<rparr>)"

definition decode :: "string list \<Rightarrow> OlaProphet option \<Rightarrow> codec_message + BinaryInstruction" where
  "decode binary_code proph =
     (case binary_code of
        [] \<Rightarrow> Inl DecodeEmptyCode
      | instruction_binary # _ \<Rightarrow>
          (case u64_from_str_radix 16 (trim_start_0x instruction_binary) of
             Inl _ \<Rightarrow> Inl (DecodeNotU64 instruction_binary)
           | Inr w \<Rightarrow>
               rbind (ok_or (DecodeNoOpcode instruction_binary) (match_opcode w)) (\<lambda>opc.
               let is_op1_imm = (w AND push_bit BIT_SHIFT_OP1_IMM 1 \<noteq> 0);
                   instruction_length = (if is_op1_imm \<or> opc = MLOAD \<or> opc = MSTORE then 2 else 1)
               in if length binary_code \<noteq> instruction_length
                  then Inl (DecodeWrongLength instruction_length (length binary_code) instruction_binary)
                  else rbind
                    (if instruction_length = 2
                     then rbind (imm_from_str (binary_code ! 1)) (\<lambda>v. Inr (Some v))
                     else Inr None)
                    (\<lambda>immediate_value.
                       if opc = MSTORE \<or> opc = MLOAD
                       then decode_mem_inst opc w is_op1_imm immediate_value proph
                       else decode_plain_inst opc w is_op1_imm immediate_value proph))))"

subsection \<open>Programs\<close>

definition from_instructions ::
    "BinaryInstruction list \<Rightarrow> (u64 \<rightharpoonup> string) option \<Rightarrow> bool \<Rightarrow> codec_message + BinaryProgram" where
  "from_instructions instructions dbg debug_flag =
     rbind (traverse encode instructions) (\<lambda>lines.
       Inr \<lparr>bytecode = join_nl (concat lines),
            prophets = List.map_filter prophet instructions,
            debug_info = (if debug_flag then dbg else None)\<rparr>)"

definition bytecode_u64s :: "BinaryProgram \<Rightarrow> u64 list result" where
  "bytecode_u64s p =
     traverse
       (\<lambda>c. case u64_from_str_radix 16 (trim_start_0x c) of
              Inr x \<Rightarrow> Inr x
            | Inl e \<Rightarrow> Inl (Anyhow (BytecodeU64Error e)))
       (split_nl (bytecode p))"

definition get_instruction_length :: "string \<Rightarrow> codec_message + nat" where
  "get_instruction_length line =
     (case u64_from_str_radix 16 (trim_start_0x line) of
        Inl e \<Rightarrow> Inl (ConvertStrToU64Failed e)
      | Inr w \<Rightarrow>
          if w AND push_bit BIT_SHIFT_OP1_IMM 1 \<noteq> 0
            \<or> w AND binary_bit_mask MSTORE \<noteq> 0 \<or> w AND binary_bit_mask MLOAD \<noteq> 0
          then Inr 2 else Inr 1)"

text \<open>The grouping loop; \<open>cached\<close> is \<open>cached_first_instruction\<close>, empty or one line long.\<close>

fun group_lines :: "string list \<Rightarrow> string list \<Rightarrow> codec_message + string list list" where
  "group_lines cached [] = Inr []"
| "group_lines cached (line # lines) =
     (if cached \<noteq> [] then rbind (group_lines [] lines) (\<lambda>gs. Inr ((cached @ [line]) # gs))
      else rbind (get_instruction_length line) (\<lambda>len.
        if len = 1 then rbind (group_lines [] lines) (\<lambda>gs. Inr ([line] # gs))
        else group_lines (cached @ [line]) lines))"

definition prophet_insert :: "(u64 \<rightharpoonup> OlaProphet) \<Rightarrow> OlaProphet \<Rightarrow> (u64 \<rightharpoonup> OlaProphet)" where
  "prophet_insert m p = m(host p \<mapsto> p)"

definition prophet_table :: "OlaProphet list \<Rightarrow> u64 \<rightharpoonup> OlaProphet" where
  "prophet_table ps = foldl prophet_insert Map.empty ps"

fun decode_groups ::
    "(u64 \<rightharpoonup> OlaProphet) \<Rightarrow> u64 \<Rightarrow> string list list \<Rightarrow> codec_message + BinaryInstruction list" where
  "decode_groups table pos [] = Inr []"
| "decode_groups table pos (g # gs) =
     rbind (decode g (table pos)) (\<lambda>i.
     rbind (decode_groups table (pos + of_nat (binary_length i)) gs) (\<lambda>is. Inr (i # is)))"

definition decode_binary_program_to_instructions ::
    "BinaryProgram \<Rightarrow> codec_message + BinaryInstruction list" where
  "decode_binary_program_to_instructions program =
     rbind (group_lines [] (str_lines (bytecode program)))
       (decode_groups (prophet_table (prophets program)) 0)"


subsection \<open>Well-formed instructions\<close>

fun reg_or_none :: "OlaOperand option \<Rightarrow> bool" where
  "reg_or_none None = True"
| "reg_or_none (Some (RegisterOperand _)) = True"
| "reg_or_none _ = False"

fun wf_mem_op1 :: "OlaOperand option \<Rightarrow> bool" where
  "wf_mem_op1 (Some (ImmediateOperand v)) = wf_imm v"
| "wf_mem_op1 (Some (RegisterWithFactor _ v)) = wf_imm v"
| "wf_mem_op1 _ = False"

fun wf_plain_op1 :: "OlaOpcode \<Rightarrow> OlaOperand option \<Rightarrow> bool" where
  "wf_plain_op1 opc None = (opc \<noteq> MOV)"
| "wf_plain_op1 opc (Some (RegisterOperand _)) = True"
| "wf_plain_op1 opc (Some (ImmediateOperand v)) = wf_imm v"
| "wf_plain_op1 opc (Some (SpecialReg r)) = (opc = MOV \<and> r = PSP)"
| "wf_plain_op1 opc _ = False"

definition wf_inst :: "BinaryInstruction \<Rightarrow> bool" where
  "wf_inst i \<longleftrightarrow>
     reg_or_none (op0 i) \<and> reg_or_none (dst i) \<and>
     (if opcode i = MLOAD \<or> opcode i = MSTORE
      then op0 i \<noteq> None \<and> dst i \<noteq> None \<and> wf_mem_op1 (op1 i)
      else wf_plain_op1 (opcode i) (op1 i))"

subsection \<open>The instruction word\<close>

definition opt_bit :: "('r \<Rightarrow> nat) \<Rightarrow> 'r option \<Rightarrow> u64" where
  "opt_bit f x = (case x of Some r \<Rightarrow> push_bit (f r) 1 | None \<Rightarrow> 0)"

definition inst_word ::
    "OlaOpcode \<Rightarrow> OlaRegister option \<Rightarrow> OlaRegister option \<Rightarrow> OlaRegister option \<Rightarrow> bool \<Rightarrow> u64" where
  "inst_word opc r0 r1 rd is_imm =
     (let w2 = opt_bit binary_bit_shift_as_op0 r0 OR opt_bit binary_bit_shift_as_op1 r1
                 OR opt_bit binary_bit_shift_as_dst rd;
          w3 = (if is_imm then w2 OR push_bit BIT_SHIFT_OP1_IMM 1 else w2)
      in w3 OR binary_bit_mask opc)"

lemma and_push_bit_1:
  "n < 64 \<Longrightarrow> (w :: u64) AND push_bit n 1 \<noteq> 0 \<longleftrightarrow> bit w n"
  by (simp add: and_exp_eq_0_iff_not_bit)

lemma bit_push_bit_1: "bit (push_bit k 1 :: u64) n \<longleftrightarrow> n = k \<and> k < 64"
  by (auto simp: bit_exp_iff)

lemma bit_opt_bit: "bit (opt_bit f x) n \<longleftrightarrow> (\<exists>r. x = Some r \<and> n = f r \<and> f r < 64)"
  by (cases x) (auto simp: opt_bit_def bit_push_bit_1 simp del: push_bit_of_1)

lemma reg_index_less_10: "reg_index r < 10"
  using reg_index_less [of r] by (simp add: NUM_GENERAL_PURPOSE_REGISTER_def)

lemma bit_inst_word:
  "bit (inst_word opc r0 r1 rd is_imm) n \<longleftrightarrow>
     (\<exists>r. r0 = Some r \<and> n = 52 + reg_index r) \<or> (\<exists>r. r1 = Some r \<and> n = 42 + reg_index r) \<or>
     (\<exists>r. rd = Some r \<and> n = 32 + reg_index r) \<or> is_imm \<and> n = 62 \<or> n = binary_bit_shift opc"
proof -
  have l: "52 + reg_index r < 64" "42 + reg_index r < 64" "32 + reg_index r < 64" for r
    using reg_index_less_10 [of r] by simp_all
  have o: "binary_bit_shift opc < 64"
    using binary_bit_shift_range [of opc] by simp
  show ?thesis
    by (auto simp: inst_word_def Let_def bit_or_iff bit_opt_bit bit_push_bit_1 binary_bit_mask_def
        reg_shifts BIT_SHIFT_OP1_IMM_def l o simp del: push_bit_of_1)
qed

lemma find_option:
  assumes "\<And>r. P r \<longleftrightarrow> x = Some r" and "\<And>r. r \<in> set xs"
  shows "find P xs = x"
proof (cases x)
  case None
  then show ?thesis using assms(1) by (simp add: find_None_iff)
next
  case (Some r)
  then show ?thesis using assms by (auto intro!: find_unique)
qed

lemma match_reg_inst_word:
  "match_reg binary_bit_mask_as_op0 (inst_word opc r0 r1 rd b) = r0"
  "match_reg binary_bit_mask_as_op1 (inst_word opc r0 r1 rd b) = r1"
  "match_reg binary_bit_mask_as_dst (inst_word opc r0 r1 rd b) = rd"
proof -
  have r: "reg_index r < 10" for r by (rule reg_index_less_10)
  have o: "binary_bit_shift opc \<le> 31" using binary_bit_shift_range by blast
  have ne: "52 + reg_index a \<noteq> 42 + reg_index b" "52 + reg_index a \<noteq> 32 + reg_index b"
      "42 + reg_index a \<noteq> 32 + reg_index b" "52 + reg_index a \<noteq> 62" "42 + reg_index a \<noteq> 62"
      "32 + reg_index a \<noteq> 62" "52 + reg_index a \<noteq> binary_bit_shift opc"
      "42 + reg_index a \<noteq> binary_bit_shift opc" "32 + reg_index a \<noteq> binary_bit_shift opc"
      "42 + reg_index a \<noteq> 52 + reg_index b" "32 + reg_index a \<noteq> 52 + reg_index b"
      "32 + reg_index a \<noteq> 42 + reg_index b" for a b
    using r [of a] r [of b] o by linarith+
  have l: "52 + reg_index r < 64" "42 + reg_index r < 64" "32 + reg_index r < 64" for r
    using reg_index_less_10 [of r] by simp_all
  note defs = match_reg_def binary_bit_mask_as_op0_def binary_bit_mask_as_op1_def
    binary_bit_mask_as_dst_def reg_shifts
  show "match_reg binary_bit_mask_as_op0 (inst_word opc r0 r1 rd b) = r0"
    unfolding defs by (rule find_option)
      (simp_all only: and_push_bit_1 [OF l(1)] bit_inst_word ne add_left_cancel reg_index_inject
        all_registers_complete, auto)
  show "match_reg binary_bit_mask_as_op1 (inst_word opc r0 r1 rd b) = r1"
    unfolding defs by (rule find_option)
      (simp_all only: and_push_bit_1 [OF l(2)] bit_inst_word ne add_left_cancel reg_index_inject
        all_registers_complete, auto)
  show "match_reg binary_bit_mask_as_dst (inst_word opc r0 r1 rd b) = rd"
    unfolding defs by (rule find_option)
      (simp_all only: and_push_bit_1 [OF l(3)] bit_inst_word ne add_left_cancel reg_index_inject
        all_registers_complete, auto)
qed

lemma inst_word_opcode_bit:
  "inst_word opc r0 r1 rd b AND binary_bit_mask op' \<noteq> 0 \<longleftrightarrow> op' = opc"
proof -
  have o: "binary_bit_shift op' \<le> 31" using binary_bit_shift_range by blast
  then have "binary_bit_shift op' < 64" "binary_bit_shift op' \<noteq> 62"
      "\<And>r. binary_bit_shift op' \<noteq> 52 + reg_index r" "\<And>r. binary_bit_shift op' \<noteq> 42 + reg_index r"
      "\<And>r. binary_bit_shift op' \<noteq> 32 + reg_index r"
    by auto
  then show ?thesis
    unfolding binary_bit_mask_def
    by (simp only: and_push_bit_1 bit_inst_word binary_bit_shift_inject simp_thms)
qed

lemma match_opcode_inst_word: "match_opcode (inst_word opc r0 r1 rd b) = Some opc"
  unfolding match_opcode_def by (rule find_option) (auto simp: inst_word_opcode_bit)

lemma inst_word_imm_bit: "inst_word opc r0 r1 rd b AND push_bit BIT_SHIFT_OP1_IMM 1 \<noteq> 0 \<longleftrightarrow> b"
proof -
  have "52 + reg_index r \<noteq> 62" "42 + reg_index r \<noteq> 62" "32 + reg_index r \<noteq> 62" for r
    using reg_index_less_10 [of r] by linarith+
  moreover have "binary_bit_shift opc \<noteq> 62" using binary_bit_shift_range [of opc] by linarith
  ultimately show ?thesis
    unfolding BIT_SHIFT_OP1_IMM_def by (subst and_push_bit_1) (auto simp: bit_inst_word)
qed


subsection \<open>Instruction round trip\<close>

fun reg_of :: "OlaOperand option \<Rightarrow> OlaRegister option" where
  "reg_of (Some (RegisterOperand r)) = Some r"
| "reg_of (Some (RegisterWithFactor r _)) = Some r"
| "reg_of _ = None"

fun imm_of :: "OlaOperand option \<Rightarrow> ImmediateValue option" where
  "imm_of (Some (ImmediateOperand v)) = Some v"
| "imm_of (Some (RegisterWithFactor _ v)) = Some v"
| "imm_of _ = None"

fun is_imm_operand :: "OlaOperand option \<Rightarrow> bool" where
  "is_imm_operand (Some (ImmediateOperand v)) = True"
| "is_imm_operand _ = False"

definition wf_word :: "BinaryInstruction \<Rightarrow> u64" where
  "wf_word i = inst_word (opcode i) (reg_of (op0 i)) (reg_of (op1 i)) (reg_of (dst i)) (is_imm_operand (op1 i))"

lemma reg_or_noneE:
  assumes "reg_or_none x"
  obtains "x = None" | r where "x = Some (RegisterOperand r)"
  using assms by (cases x rule: reg_or_none.cases) auto

lemma wf_op1E:
  assumes "wf_inst i"
  obtains "op1 i = None" "opcode i \<noteq> MOV" "opcode i \<noteq> MLOAD" "opcode i \<noteq> MSTORE"
  | r where "op1 i = Some (RegisterOperand r)" "opcode i \<noteq> MLOAD" "opcode i \<noteq> MSTORE"
  | v where "op1 i = Some (ImmediateOperand v)" "wf_imm v"
  | r v where "op1 i = Some (RegisterWithFactor r v)" "wf_imm v" "opcode i = MLOAD \<or> opcode i = MSTORE"
  | "op1 i = Some (SpecialReg PSP)" "opcode i = MOV"
proof (cases "opcode i = MLOAD \<or> opcode i = MSTORE")
  case True
  with assms have "wf_mem_op1 (op1 i)" by (auto simp: wf_inst_def)
  with True that(3,4) show ?thesis by (cases "op1 i" rule: wf_mem_op1.cases) auto
next
  case False
  with assms have "wf_plain_op1 (opcode i) (op1 i)" by (auto simp: wf_inst_def)
  with False that(1,2,3,5) show ?thesis
    by (cases "(opcode i, op1 i)" rule: wf_plain_op1.cases) auto
qed

lemma encode_wf:
  assumes "wf_inst i"
  shows "encode i = Inr (format_hex_pad16 (wf_word i) # map hex (case imm_of (op1 i) of Some v \<Rightarrow> [v] | None \<Rightarrow> []))"
proof -
  have e0: "encode_op0 i 0 None = Inr (opt_bit binary_bit_shift_as_op0 (reg_of (op0 i)), None)"
    using assms unfolding wf_inst_def
    by (auto elim!: reg_or_noneE simp: encode_op0_def opt_bit_def binary_bit_mask_as_op0_def)
  have ed: "encode_dst i w v = Inr (w OR opt_bit binary_bit_shift_as_dst (reg_of (dst i)), v)" for w v
    using assms unfolding wf_inst_def
    by (auto elim!: reg_or_noneE simp: encode_dst_def opt_bit_def binary_bit_mask_as_dst_def)
  have e1: "encode_op1 i w None =
      Inr (w OR opt_bit binary_bit_shift_as_op1 (reg_of (op1 i)), imm_of (op1 i), is_imm_operand (op1 i))" for w
    by (rule wf_op1E [OF assms])
      (simp_all add: encode_op1_def opt_bit_def binary_bit_mask_as_op1_def)
  show ?thesis
    by (simp add: encode_def e0 e1 ed wf_word_def inst_word_def Let_def or.assoc split: option.splits)
qed

lemma wf_length_cond:
  assumes "wf_inst i"
  shows "(is_imm_operand (op1 i) \<or> opcode i = MLOAD \<or> opcode i = MSTORE) \<longleftrightarrow> imm_of (op1 i) \<noteq> None"
    and "binary_length i = (if imm_of (op1 i) \<noteq> None then 2 else 1)"
  by (rule wf_op1E [OF assms]; auto simp: binary_length_def)+

lemma decode_wf_word:
  assumes "wf_inst i" "imm_of (op1 i) = None \<longrightarrow> rest = []"
    "\<And>v. imm_of (op1 i) = Some v \<Longrightarrow> rest = [hex v]"
  shows "decode (format_hex_pad16 (wf_word i) # rest) (prophet i) = Inr i"
proof -
  have r0: "reg_or_none (op0 i)" and rd: "reg_or_none (dst i)"
    using assms(1) by (auto simp: wf_inst_def)
  have some: "op0 i \<noteq> None" "dst i \<noteq> None" if "opcode i = MLOAD \<or> opcode i = MSTORE"
    using that assms(1) by (auto simp: wf_inst_def)
  note decode_simps = decode_def parse_format_hex_pad16 wf_word_def match_opcode_inst_word
    inst_word_imm_bit match_reg_inst_word imm_from_str_wf decode_mem_inst_def decode_plain_inst_def
  show ?thesis
    by (rule wf_op1E [OF assms(1)]; rule reg_or_noneE [OF r0]; rule reg_or_noneE [OF rd];
        use assms(2,3) some in \<open>cases i; force simp: decode_simps simp del: push_bit_of_1\<close>)
qed

lemma decode_encode:
  assumes "wf_inst i"
  shows "\<exists>codes. encode i = Inr codes \<and> length codes = binary_length i \<and> decode codes (prophet i) = Inr i"
proof -
  let ?rest = "map hex (case imm_of (op1 i) of Some v \<Rightarrow> [v] | None \<Rightarrow> [])"
  have "decode (format_hex_pad16 (wf_word i) # ?rest) (prophet i) = Inr i"
    using assms by (intro decode_wf_word) (auto split: option.splits)
  moreover have "length ?rest + 1 = binary_length i"
    using wf_length_cond(2) [OF assms] by (auto split: option.splits)
  ultimately show ?thesis
    using encode_wf [OF assms] by auto
qed


subsection \<open>Decoded instructions are well-formed\<close>

lemma imm_from_str_hex_wf: "imm_from_str s = Inr v \<Longrightarrow> starts_with_0x s \<Longrightarrow> wf_imm v"
  by (auto simp: imm_from_str_def wf_imm_iff not_le split: sum.splits if_splits)

lemma reg_or_none_map [simp]: "reg_or_none (map_option RegisterOperand x)"
  by (cases x) simp_all

lemma decode_mem_inst_wf:
  assumes "decode_mem_inst opc w b im p = Inr i" "\<And>v. im = Some v \<Longrightarrow> wf_imm v" "opc = MLOAD \<or> opc = MSTORE"
  shows "wf_inst i \<and> prophet i = p"
  using assms by (auto simp: decode_mem_inst_def wf_inst_def rbind_Inr_iff ok_or_Inr_iff split: if_splits)

lemma decode_plain_inst_wf:
  assumes "decode_plain_inst opc w b im p = Inr i" "\<And>v. im = Some v \<Longrightarrow> wf_imm v" "opc \<noteq> MLOAD" "opc \<noteq> MSTORE"
  shows "wf_inst i \<and> prophet i = p"
  using assms
  by (auto simp: decode_plain_inst_def wf_inst_def rbind_Inr_iff ok_or_Inr_iff split: if_splits option.splits)

text \<open>The one decimal literal the parser of immediates accepts without reducing it to a canonical value.\<close>

definition i128_min_literal :: "string \<Rightarrow> bool" where
  "i128_min_literal s \<longleftrightarrow> \<not> starts_with_0x s \<and> i128_from_str_radix 10 s = Inr (- (2 ^ 127))"

lemma imm_from_str_cases:
  assumes "imm_from_str s = Inr v"
  shows "if i128_min_literal s then v = \<lparr>hex = format_hex ORDER\<rparr> else wf_imm v"
proof (cases "starts_with_0x s")
  case True
  then show ?thesis using assms imm_from_str_hex_wf by (simp add: i128_min_literal_def)
next
  case False
  obtain x where x: "i128_from_str_radix 10 s = Inr x"
    using assms False by (cases "i128_from_str_radix 10 s") (simp_all add: imm_from_str_def)
  show ?thesis
  proof (cases "x = - (2 ^ 127)")
    case True
    then show ?thesis using False x assms imm_from_str_i128_min [OF False] by (simp add: i128_min_literal_def)
  next
    case min: False
    then have r: "- gf_p < x" "x < gf_p" using imm_from_str_overflow [OF False x min] assms by auto
    have "uint (word_of_int (x mod gf_p) :: u64) = x mod gf_p" by (simp add: uint_word_of_int gf_p_def)
    then have "(word_of_int (x mod gf_p) :: u64) < ORDER" by (simp add: word_less_def)
    then show ?thesis
      using imm_from_str_decimal [OF False x r] assms x min by (auto simp: i128_min_literal_def wf_imm_iff)
  qed
qed

lemma decode_line_cases:
  assumes "decode codes p = Inr i"
  obtains w b opc im where
    "if length codes = 2 then \<exists>v. im = Some v \<and> imm_from_str (codes ! 1) = Inr v else im = None"
    "(opc = MLOAD \<or> opc = MSTORE) \<and> decode_mem_inst opc w b im p = Inr i \<or>
     opc \<noteq> MLOAD \<and> opc \<noteq> MSTORE \<and> decode_plain_inst opc w b im p = Inr i \<and> (b \<longleftrightarrow> length codes = 2)"
proof (cases codes)
  case (Cons c cs)
  with assms obtain w opc where w: "u64_from_str_radix 16 (trim_start_0x c) = Inr w" "match_opcode w = Some opc"
    by (auto simp: decode_def rbind_Inr_iff ok_or_Inr_iff split: sum.splits)
  define b where "b = (w AND push_bit BIT_SHIFT_OP1_IMM 1 \<noteq> 0)"
  define n :: nat where "n = (if b \<or> opc = MLOAD \<or> opc = MSTORE then 2 else 1)"
  have d: "decode codes p = (if length codes \<noteq> n then Inl (DecodeWrongLength n (length codes) c)
      else rbind (if n = 2 then rbind (imm_from_str (codes ! 1)) (\<lambda>v. Inr (Some v)) else Inr None)
        (\<lambda>im. if opc = MSTORE \<or> opc = MLOAD then decode_mem_inst opc w b im p else decode_plain_inst opc w b im p))"
    unfolding decode_def Cons list.case w(1) sum.case w(2) b_def [symmetric] n_def Let_def
    by (simp add: ok_or_def del: push_bit_of_1)
  have n: "n = length codes" using assms unfolding d by (auto split: if_splits)
  then obtain im where im: "(if n = 2 then rbind (imm_from_str (codes ! 1)) (\<lambda>v. Inr (Some v)) else Inr None) = Inr im"
      "(if opc = MSTORE \<or> opc = MLOAD then decode_mem_inst opc w b im p else decode_plain_inst opc w b im p) = Inr i"
    using assms unfolding d by (auto simp: rbind_Inr_iff)
  have "if length codes = 2 then \<exists>v. im = Some v \<and> imm_from_str (codes ! 1) = Inr v else im = None"
    using im(1) n by (auto simp: rbind_Inr_iff split: if_splits)
  moreover have "(opc = MLOAD \<or> opc = MSTORE) \<and> decode_mem_inst opc w b im p = Inr i \<or>
     opc \<noteq> MLOAD \<and> opc \<noteq> MSTORE \<and> decode_plain_inst opc w b im p = Inr i \<and> (b \<longleftrightarrow> length codes = 2)"
    using im(2) n by (auto simp: n_def split: if_splits)
  ultimately show ?thesis by (rule that)
qed (use assms in \<open>simp add: decode_def\<close>)

lemma decode_imm_of:
  "decode_mem_inst opc w b (Some v) p = Inr i \<Longrightarrow> imm_of (op1 i) = Some v"
  "decode_plain_inst opc w True (Some v) p = Inr i \<Longrightarrow> imm_of (op1 i) = Some v"
  by (auto simp: decode_mem_inst_def decode_plain_inst_def rbind_Inr_iff ok_or_Inr_iff split: if_splits)

lemma decode_prophet:
  "decode_mem_inst opc w b im p = Inr i \<Longrightarrow> prophet i = p"
  "decode_plain_inst opc w b im p = Inr i \<Longrightarrow> prophet i = p"
  by (auto simp: decode_mem_inst_def decode_plain_inst_def rbind_Inr_iff)

lemma not_wf_ORDER: "\<not> wf_imm \<lparr>hex = format_hex ORDER\<rparr>"
  by (simp add: wf_imm_def)

lemma decode_outcome:
  assumes "decode codes p = Inr i"
  shows "prophet i = p"
    "if length codes = 2 \<and> i128_min_literal (codes ! 1) then imm_of (op1 i) = Some \<lparr>hex = format_hex ORDER\<rparr> else wf_inst i"
proof -
  obtain w b opc im where im: "if length codes = 2 then \<exists>v. im = Some v \<and> imm_from_str (codes ! 1) = Inr v else im = None"
    and d: "(opc = MLOAD \<or> opc = MSTORE) \<and> decode_mem_inst opc w b im p = Inr i \<or>
     opc \<noteq> MLOAD \<and> opc \<noteq> MSTORE \<and> decode_plain_inst opc w b im p = Inr i \<and> (b \<longleftrightarrow> length codes = 2)"
    using assms by (rule decode_line_cases)
  show "prophet i = p" using d decode_prophet by blast
  show "if length codes = 2 \<and> i128_min_literal (codes ! 1) then imm_of (op1 i) = Some \<lparr>hex = format_hex ORDER\<rparr> else wf_inst i"
  proof (cases "length codes = 2 \<and> i128_min_literal (codes ! 1)")
    case True
    then have "im = Some \<lparr>hex = format_hex ORDER\<rparr>" using im imm_from_str_cases by fastforce
    then show ?thesis using True d decode_imm_of by auto
  next
    case False
    then have "wf_imm v" if "im = Some v" for v
      using im imm_from_str_cases that by (fastforce split: if_splits)
    then show ?thesis using False d decode_mem_inst_wf decode_plain_inst_wf by auto
  qed
qed

subsection \<open>Program round trip\<close>

definition inst_lines :: "BinaryInstruction \<Rightarrow> string list" where
  "inst_lines i =
     format_hex_pad16 (wf_word i) # map hex (case imm_of (op1 i) of Some v \<Rightarrow> [v] | None \<Rightarrow> [])"

lemma encode_inst_lines: "wf_inst i \<Longrightarrow> encode i = Inr (inst_lines i)"
  by (simp add: encode_wf inst_lines_def)

lemma decode_inst_lines: "wf_inst i \<Longrightarrow> decode (inst_lines i) (prophet i) = Inr i"
  using decode_encode encode_inst_lines by fastforce

lemma length_inst_lines: "wf_inst i \<Longrightarrow> length (inst_lines i) = binary_length i"
  using decode_encode encode_inst_lines by fastforce

lemma get_instruction_length_wf:
  assumes "wf_inst i"
  shows "get_instruction_length (format_hex_pad16 (wf_word i)) = Inr (binary_length i)"
  using wf_length_cond [OF assms]
  by (auto simp: get_instruction_length_def parse_format_hex_pad16 wf_word_def inst_word_imm_bit
      inst_word_opcode_bit simp del: push_bit_of_1)

lemma group_lines_inst:
  assumes "wf_inst i"
  shows "group_lines [] (inst_lines i @ ls) = rbind (group_lines [] ls) (\<lambda>gs. Inr (inst_lines i # gs))"
  using get_instruction_length_wf [OF assms] wf_length_cond(2) [OF assms]
  by (auto simp: inst_lines_def split: option.splits if_splits)

lemma group_lines_insts:
  "list_all wf_inst is \<Longrightarrow> group_lines [] (concat (map inst_lines is)) = Inr (map inst_lines is)"
  by (induction "is") (simp_all add: group_lines_inst)

lemma plain_hex_line: "plain_digits s \<Longrightarrow> l = ''0x'' @ s \<Longrightarrow> l \<noteq> [] \<and> nl \<notin> set l \<and> cr \<notin> set l"
  by (auto simp: plain_digits_def)

lemma inst_lines_clean:
  assumes "wf_inst i" "l \<in> set (inst_lines i)"
  shows "l \<noteq> [] \<and> nl \<notin> set l \<and> cr \<notin> set l"
proof -
  have imm: "wf_imm v" if "imm_of (op1 i) = Some v" for v
    using that by (rule_tac wf_op1E [OF assms(1)]) auto
  have hex: "\<exists>s. plain_digits s \<and> format_hex x = ''0x'' @ s" for x
    using plain_show_radix [of 16 "unat x"] by (auto simp: format_hex_def)
  have pad: "\<exists>s. plain_digits s \<and> format_hex_pad16 x = ''0x'' @ s" for x
    using plain_pad [OF plain_show_radix [of 16 "unat x"]] by (auto simp: format_hex_pad16_def Let_def)
  have "\<exists>x. l = format_hex x \<or> l = format_hex_pad16 x"
    using assms(2) imm by (cases "imm_of (op1 i)") (auto simp: inst_lines_def wf_imm_iff)
  with hex pad plain_hex_line show ?thesis by metis
qed

fun hosted :: "u64 \<Rightarrow> BinaryInstruction list \<Rightarrow> bool" where
  "hosted pos [] = True"
| "hosted pos (i # is) =
     ((case prophet i of Some p \<Rightarrow> host p = pos | None \<Rightarrow> True) \<and> hosted (pos + of_nat (binary_length i)) is)"

fun covers :: "(u64 \<rightharpoonup> OlaProphet) \<Rightarrow> u64 \<Rightarrow> BinaryInstruction list \<Rightarrow> bool" where
  "covers tab pos [] = True"
| "covers tab pos (i # is) = (tab pos = prophet i \<and> covers tab (pos + of_nat (binary_length i)) is)"

definition program_length :: "BinaryInstruction list \<Rightarrow> nat" where
  "program_length is = sum_list (map binary_length is)"

lemma binary_length_range: "1 \<le> binary_length i \<and> binary_length i \<le> 2"
  by (auto simp: binary_length_def split: option.splits OlaOperand.splits)

lemma unat_add_small:
  "unat (pos :: u64) + n < 2 ^ 64 \<Longrightarrow> unat (pos + of_nat n) = unat pos + n"
  by (simp add: unat_word_ariths unat_of_nat)

lemma prophet_insert_apply: "prophet_insert m p a = (if a = host p then Some p else m a)"
  by (simp add: prophet_insert_def)

lemma prophet_table_low:
  "hosted pos is \<Longrightarrow> unat pos + program_length is < 2 ^ 64 \<Longrightarrow> unat a < unat pos \<Longrightarrow>
    foldl prophet_insert m (List.map_filter prophet is) a = m a"
proof (induction "is" arbitrary: pos m)
  case (Cons i "is")
  let ?n = "binary_length i"
  have u: "unat (pos + of_nat ?n) = unat pos + ?n"
    using Cons.prems(2) by (intro unat_add_small) (simp add: program_length_def)
  have "foldl prophet_insert m' (List.map_filter prophet is) a = m' a" for m'
    using Cons.prems u by (intro Cons.IH [of "pos + of_nat ?n"]) (auto simp: program_length_def)
  then show ?case
    using Cons.prems(1,3)
    by (auto simp: List.map_filter_simps prophet_insert_apply [of _ _ a] split: option.splits)
qed (simp add: List.map_filter_simps)

lemma prophet_table_covers:
  "hosted pos is \<Longrightarrow> unat pos + program_length is < 2 ^ 64 \<Longrightarrow> (\<And>a. unat pos \<le> unat a \<Longrightarrow> m a = None) \<Longrightarrow>
    covers (foldl prophet_insert m (List.map_filter prophet is)) pos is"
proof (induction "is" arbitrary: pos m)
  case (Cons i "is")
  let ?n = "binary_length i" and ?m = "case prophet i of Some p \<Rightarrow> prophet_insert m p | None \<Rightarrow> m"
  let ?t = "foldl prophet_insert ?m (List.map_filter prophet is)"
  have u: "unat (pos + of_nat ?n) = unat pos + ?n"
    using Cons.prems(2) by (intro unat_add_small) (simp add: program_length_def)
  have n: "1 \<le> ?n" using binary_length_range by blast
  have t: "foldl prophet_insert m (List.map_filter prophet (i # is)) = ?t"
    by (auto simp: List.map_filter_simps split: option.splits)
  have "covers ?t (pos + of_nat ?n) is"
    using Cons.prems u n by (intro Cons.IH) (auto simp: program_length_def prophet_insert_apply split: option.splits)
  moreover have "?t pos = ?m pos"
    using Cons.prems u n by (intro prophet_table_low [of "pos + of_nat ?n"]) (auto simp: program_length_def)
  ultimately show ?case
    using Cons.prems(3) [of pos] Cons.prems(1) unfolding t
    by (auto simp: prophet_insert_apply [of _ _ pos] split: option.splits)
qed simp

lemma decode_groups_covers:
  "list_all wf_inst is \<Longrightarrow> covers tab pos is \<Longrightarrow> decode_groups tab pos (map inst_lines is) = Inr is"
  by (induction "is" arbitrary: pos) (simp_all add: decode_inst_lines)

lemma program_roundtrip:
  assumes "list_all wf_inst is" "hosted 0 is" "program_length is < 2 ^ 64"
  shows "\<exists>p. from_instructions is dbg flag = Inr p \<and> decode_binary_program_to_instructions p = Inr is"
proof -
  have enc: "traverse encode is = Inr (map inst_lines is)"
    using assms(1) by (auto simp: traverse_Inr_iff list_all_length encode_inst_lines)
  have lines: "str_lines (join_nl (concat (map inst_lines is))) = concat (map inst_lines is)"
    using assms(1) inst_lines_clean by (intro lines_join_nl) (auto simp: list_all_iff)
  have "covers (prophet_table (List.map_filter prophet is)) 0 is"
    unfolding prophet_table_def using assms by (intro prophet_table_covers) auto
  with assms(1) have "decode_groups (prophet_table (List.map_filter prophet is)) 0 (map inst_lines is) = Inr is"
    by (intro decode_groups_covers)
  then show ?thesis
    by (simp add: from_instructions_def enc decode_binary_program_to_instructions_def lines
        group_lines_insts [OF assms(1)])
qed

subsection \<open>Instruction words and bytecode\<close>

lemma imm_of_wf: "wf_inst i \<Longrightarrow> imm_of (op1 i) = Some v \<Longrightarrow> wf_imm v"
  by (erule wf_op1E) auto

lemma get_inst_imm_u64_wf:
  assumes "wf_inst i"
  shows "get_inst_imm_u64 i =
    Inr (wf_word i, case imm_of (op1 i) of Some v \<Rightarrow> (case imm_to_u64 v of Inr x \<Rightarrow> Some x | Inl _ \<Rightarrow> None) | None \<Rightarrow> None)"
  using imm_of_wf [OF assms]
  by (auto simp: get_inst_imm_u64_def encode_wf [OF assms] parse_u64_from_string_def parse_format_hex_pad16
      parse_format_hex wf_imm_iff split: option.split)

lemma inst_lines_parse:
  assumes "wf_inst i" "l \<in> set (inst_lines i)"
  shows "\<exists>x. u64_from_str_radix 16 (trim_start_0x l) = Inr x"
  using assms imm_of_wf [OF assms(1)]
  by (cases "imm_of (op1 i)")
    (auto simp: inst_lines_def wf_imm_iff parse_format_hex parse_format_hex_pad16)

lemma traverse_total:
  "(\<And>x. x \<in> set xs \<Longrightarrow> \<exists>y. f x = Inr y) \<Longrightarrow> \<exists>ys. traverse f xs = Inr ys \<and> length ys = length xs"
  by (induction xs) force+

lemma length_concat_inst_lines:
  "list_all wf_inst is \<Longrightarrow> length (concat (map inst_lines is)) = program_length is"
  by (induction "is") (simp_all add: program_length_def length_inst_lines)

lemma bytecode_u64s_encoded:
  assumes "list_all wf_inst is" "is \<noteq> []" "bytecode p = join_nl (concat (map inst_lines is))"
  shows "\<exists>ws. bytecode_u64s p = Inr ws \<and> length ws = program_length is"
proof -
  let ?ls = "concat (map inst_lines is)"
  have clean: "\<And>l. l \<in> set ?ls \<Longrightarrow> nl \<notin> set l"
    using assms(1) inst_lines_clean by (auto simp: list_all_iff)
  have "?ls \<noteq> []" using assms(2) by (cases "is") (auto simp: inst_lines_def)
  then have "split_nl (bytecode p) = ?ls" using clean unfolding assms(3) by (rule split_join_nl)
  moreover have "\<exists>ws. traverse (\<lambda>c. case u64_from_str_radix 16 (trim_start_0x c) of
        Inr x \<Rightarrow> Inr x | Inl e \<Rightarrow> Inl (Anyhow (BytecodeU64Error e))) ?ls = Inr ws \<and> length ws = length ?ls"
    using assms(1) inst_lines_parse by (intro traverse_total) (fastforce simp: list_all_iff)
  ultimately show ?thesis
    using length_concat_inst_lines [OF assms(1)] by (simp add: bytecode_u64s_def)
qed

lemma group_lines_truncated:
  assumes "list_all wf_inst is" "get_instruction_length l = Inr 2"
  shows "group_lines [] (concat (map inst_lines is) @ [l]) = Inr (map inst_lines is)"
  using assms(1) by (induction "is") (simp_all add: group_lines_inst assms(2))

definition mov_r1_1 :: BinaryInstruction where
  "mov_r1_1 = \<lparr>opcode = MOV, op0 = None, op1 = Some (ImmediateOperand \<lparr>hex = format_hex 1\<rparr>),
     dst = Some (RegisterOperand R1), prophet = None\<rparr>"

lemma wf_mov_r1_1 [simp]: "wf_inst mov_r1_1" "prophet mov_r1_1 = None" "binary_length mov_r1_1 = 2"
  by (auto simp: mov_r1_1_def wf_inst_def wf_imm_iff binary_length_def ORDER_def intro!: exI [of _ 1])

subsection \<open>Properties\<close>

text \<open>
  C13 Every well-formed instruction survives encoding and decoding: \<open>encode\<close> gives as many code lines
  as \<open>binary_length\<close> says, \<open>get_inst_imm_u64\<close> reads the instruction word and the immediate back from
  them, and \<open>decode\<close> returns the instruction.
\<close>

theorem instruction_roundtrip:
  assumes "wf_inst i"
  shows "\<exists>codes. encode i = Inr codes \<and> length codes = binary_length i \<and>
    decode codes (prophet i) = Inr i \<and> (\<exists>im. get_inst_imm_u64 i = Inr (wf_word i, im))"
  using decode_encode [OF assms] get_inst_imm_u64_wf [OF assms] by auto

theorem instruction_roundtrip_witness:
  "\<exists>codes. encode mov_r1_1 = Inr codes \<and> length codes = 2 \<and> decode codes None = Inr mov_r1_1"
  using instruction_roundtrip [of mov_r1_1] by auto

text \<open>
  C14 Whatever \<open>decode\<close> accepts has the prophet it was given, is a well-formed instruction, and encoding
  it again and decoding the result is the identity: decoding normalises. The exception is an immediate line
  with the decimal literal of \<open>i128::MIN\<close>: it is accepted too, but the instruction is not well-formed,
  its immediate being the non-canonical value \<open>ORDER\<close>.
\<close>

theorem decode_normalises:
  assumes "decode codes p = Inr i"
  shows "prophet i = p \<and>
    (if length codes = 2 \<and> i128_min_literal (codes ! 1)
     then \<not> wf_inst i \<and> imm_of (op1 i) = Some \<lparr>hex = format_hex ORDER\<rparr>
     else wf_inst i \<and> (\<exists>codes'. encode i = Inr codes' \<and> decode codes' p = Inr i))"
  using decode_outcome [OF assms] decode_encode [of i] not_wf_ORDER imm_of_wf [of i "\<lparr>hex = format_hex ORDER\<rparr>"]
  by (auto split: if_splits)

theorem decode_normalises_witness:
  "(\<exists>i. decode [''0x0000000000100000''] None = Inr i \<and> wf_inst i \<and> opcode i = END) \<and>
   (\<exists>i. decode [''4000000108000000'', ''-170141183460469231731687303715884105728''] None = Inr i \<and> \<not> wf_inst i)"
proof
  have "\<exists>i. decode [''0x0000000000100000''] None = Inr i \<and> opcode i = END"
    by (simp add: decode_def u64_from_str_radix_def to_digit_def match_opcode_def
        all_opcodes_def binary_bit_mask_def BIT_SHIFT_OP1_IMM_def decode_plain_inst_def match_reg_def
        all_registers_def binary_bit_mask_as_op0_def binary_bit_mask_as_op1_def binary_bit_mask_as_dst_def)
  then show "\<exists>i. decode [''0x0000000000100000''] None = Inr i \<and> wf_inst i \<and> opcode i = END"
    using decode_normalises [of "[''0x0000000000100000'']" None] by auto
  let ?c = "[''4000000108000000'', ''-170141183460469231731687303715884105728'']"
  have m: "i128_min_literal (?c ! 1)" by (simp add: i128_min_literal_def i128_from_str_radix_def to_digit_def)
  then have "imm_from_str (?c ! 1) = Inr \<lparr>hex = format_hex ORDER\<rparr>"
    by (intro imm_from_str_i128_min) (simp_all add: i128_min_literal_def)
  then have "\<exists>i. decode ?c None = Inr i"
    by (simp add: decode_def u64_from_str_radix_def to_digit_def match_opcode_def
        all_opcodes_def binary_bit_mask_def BIT_SHIFT_OP1_IMM_def decode_plain_inst_def match_reg_def
        all_registers_def binary_bit_mask_as_op0_def binary_bit_mask_as_op1_def binary_bit_mask_as_dst_def)
  then show "\<exists>i. decode ?c None = Inr i \<and> \<not> wf_inst i"
    using decode_normalises [of ?c None] m by auto
qed

text \<open>
  C12 A whole program survives assembly to bytecode text and loading: for well-formed instructions whose
  prophets are hosted at their own addresses, decoding the program built by \<open>from_instructions\<close> gives
  the instructions back, prophets included, and its bytecode parses to one word per code line.
\<close>

theorem binary_program_roundtrip:
  assumes "list_all wf_inst is" "is \<noteq> []" "hosted 0 is" "program_length is < 2 ^ 64"
  shows "\<exists>p ws. from_instructions is dbg flag = Inr p \<and> decode_binary_program_to_instructions p = Inr is \<and>
    bytecode_u64s p = Inr ws \<and> length ws = program_length is"
proof -
  obtain p where p: "from_instructions is dbg flag = Inr p" "decode_binary_program_to_instructions p = Inr is"
    using program_roundtrip [OF assms(1,3,4)] by blast
  have "traverse encode is = Inr (map inst_lines is)"
    using assms(1) by (auto simp: traverse_Inr_iff list_all_length encode_inst_lines)
  with p(1) have "bytecode p = join_nl (concat (map inst_lines is))" by (auto simp: from_instructions_def)
  from bytecode_u64s_encoded [OF assms(1,2) this] p show ?thesis by blast
qed

theorem binary_program_roundtrip_witness:
  "\<exists>p ws. from_instructions [mov_r1_1, mov_r1_1] None False = Inr p \<and>
     decode_binary_program_to_instructions p = Inr [mov_r1_1, mov_r1_1] \<and>
     bytecode_u64s p = Inr ws \<and> length ws = 4"
  using binary_program_roundtrip [of "[mov_r1_1, mov_r1_1]" None False] by (simp add: program_length_def)

text \<open>
  C15 A program cut off in the middle of a two-line instruction still loads: the pending first line is
  dropped without an error, and the program decodes to the instructions before it.
\<close>

theorem truncated_instruction_dropped:
  assumes "list_all wf_inst is" "list_all (\<lambda>i. prophet i = None) is" "wf_inst i" "binary_length i = 2"
  shows "decode_binary_program_to_instructions
    \<lparr>bytecode = join_nl (concat (map inst_lines is) @ [hd (inst_lines i)]), prophets = [], debug_info = None\<rparr>
    = Inr is"
proof -
  let ?ls = "concat (map inst_lines is) @ [hd (inst_lines i)]"
  have hd: "hd (inst_lines i) = format_hex_pad16 (wf_word i)" "hd (inst_lines i) \<in> set (inst_lines i)"
    by (simp_all add: inst_lines_def)
  have "l \<noteq> [] \<and> nl \<notin> set l \<and> cr \<notin> set l" if "l \<in> set ?ls" for l
    using that assms(1) inst_lines_clean inst_lines_clean [OF assms(3) hd(2)] by (auto simp: list_all_iff)
  then have "str_lines (join_nl ?ls) = ?ls" by (rule lines_join_nl)
  moreover have "group_lines [] ?ls = Inr (map inst_lines is)"
    using get_instruction_length_wf [OF assms(3)] assms(4) hd(1)
    by (intro group_lines_truncated [OF assms(1)]) simp
  moreover have "covers (prophet_table []) pos is" for pos
    using assms(2) by (induction "is" arbitrary: pos) (simp_all add: prophet_table_def)
  ultimately show ?thesis
    by (simp add: decode_binary_program_to_instructions_def decode_groups_covers [OF assms(1)])
qed

theorem truncated_instruction_dropped_witness:
  "decode_binary_program_to_instructions
     \<lparr>bytecode = join_nl (concat (map inst_lines [mov_r1_1]) @ [hd (inst_lines mov_r1_1)]),
      prophets = [], debug_info = None\<rparr> = Inr [mov_r1_1]"
  by (rule truncated_instruction_dropped) simp_all

end
