(* ===== verification/Converts.thy ===== *)
theory Converts
  imports Errors
begin

text \<open>
  Conversions between byte strings and machine words (\<open>core/src/util/converts.rs\<close>). \<open>H256\<close> is its
  array of 32 bytes. \<open>hex::decode_to_slice\<close> and \<open>U256::from_big_endian\<close> belong to other crates and
  are arguments of the functions that call them.
\<close>

subsection \<open>Big-endian bytes of a word\<close>

text \<open>\<open>to_be_bytes\<close> and \<open>from_be_bytes\<close> of the standard library, for \<open>k\<close> bytes.\<close>

definition be_bytes :: "nat \<Rightarrow> nat \<Rightarrow> u8 list" where
  "be_bytes k x = map (\<lambda>i. of_nat (x div 256 ^ (k - 1 - i))) [0..<k]"

definition be_value :: "u8 list \<Rightarrow> nat" where
  "be_value bs = foldl (\<lambda>a b. a * 256 + unat b) 0 bs"

definition u64_to_be_bytes :: "u64 \<Rightarrow> u8 list" where
  "u64_to_be_bytes w = be_bytes 8 (unat w)"

definition u64_from_be_bytes :: "u8 list \<Rightarrow> u64" where
  "u64_from_be_bytes bs = of_nat (be_value bs)"

definition u32_to_be_bytes :: "u32 \<Rightarrow> u8 list" where
  "u32_to_be_bytes w = be_bytes 4 (unat w)"

subsection \<open>The conversions\<close>

definition u64s_to_bytes :: "u64 list \<Rightarrow> u8 list" where
  "u64s_to_bytes arr = concat (map u64_to_be_bytes arr)"

fun chunks_of_8 :: "'a list \<Rightarrow> 'a list list" where
  "chunks_of_8 [] = []"
| "chunks_of_8 (x # xs) = take 8 (x # xs) # chunks_of_8 (drop 8 (x # xs))"

definition bytes_to_u64s :: "u8 list \<Rightarrow> u64 list result" where
  "bytes_to_u64s bytes =
     rbind (guard (Panicked PanicAssertFailed) (length bytes mod 8 = 0))
       (\<lambda>_. Inr (map u64_from_be_bytes (chunks_of_8 bytes)))"

definition u32s_be_to_u256 :: "(u8 list \<Rightarrow> 'u256) \<Rightarrow> u64 list \<Rightarrow> string + 'u256" where
  "u32s_be_to_u256 from_big_endian u32s =
     (if \<exists>n \<in> set u32s. 0xFFFFFFFF < n then Inl ''Value out of range''
      else let limbs = map (\<lambda>i. push_bit 32 (u32s ! (i * 2)) + u32s ! (i * 2 + 1)) [0..<4]
           in Inr (from_big_endian (u64s_to_bytes limbs)))"

definition from_hex_be :: "(string \<Rightarrow> string + u8 list) \<Rightarrow> string \<Rightarrow> string + u8 list" where
  "from_hex_be decode_to_slice s =
     (let v = trim_start_0x s; hex_chars_len = length v; expected_hex_length = 64 in
      if hex_chars_len = expected_hex_length then decode_to_slice v
      else if hex_chars_len < expected_hex_length
        then decode_to_slice (replicate (expected_hex_length - hex_chars_len) (CHR ''0'') @ v)
      else Inl ''Key out of range.'')"

definition h256_from_hex_be :: "(string \<Rightarrow> string + u8 list) \<Rightarrow> string \<Rightarrow> string + u8 list" where
  "h256_from_hex_be decode_to_slice s =
     (let v = trim_start_0x s; hex_chars_len = length v; expected_hex_length = 64 in
      if hex_chars_len = expected_hex_length then decode_to_slice v
      else if hex_chars_len < expected_hex_length
        then decode_to_slice (replicate (expected_hex_length - hex_chars_len) (CHR ''0'') @ v)
      else Inl ''Key out of range.'')"

definition address_from_hex_be :: "(string \<Rightarrow> string + u8 list) \<Rightarrow> string \<Rightarrow> string + u8 list" where
  "address_from_hex_be decode_to_slice s =
     (let v = trim_start_0x s; hex_chars_len = length v; expected_hex_length = 64 in
      if hex_chars_len = expected_hex_length then decode_to_slice v
      else if hex_chars_len < expected_hex_length
        then decode_to_slice (replicate (expected_hex_length - hex_chars_len) (CHR ''0'') @ v)
      else Inl ''Key out of range.'')"

text \<open>\<open>bytes[a..b].try_into().unwrap()\<close> as an array of \<open>n\<close> bytes, read big-endian as a \<open>u64\<close>.\<close>

definition slice :: "nat \<Rightarrow> nat \<Rightarrow> 'a list \<Rightarrow> 'a list" where
  "slice a b xs = take (b - a) (drop a xs)"

definition u64_of_slice :: "u8 list \<Rightarrow> nat \<Rightarrow> nat \<Rightarrow> u64 result" where
  "u64_of_slice bytes a b =
     rbind (try_into_array 8 (slice a b bytes)) (\<lambda>bs. Inr (u64_from_be_bytes bs))"

definition h256_to_u64_array :: "u8 list \<Rightarrow> u64 list result" where
  "h256_to_u64_array bytes = traverse (\<lambda>(a, b). u64_of_slice bytes a b) [(0, 8), (8, 16), (16, 24), (24, 32)]"

definition h256_to_u32_array :: "u8 list \<Rightarrow> u64 list result" where
  "h256_to_u32_array bytes =
     traverse (\<lambda>(a, b). u64_of_slice bytes a b)
       [(0, 4), (4, 8), (8, 12), (12, 16), (16, 20), (20, 24), (24, 28), (28, 32)]"

definition u64_array_to_h256 :: "u64 list \<Rightarrow> u8 list" where
  "u64_array_to_h256 arr = concat (map u64_to_be_bytes arr)"

definition u32_array_to_h256 :: "u64 list \<Rightarrow> u8 list" where
  "u32_array_to_h256 arr = concat (map (\<lambda>x. u32_to_be_bytes (ucast x)) arr)"

definition u8_arr_to_address :: "u8 list \<Rightarrow> u64 list" where
  "u8_arr_to_address bytes = map u64_from_be_bytes (chunks_of_8 bytes)"

subsection \<open>Round trips\<close>

lemma length_be_bytes [simp]: "length (be_bytes k x) = k"
  by (simp add: be_bytes_def)

lemma be_bytes_Suc: "be_bytes (Suc k) x = be_bytes k (x div 256) @ [of_nat x]"
proof -
  have "(x div 256 ^ (k - i)) = x div 256 div 256 ^ (k - 1 - i)" if "i < k" for i
  proof -
    from that have "k - i = Suc (k - 1 - i)" by simp
    then show ?thesis by (simp only: power_Suc div_mult2_eq)
  qed
  then show ?thesis by (simp add: be_bytes_def)
qed

lemma be_value_snoc: "be_value (bs @ [b]) = be_value bs * 256 + unat b"
  by (simp add: be_value_def)

lemma unat_of_nat_u8: "unat (of_nat x :: u8) = x mod 256"
  by (simp add: unat_of_nat)

lemma be_value_be_bytes: "be_value (be_bytes k x) = x mod 256 ^ k"
proof (induction k arbitrary: x)
  case (Suc k)
  then show ?case
    using mod_mult2_eq [of x 256 "256 ^ k"] by (simp add: be_bytes_Suc be_value_snoc unat_of_nat_u8)
qed (simp add: be_bytes_def be_value_def)

lemma unat_u8_less: "unat (b :: u8) < 256"
  using unsigned_less [of b, where 'a = nat] by simp

lemma of_nat_u8_low: "(of_nat (v * 256 + unat b) :: u8) = b"
  using unat_u8_less [of b] by (simp add: word_unat_eq_iff unat_of_nat_u8 del: of_nat_add of_nat_mult)

lemma be_bytes_be_value: "be_bytes (length bs) (be_value bs) = bs"
proof (induction bs rule: rev_induct)
  case (snoc b bs)
  then show ?case
    using unat_u8_less [of b] by (simp add: be_bytes_Suc be_value_snoc of_nat_u8_low del: of_nat_add of_nat_mult)
qed (simp add: be_bytes_def)

lemma be_value_less: "be_value bs < 256 ^ length bs"
proof -
  have "be_value bs = be_value bs mod 256 ^ length bs"
    using be_value_be_bytes [of "length bs" "be_value bs"] by (simp add: be_bytes_be_value)
  then show ?thesis by (metis mod_less_divisor zero_less_numeral zero_less_power)
qed

lemma u64_from_to_be_bytes [simp]: "u64_from_be_bytes (u64_to_be_bytes w) = w"
proof -
  have "unat w < 256 ^ 8" using unsigned_less [of w, where 'a = nat] by simp
  then show ?thesis
    by (simp add: u64_from_be_bytes_def u64_to_be_bytes_def be_value_be_bytes)
qed

lemma u64_to_from_be_bytes: "length bs = 8 \<Longrightarrow> u64_to_be_bytes (u64_from_be_bytes bs) = bs"
  using be_value_less [of bs] be_bytes_be_value [of bs]
  by (simp add: u64_from_be_bytes_def u64_to_be_bytes_def unat_of_nat)

lemma length_u64_to_be_bytes [simp]: "length (u64_to_be_bytes w) = 8"
  by (simp add: u64_to_be_bytes_def)

lemma length_u64s_to_bytes [simp]: "length (u64s_to_bytes ws) = 8 * length ws"
  by (induction ws) (simp_all add: u64s_to_bytes_def)

lemma chunks_of_8_append: "length c = 8 \<Longrightarrow> chunks_of_8 (c @ cs) = c # chunks_of_8 cs"
  by (cases c) simp_all

lemma chunks_u64s_to_bytes: "map u64_from_be_bytes (chunks_of_8 (u64s_to_bytes ws)) = ws"
  by (induction ws) (simp_all add: u64s_to_bytes_def chunks_of_8_append)

lemma bytes_to_u64s_to_bytes: "bytes_to_u64s (u64s_to_bytes ws) = Inr ws"
  by (simp add: bytes_to_u64s_def guard_def chunks_u64s_to_bytes)

lemma u64s_to_bytes_chunks:
  "length bs mod 8 = 0 \<Longrightarrow> u64s_to_bytes (map u64_from_be_bytes (chunks_of_8 bs)) = bs"
proof (induction bs rule: chunks_of_8.induct)
  case (2 x xs)
  let ?bs = "x # xs"
  have l: "8 \<le> length ?bs" using 2(2) by (cases "length ?bs < 8") auto
  then have "length (drop 8 ?bs) mod 8 = 0"
    using 2(2) le_mod_geq [OF l] by (simp only: length_drop)
  with 2(1) l show ?case
    by (simp only: chunks_of_8.simps list.map u64s_to_bytes_def concat.simps)
      (simp add: u64_to_from_be_bytes)
qed (simp add: u64s_to_bytes_def)

lemma u64s_to_bytes_inverse: "bytes_to_u64s bs = Inr ws \<Longrightarrow> u64s_to_bytes ws = bs"
  by (auto simp: bytes_to_u64s_def guard_def u64s_to_bytes_chunks split: if_splits)

lemma u64s_to_bytes_inject: "u64s_to_bytes a = u64s_to_bytes b \<longleftrightarrow> a = b"
  using bytes_to_u64s_to_bytes by (metis sum.inject(2))

lemma h256_u64_roundtrip: "length arr = 4 \<Longrightarrow> h256_to_u64_array (u64_array_to_h256 arr) = Inr arr"
  by (auto simp: h256_to_u64_array_def u64_array_to_h256_def u64_of_slice_def slice_def
      try_into_array_def length_Suc_conv eval_nat_numeral)

text \<open>A four-byte slice never converts to the eight-byte array \<open>u64::from_be_bytes\<close> expects.\<close>

lemma h256_to_u32_array_panics: "length bytes = 32 \<Longrightarrow> h256_to_u32_array bytes = Inl (Panicked PanicExpect)"
  by (simp add: h256_to_u32_array_def u64_of_slice_def slice_def try_into_array_def)

subsection \<open>Properties\<close>

text \<open>
  C25 \<open>u64s_to_bytes\<close> and \<open>bytes_to_u64s\<close> are inverse to each other: decoding what was encoded gives
  the words back, a byte string decodes only if its length is a multiple of eight, and encoding the
  decoded words gives the same bytes.
\<close>

theorem u64_bytes_roundtrip:
  "bytes_to_u64s (u64s_to_bytes ws) = Inr ws \<and>
   (case bytes_to_u64s bs of Inr vs \<Rightarrow> u64s_to_bytes vs = bs | Inl e \<Rightarrow> length bs mod 8 \<noteq> 0)"
proof (intro conjI)
  show "case bytes_to_u64s bs of Inr vs \<Rightarrow> u64s_to_bytes vs = bs | Inl e \<Rightarrow> length bs mod 8 \<noteq> 0"
    using u64s_to_bytes_inverse [of bs] by (auto simp: bytes_to_u64s_def guard_def split: sum.splits if_splits)
qed (rule bytes_to_u64s_to_bytes)

text \<open>
  C26 \<open>h256_to_u32_array\<close> panics on every 32-byte hash: it slices four bytes where \<open>u64::from_be_bytes\<close>
  takes eight, so the conversion to an eight-byte array fails at the first limb.
\<close>

theorem h256_to_u32_array_always_panics:
  assumes "length bytes = 32"
  shows "h256_to_u32_array bytes = Inl (Panicked PanicExpect)"
  using assms by (rule h256_to_u32_array_panics)

theorem h256_to_u32_array_always_panics_witness:
  "h256_to_u32_array (replicate 32 0) = Inl (Panicked PanicExpect)"
  by (rule h256_to_u32_array_always_panics) simp

end
