(* ===== verification/Poseidon.thy ===== *)
theory Poseidon
  imports PoseidonConstants
begin

text \<open>
  The Poseidon permutation as the virtual machine computes it
  (\<open>core/src/util/poseidon_utils.rs\<close>, \<open>core/src/crypto/poseidon_trace.rs\<close>), with the fast
  partial rounds, and the sponge \<open>calculate_arbitrary_poseidon_u64s\<close>. A state is a list of twelve
  field elements.
\<close>

subsection \<open>The layers\<close>

definition constant_layer_field :: "felt list \<Rightarrow> nat \<Rightarrow> felt list" where
  "constant_layer_field state round_ctr =
     map (\<lambda>i. gf_add (state ! i) (ALL_ROUND_CONSTANTS ! (i + 12 * round_ctr))) [0..<12]"

definition sbox_monomial :: "felt \<Rightarrow> felt" where
  "sbox_monomial x =
     (let x2 = gf_mul x x; x4 = gf_mul x2 x2; x3 = gf_mul x x2 in gf_mul x3 x4)"

definition sbox_layer_field :: "felt list \<Rightarrow> felt list" where
  "sbox_layer_field state = map (\<lambda>i. sbox_monomial (state ! i)) [0..<POSEIDON_STATE_WIDTH]"

definition mds_row_shf_field :: "nat \<Rightarrow> felt list \<Rightarrow> felt" where
  "mds_row_shf_field r v =
     gf_add
       (foldl (\<lambda>res i. gf_add res (gf_mul (v ! ((i + r) mod POSEIDON_STATE_WIDTH)) (MDS_MATRIX_CIRC ! i)))
          0 [0..<POSEIDON_STATE_WIDTH])
       (gf_mul (v ! r) (MDS_MATRIX_DIAG ! r))"

definition mds_layer_field :: "felt list \<Rightarrow> felt list" where
  "mds_layer_field state = map (\<lambda>i. mds_row_shf_field i state) [0..<POSEIDON_STATE_WIDTH]"

definition partial_first_constant_layer :: "felt list \<Rightarrow> felt list" where
  "partial_first_constant_layer state =
     map (\<lambda>i. gf_add (state ! i) (FAST_PARTIAL_FIRST_ROUND_CONSTANT ! i)) [0..<12]"

definition mds_partial_layer_init :: "felt list \<Rightarrow> felt list" where
  "mds_partial_layer_init state =
     foldl
       (\<lambda>result r.
          result ! 0 #
            map (\<lambda>c. gf_add (result ! c)
                       (gf_mul (state ! r) (FAST_PARTIAL_ROUND_INITIAL_MATRIX ! (r - 1) ! (c - 1))))
              [1..<12])
       (state ! 0 # replicate 11 0) [1..<12]"

definition mds_partial_layer_fast_field :: "felt list \<Rightarrow> nat \<Rightarrow> felt list" where
  "mds_partial_layer_fast_field state r =
     (let s0 = state ! 0;
          mds0to0 = MDS_MATRIX_CIRC ! 0 + MDS_MATRIX_DIAG ! 0;
          d = foldl (\<lambda>d i. gf_add d (gf_mul (state ! i) (FAST_PARTIAL_ROUND_W_HATS ! r ! (i - 1))))
                (gf_mul s0 mds0to0) [1..<POSEIDON_STATE_WIDTH]
      in d # map (\<lambda>i. gf_add (gf_mul s0 (FAST_PARTIAL_ROUND_VS ! r ! (i - 1))) (state ! i))
               [1..<POSEIDON_STATE_WIDTH])"

subsection \<open>The permutation and the sponge\<close>

definition full_round :: "felt list \<Rightarrow> nat \<Rightarrow> felt list" where
  "full_round state round_ctr =
     mds_layer_field (sbox_layer_field (constant_layer_field state round_ctr))"

definition partial_round :: "felt list \<Rightarrow> nat \<Rightarrow> felt list" where
  "partial_round state r =
     mds_partial_layer_fast_field
       (state[0 := gf_add (sbox_monomial (state ! 0)) (FAST_PARTIAL_ROUND_CONSTANTS ! r)]) r"

definition calculate_poseidon :: "felt list \<Rightarrow> felt list" where
  "calculate_poseidon full_input =
     (let state = foldl full_round full_input [0..<HALF_N_FULL_ROUNDS];
          state = mds_partial_layer_init (partial_first_constant_layer state);
          state = foldl partial_round state [0..<N_PARTIAL_ROUNDS - 1];
          state = mds_partial_layer_fast_field (state[0 := sbox_monomial (state ! 0)]) (N_PARTIAL_ROUNDS - 1);
          round_ctr = HALF_N_FULL_ROUNDS + N_PARTIAL_ROUNDS
      in foldl full_round state [round_ctr..<round_ctr + HALF_N_FULL_ROUNDS])"

text \<open>\<open>slice::chunks(8)\<close>\<close>

fun chunks8 :: "'a list \<Rightarrow> 'a list list" where
  "chunks8 [] = []"
| "chunks8 (x # xs) = take 8 (x # xs) # chunks8 (drop 8 (x # xs))"

definition absorb :: "felt list \<Rightarrow> felt list \<Rightarrow> felt list" where
  "absorb state input_chunk = calculate_poseidon (input_chunk @ drop (length input_chunk) state)"

definition calculate_arbitrary_poseidon :: "felt list \<Rightarrow> felt list" where
  "calculate_arbitrary_poseidon inputs =
     take 4 (foldl absorb (replicate POSEIDON_STATE_WIDTH 0) (chunks8 inputs))"

definition calculate_arbitrary_poseidon_u64s :: "u64 list \<Rightarrow> u64 list" where
  "calculate_arbitrary_poseidon_u64s inputs_u64 =
     map to_canonical_u64
       (take 4 (foldl absorb (replicate POSEIDON_STATE_WIDTH 0)
          (chunks8 (map from_canonical_u64 inputs_u64))))"

subsection \<open>Shape\<close>

lemma length_layers [simp]:
  "length (constant_layer_field s r) = 12"
  "length (sbox_layer_field s) = 12"
  "length (mds_layer_field s) = 12"
  "length (partial_first_constant_layer s) = 12"
  "length (mds_partial_layer_fast_field s r) = 12"
  "length (full_round s r) = 12"
  "length (partial_round s r) = 12"
  by (simp_all add: constant_layer_field_def sbox_layer_field_def mds_layer_field_def
      partial_first_constant_layer_def mds_partial_layer_fast_field_def full_round_def partial_round_def
      POSEIDON_STATE_WIDTH_def Let_def)

lemma length_foldl_full_round: "ks \<noteq> [] \<Longrightarrow> length (foldl full_round s ks) = 12"
  by (induction ks arbitrary: s rule: rev_induct) simp_all

lemma length_calculate_poseidon [simp]: "length (calculate_poseidon s) = 12"
  unfolding calculate_poseidon_def Let_def
  by (rule length_foldl_full_round) (simp add: HALF_N_FULL_ROUNDS_def)

lemma length_absorb_all: "length s = 12 \<Longrightarrow> length (foldl absorb s cs) = 12"
  by (induction cs arbitrary: s) (simp_all add: absorb_def)

lemma length_poseidon_u64s [simp]: "length (calculate_arbitrary_poseidon_u64s xs) = 4"
  by (simp add: calculate_arbitrary_poseidon_u64s_def length_absorb_all POSEIDON_STATE_WIDTH_def)

lemma poseidon_u64s_canonical:
  "x \<in> set (calculate_arbitrary_poseidon_u64s xs) \<Longrightarrow> x < ORDER"
  by (auto simp: calculate_arbitrary_poseidon_u64s_def to_canonical_less_ORDER)

end
