(* ===== verification/Storage.thy ===== *)
theory Storage
  imports BinaryProgram Converts Poseidon
begin

text \<open>
  Contract storage (\<open>executor/src/ola_storage.rs\<close>, storage types of \<open>core/src/vm/hardware.rs\<close>): the
  disk reader, the two-level write cache with its access logs, and the program cache. RocksDB,
  \<open>bincode\<close> and the LRU cache are other crates: the record \<open>ext\<close> holds what the code calls of them
  (and of secp256k1 and the prophet interpreter, for the executor). A storage operation returns the
  storage on the error branch too, because the block manager keeps it after a failed transaction.
\<close>

type_synonym ContractAddress = "u64 list"
type_synonym OlaStorageKey = "u64 list"
type_synonym OlaStorageValue = "u64 list"

record ExeContext =
  storage_addr :: ContractAddress
  code_addr :: ContractAddress

datatype (plugins only: code) StorageAccessKind = Read | InitialWrite | RepeatedWrite

record StorageAccessLog =
  log_block_timestamp :: u64
  log_kind :: StorageAccessKind
  log_contract_addr :: ContractAddress
  log_storage_key :: OlaStorageKey
  log_pre_value :: "OlaStorageValue option"
  log_value :: "OlaStorageValue option"

text \<open>The value a prophet evaluates to (\<open>interpreter/src/utils/number.rs\<close>).\<close>

datatype (plugins only: code) Number = Nil_num | I32 int | Felt int | Bool_num bool

datatype (plugins only: code) NumberRet = Single Number | Multiple "Number list"

datatype (plugins only: code) interp_failure = InterpErr string | InterpPanic

text \<open>Code of other crates, and the prophet interpreter.\<close>

record 'c ext =
  cf_state_exists :: bool
  cf_factory_deps_exists :: bool
  db_get_state :: "u8 list \<Rightarrow> string + u8 list option"
  db_get_factory_deps :: "u8 list \<Rightarrow> string + u8 list option"
  bincode_deserialize :: "u8 list \<Rightarrow> string + BinaryProgram"
  lru_get :: "'c \<Rightarrow> ContractAddress \<Rightarrow> 'c \<times> BinaryProgram option"
  lru_put :: "'c \<Rightarrow> ContractAddress \<Rightarrow> BinaryProgram \<Rightarrow> 'c"
  secp_pubkey_error :: "u8 list \<Rightarrow> string option"
  secp_signature_error :: "u8 list \<Rightarrow> string option"
  secp_message_error :: "u8 list \<Rightarrow> string option"
  secp_verify :: "u8 list \<Rightarrow> u8 list \<Rightarrow> u8 list \<Rightarrow> bool"
  interpreter_run :: "string \<Rightarrow> OlaProphet \<Rightarrow> u64 list \<Rightarrow> OlaMemory \<Rightarrow> interp_failure + NumberRet"

subsection \<open>The disk reader\<close>

definition disk_load :: "'c ext \<Rightarrow> OlaStorageKey \<Rightarrow> OlaStorageValue option result" where
  "disk_load E tree_key =
     (if cf_state_exists E then
        (case db_get_state E (u64s_to_bytes tree_key) of
           Inl e \<Rightarrow> fail (IoError (DbFailed e))
         | Inr None \<Rightarrow> Inr None
         | Inr (Some u8s) \<Rightarrow>
             if length u8s = 32
             then rbind (bytes_to_u64s u8s) (\<lambda>u64s. Inr (Some [u64s ! 0, u64s ! 1, u64s ! 2, u64s ! 3]))
             else fail (IoError DiskFormatError))
      else fail (IoError ColumnFamilyMissing))"

definition get_program_treekey :: "ContractAddress \<Rightarrow> OlaStorageKey" where
  "get_program_treekey contract_addr =
     (let key = calculate_arbitrary_poseidon_u64s (replicate 4 0 @ contract_addr)
      in calculate_arbitrary_poseidon_u64s ([0, 0, 0, 32770] @ key))"

definition load_program :: "'c ext \<Rightarrow> ContractAddress \<Rightarrow> BinaryProgram result" where
  "load_program E contract_addr =
     rbind (disk_load E (get_program_treekey contract_addr)) (\<lambda>prog_hash.
       case prog_hash of
         None \<Rightarrow> fail (ProgLoadError (ProgramHashLoadFailed contract_addr))
       | Some hash \<Rightarrow>
           if cf_factory_deps_exists E then
             (case db_get_factory_deps E (u64s_to_bytes hash) of
                Inl e \<Rightarrow> fail (ProgLoadError (DbFailed e))
              | Inr None \<Rightarrow> fail (ProgLoadError ProgramBytesNotFound)
              | Inr (Some bytes) \<Rightarrow>
                  (case bincode_deserialize E bytes of
                     Inl e \<Rightarrow> Inl (Anyhow (BincodeFailed e))
                   | Inr program \<Rightarrow> Inr program))
           else fail (ProgLoadError (ProgramHashLoadFailed contract_addr)))"

subsection \<open>The cached storage\<close>

record 'c OlaCachedStorage =
  block_timestamp :: u64
  cached_storage :: "OlaStorageKey \<rightharpoonup> OlaStorageValue"
  tx_cached_storage :: "OlaStorageKey \<rightharpoonup> OlaStorageValue"
  storage_logs :: "StorageAccessLog list"
  tx_storage_logs :: "StorageAccessLog list"
  prog_cache :: 'c

definition storage_new :: "'c \<Rightarrow> u64 option \<Rightarrow> 'c OlaCachedStorage" where
  "storage_new empty_cache ts =
     \<lparr>block_timestamp = (case ts of Some t \<Rightarrow> t | None \<Rightarrow> 0), cached_storage = Map.empty,
      tx_cached_storage = Map.empty, storage_logs = [], tx_storage_logs = [], prog_cache = empty_cache\<rparr>"

definition get_tree_key :: "ContractAddress \<Rightarrow> OlaStorageKey \<Rightarrow> OlaStorageKey" where
  "get_tree_key storage_address storage_key = calculate_arbitrary_poseidon_u64s (storage_address @ storage_key)"

type_synonym ('c, 'a) stor = "('c OlaCachedStorage, anyhow_error, 'a) stres"

definition get_pre_value ::
    "'c ext \<Rightarrow> ContractAddress \<Rightarrow> OlaStorageKey \<Rightarrow> ('c, OlaStorageValue option) stor" where
  "get_pre_value E contract_addr storage_key st =
     (let tree_key = get_tree_key contract_addr storage_key in
      case tx_cached_storage st tree_key of
        Some v \<Rightarrow> (st, Inr (Some v))
      | None \<Rightarrow>
          (case cached_storage st tree_key of
             Some v \<Rightarrow> (st, Inr (Some v))
           | None \<Rightarrow>
               (case disk_load E tree_key of
                  Inl e \<Rightarrow> (st, Inl e)
                | Inr disk_loaded \<Rightarrow>
                    (case disk_loaded of
                       Some v \<Rightarrow> (st\<lparr>cached_storage := (cached_storage st)(tree_key \<mapsto> v)\<rparr>, Inr disk_loaded)
                     | None \<Rightarrow> (st, Inr disk_loaded)))))"

definition storage_read ::
    "'c ext \<Rightarrow> ContractAddress \<Rightarrow> OlaStorageKey \<Rightarrow> ('c, OlaStorageValue option) stor" where
  "storage_read E contract_addr storage_key = get_pre_value E contract_addr storage_key"

definition storage_write ::
    "'c ext \<Rightarrow> ContractAddress \<Rightarrow> OlaStorageKey \<Rightarrow> OlaStorageValue \<Rightarrow> ('c, unit) stor" where
  "storage_write E contract_addr storage_key v =
     sbind (get_pre_value E contract_addr storage_key) (\<lambda>pre_value st.
       let tree_key = get_tree_key contract_addr storage_key;
           kind = (case pre_value of Some _ \<Rightarrow> RepeatedWrite | None \<Rightarrow> InitialWrite)
       in (st\<lparr>tx_cached_storage := (tx_cached_storage st)(tree_key \<mapsto> v),
              tx_storage_logs := tx_storage_logs st @
                [\<lparr>log_block_timestamp = block_timestamp st, log_kind = kind,
                  log_contract_addr = contract_addr, log_storage_key = storage_key,
                  log_pre_value = pre_value, log_value = Some v\<rparr>]\<rparr>, Inr ()))"

definition sload ::
    "'c ext \<Rightarrow> ContractAddress \<Rightarrow> OlaStorageKey \<Rightarrow> ('c, OlaStorageValue option) stor" where
  "sload E contract_addr storage_key =
     sbind (get_pre_value E contract_addr storage_key) (\<lambda>pre_value st.
       (st\<lparr>tx_storage_logs := tx_storage_logs st @
             [\<lparr>log_block_timestamp = block_timestamp st, log_kind = Read,
               log_contract_addr = contract_addr, log_storage_key = storage_key,
               log_pre_value = pre_value, log_value = pre_value\<rparr>]\<rparr>, Inr pre_value))"

definition sstore ::
    "'c ext \<Rightarrow> ContractAddress \<Rightarrow> OlaStorageKey \<Rightarrow> OlaStorageValue \<Rightarrow> ('c, unit) stor" where
  "sstore E contract_addr storage_key v = storage_write E contract_addr storage_key v"

definition get_program :: "'c ext \<Rightarrow> ContractAddress \<Rightarrow> ('c, BinaryProgram) stor" where
  "get_program E contract_addr st =
     (case lru_get E (prog_cache st) contract_addr of
        (cache, Some program) \<Rightarrow> (st\<lparr>prog_cache := cache\<rparr>, Inr program)
      | (cache, None) \<Rightarrow>
          (case load_program E contract_addr of
             Inl e \<Rightarrow> (st\<lparr>prog_cache := cache\<rparr>, Inl e)
           | Inr program \<Rightarrow> (st\<lparr>prog_cache := lru_put E cache contract_addr program\<rparr>, Inr program)))"

definition storage_on_tx_success :: "'c OlaCachedStorage \<Rightarrow> 'c OlaCachedStorage" where
  "storage_on_tx_success st =
     st\<lparr>cached_storage := cached_storage st ++ tx_cached_storage st, tx_cached_storage := Map.empty,
        storage_logs := storage_logs st @ tx_storage_logs st, tx_storage_logs := []\<rparr>"

definition clear_tx_cache :: "'c OlaCachedStorage \<Rightarrow> 'c OlaCachedStorage" where
  "clear_tx_cache st = st\<lparr>tx_cached_storage := Map.empty, storage_logs := []\<rparr>"

subsection \<open>A transactional store\<close>

text \<open>
  The contract a client of the storage relies on: what an operation returns and what it does to the
  state are functions of the current view only; committing makes the view the base; aborting returns to
  the base.
\<close>

locale tx_store =
  fixes view :: "'s \<Rightarrow> 'k \<rightharpoonup> 'v"
    and base :: "'s \<Rightarrow> 'k \<rightharpoonup> 'v"
    and exec :: "'op \<Rightarrow> 's \<Rightarrow> 's"
    and effect :: "'op \<Rightarrow> ('k \<rightharpoonup> 'v) \<Rightarrow> ('k \<rightharpoonup> 'v)"
    and result :: "'op \<Rightarrow> 's \<Rightarrow> 'r"
    and answer :: "'op \<Rightarrow> ('k \<rightharpoonup> 'v) \<Rightarrow> 'r"
    and commit :: "'s \<Rightarrow> 's"
    and abort :: "'s \<Rightarrow> 's"
  assumes view_exec: "view (exec op s) = effect op (view s)"
    and result_view: "result op s = answer op (view s)"
    and base_exec: "base (exec op s) = base s"
    and view_commit: "view (commit s) = view s"
    and base_commit: "base (commit s) = view s"
    and view_abort: "view (abort s) = base s"
    and base_abort: "base (abort s) = base s"
begin

lemma view_exec_all: "view (fold exec ops s) = fold effect ops (view s)"
  by (induction ops arbitrary: s) (simp_all add: view_exec)

lemma result_exec_all: "result op (fold exec ops s) = answer op (fold effect ops (view s))"
  by (simp add: result_view view_exec_all)

lemma base_exec_all: "base (fold exec ops s) = base s"
  by (induction ops arbitrary: s) (simp_all add: base_exec)

lemma abort_undoes: "view (abort (fold exec ops s)) = base s"
  by (simp add: view_abort base_exec_all)

lemma abort_all_undoes: "view s = base s \<Longrightarrow> view (abort (fold exec ops s)) = view s"
  by (simp add: view_abort base_exec_all)

lemma commit_keeps: "base (commit (fold exec ops s)) = fold effect ops (view s)"
  by (simp add: base_commit view_exec_all)

lemma commit_then_abort: "view (abort (fold exec ops' (commit (fold exec ops s)))) = fold effect ops (view s)"
  by (simp add: view_abort base_exec_all base_commit view_exec_all)

end

text \<open>The view of the cached storage: transaction cache over block cache over disk.\<close>

definition disk_view :: "'c ext \<Rightarrow> OlaStorageKey \<rightharpoonup> OlaStorageValue" where
  "disk_view E k = (case disk_load E k of Inr v \<Rightarrow> v | Inl _ \<Rightarrow> None)"

definition block_view :: "'c ext \<Rightarrow> 'c OlaCachedStorage \<Rightarrow> OlaStorageKey \<rightharpoonup> OlaStorageValue" where
  "block_view E st = disk_view E ++ cached_storage st"

definition storage_view :: "'c ext \<Rightarrow> 'c OlaCachedStorage \<Rightarrow> OlaStorageKey \<rightharpoonup> OlaStorageValue" where
  "storage_view E st = block_view E st ++ tx_cached_storage st"

datatype (plugins only: code) storage_op =
    SloadOp ContractAddress OlaStorageKey
  | SstoreOp ContractAddress OlaStorageKey OlaStorageValue

fun storage_exec :: "'c ext \<Rightarrow> storage_op \<Rightarrow> 'c OlaCachedStorage \<Rightarrow> 'c OlaCachedStorage" where
  "storage_exec E (SloadOp a k) st = fst (sload E a k st)"
| "storage_exec E (SstoreOp a k v) st = fst (sstore E a k v st)"

text \<open>A key whose disk entry cannot be read, and that is not cached, cannot be written either.\<close>

definition writable :: "'c ext \<Rightarrow> OlaStorageKey \<Rightarrow> (OlaStorageKey \<rightharpoonup> OlaStorageValue) \<Rightarrow> bool" where
  "writable E t V \<longleftrightarrow> V t \<noteq> None \<or> disk_load E t = Inr None"

fun storage_effect ::
    "'c ext \<Rightarrow> storage_op \<Rightarrow> (OlaStorageKey \<rightharpoonup> OlaStorageValue) \<Rightarrow> (OlaStorageKey \<rightharpoonup> OlaStorageValue)" where
  "storage_effect E (SloadOp a k) V = V"
| "storage_effect E (SstoreOp a k v) V =
     (let t = get_tree_key a k in if writable E t V then V(t \<mapsto> v) else V)"

text \<open>What an operation returns, and what it should return given the view; a store returns no value.\<close>

fun storage_result :: "'c ext \<Rightarrow> storage_op \<Rightarrow> 'c OlaCachedStorage \<Rightarrow> OlaStorageValue option result" where
  "storage_result E (SloadOp a k) st = snd (sload E a k st)"
| "storage_result E (SstoreOp a k v) st = rbind (snd (sstore E a k v st)) (\<lambda>_. Inr None)"

fun storage_answer :: "'c ext \<Rightarrow> storage_op \<Rightarrow> (OlaStorageKey \<rightharpoonup> OlaStorageValue) \<Rightarrow> OlaStorageValue option result" where
  "storage_answer E (SloadOp a k) V =
     (case V (get_tree_key a k) of Some v \<Rightarrow> Inr (Some v) | None \<Rightarrow> disk_load E (get_tree_key a k))"
| "storage_answer E (SstoreOp a k v) V =
     (case V (get_tree_key a k) of
        Some _ \<Rightarrow> Inr None
      | None \<Rightarrow> rbind (disk_load E (get_tree_key a k)) (\<lambda>_. Inr None))"

lemmas view_defs = storage_view_def block_view_def disk_view_def

lemma get_pre_value_views:
  assumes "get_pre_value E a k st = (st', r)"
  shows "storage_view E st' = storage_view E st" "block_view E st' = block_view E st"
    "tx_storage_logs st' = tx_storage_logs st" "storage_logs st' = storage_logs st"
    "tx_cached_storage st' = tx_cached_storage st" "block_timestamp st' = block_timestamp st"
  using assms
  by (auto simp: get_pre_value_def Let_def view_defs map_add_def fun_eq_iff
      split: option.splits sum.splits if_splits)

lemma get_pre_value_result:
  "snd (get_pre_value E a k st) =
     (case storage_view E st (get_tree_key a k) of
        Some v \<Rightarrow> Inr (Some v)
      | None \<Rightarrow> disk_load E (get_tree_key a k))"
  by (auto simp: get_pre_value_def Let_def view_defs map_add_def
      split: option.splits sum.splits)

lemma get_pre_value_cases:
  obtains st' where "get_pre_value E a k st = (st', Inr (storage_view E st (get_tree_key a k)))"
      "writable E (get_tree_key a k) (storage_view E st)"
  | st' e where "get_pre_value E a k st = (st', Inl e)"
      "\<not> writable E (get_tree_key a k) (storage_view E st)"
proof (cases "get_pre_value E a k st")
  case (Pair st' r)
  have no_disk: "storage_view E st (get_tree_key a k) = None \<Longrightarrow>
      disk_load E (get_tree_key a k) \<noteq> Inr (Some v)" for v
    by (auto simp: view_defs map_add_def split: option.splits)
  from Pair that get_pre_value_result [of E a k st] no_disk show ?thesis
    by (auto simp: writable_def split: option.splits sum.splits) (metis not_Some_eq sum.exhaust)
qed


lemma sload_views:
  "storage_view E (fst (sload E a k st)) = storage_view E st"
  "block_view E (fst (sload E a k st)) = block_view E st"
proof -
  obtain st' r where g: "get_pre_value E a k st = (st', r)" by (cases "get_pre_value E a k st")
  from get_pre_value_views(1,2) [OF g] g
  show "storage_view E (fst (sload E a k st)) = storage_view E st"
    "block_view E (fst (sload E a k st)) = block_view E st"
    by (cases r; simp add: sload_def sbind_def view_defs)+
qed

lemma sstore_views:
  "storage_view E (fst (sstore E a k v st)) =
     (if writable E (get_tree_key a k) (storage_view E st)
      then (storage_view E st)(get_tree_key a k \<mapsto> v) else storage_view E st)"
  "block_view E (fst (sstore E a k v st)) = block_view E st"
proof -
  have "storage_view E (fst (sstore E a k v st)) =
     (if writable E (get_tree_key a k) (storage_view E st)
      then (storage_view E st)(get_tree_key a k \<mapsto> v) else storage_view E st) \<and>
    block_view E (fst (sstore E a k v st)) = block_view E st"
  proof (cases rule: get_pre_value_cases [of E a k st])
    case (1 st')
    with get_pre_value_views [OF 1(1)] show ?thesis
      by (simp add: sstore_def storage_write_def sbind_def Let_def storage_view_def block_view_def)
  next
    case (2 st' e)
    with get_pre_value_views [OF 2(1)] show ?thesis
      by (simp add: sstore_def storage_write_def sbind_def Let_def)
  qed
  then show "storage_view E (fst (sstore E a k v st)) =
     (if writable E (get_tree_key a k) (storage_view E st)
      then (storage_view E st)(get_tree_key a k \<mapsto> v) else storage_view E st)"
    "block_view E (fst (sstore E a k v st)) = block_view E st" by simp_all
qed

lemma rbind_unit: "rbind (rbind r (\<lambda>_. Inr ())) f = rbind r (\<lambda>_. f ())"
  by (cases r) simp_all

lemma sload_result:
  "snd (sload E a k st) = snd (get_pre_value E a k st)"
  by (auto simp: sload_def sbind_def split: prod.splits sum.splits)

lemma sstore_result:
  "snd (sstore E a k v st) = rbind (snd (get_pre_value E a k st)) (\<lambda>_. Inr ())"
  by (auto simp: sstore_def storage_write_def sbind_def Let_def split: prod.splits sum.splits)

interpretation cached: tx_store "storage_view E" "block_view E" "storage_exec E" "storage_effect E"
  "storage_result E" "storage_answer E" storage_on_tx_success clear_tx_cache for E
proof
  fix op and st :: "'a OlaCachedStorage"
  show "storage_view E (storage_exec E op st) = storage_effect E op (storage_view E st)"
    by (cases op) (simp_all add: sload_views sstore_views Let_def)
  show "storage_result E op st = storage_answer E op (storage_view E st)"
    by (cases op) (simp_all add: sload_result sstore_result get_pre_value_result rbind_unit split: option.split)
  show "block_view E (storage_exec E op st) = block_view E st"
    by (cases op) (simp_all add: sload_views sstore_views)
qed (simp_all add: storage_view_def block_view_def storage_on_tx_success_def clear_tx_cache_def
    map_add_assoc)

subsection \<open>Reads after writes, and the logs\<close>

lemma sload_reads_view:
  assumes "writable E (get_tree_key a k) (storage_view E st)"
  shows "snd (sload E a k st) = Inr (storage_view E st (get_tree_key a k))"
  unfolding sload_result by (cases rule: get_pre_value_cases [of E a k st]) (simp_all add: assms)

lemma sload_log:
  assumes "sload E a k st = (st', Inr v)"
  shows "tx_storage_logs st' = tx_storage_logs st @
    [\<lparr>log_block_timestamp = block_timestamp st, log_kind = Read, log_contract_addr = a,
      log_storage_key = k, log_pre_value = v, log_value = v\<rparr>]"
  using assms
  by (auto simp: sload_def sbind_def get_pre_value_views split: prod.splits sum.splits)

lemma sstore_Inr:
  assumes "sstore E a k v st = (st', Inr u)"
  shows "writable E (get_tree_key a k) (storage_view E st)"
    and "tx_storage_logs st' = tx_storage_logs st @
      [\<lparr>log_block_timestamp = block_timestamp st,
        log_kind = (if storage_view E st (get_tree_key a k) = None then InitialWrite else RepeatedWrite),
        log_contract_addr = a, log_storage_key = k,
        log_pre_value = storage_view E st (get_tree_key a k), log_value = Some v\<rparr>]"
proof -
  from assms obtain st1 pre where g: "get_pre_value E a k st = (st1, Inr pre)"
    by (auto simp: sstore_def storage_write_def sbind_def split: prod.splits sum.splits)
  have w: "writable E (get_tree_key a k) (storage_view E st) \<and> pre = storage_view E st (get_tree_key a k)"
    by (cases rule: get_pre_value_cases [of E a k st]) (use g in auto)
  then show "writable E (get_tree_key a k) (storage_view E st)" by simp
  from assms g w get_pre_value_views [OF g]
  show "tx_storage_logs st' = tx_storage_logs st @
      [\<lparr>log_block_timestamp = block_timestamp st,
        log_kind = (if storage_view E st (get_tree_key a k) = None then InitialWrite else RepeatedWrite),
        log_contract_addr = a, log_storage_key = k,
        log_pre_value = storage_view E st (get_tree_key a k), log_value = Some v\<rparr>]"
    by (auto simp: sstore_def storage_write_def sbind_def Let_def split: option.splits)
qed

lemma clear_tx_cache_keeps_tx_logs: "tx_storage_logs (clear_tx_cache st) = tx_storage_logs st"
  by (simp add: clear_tx_cache_def)

subsection \<open>A closed environment\<close>

text \<open>A disk with no entries, caches that hold nothing and libraries that refuse everything.\<close>

definition empty_ext :: "unit ext" where
  "empty_ext = \<lparr>cf_state_exists = True, cf_factory_deps_exists = True, db_get_state = (\<lambda>_. Inr None),
     db_get_factory_deps = (\<lambda>_. Inr None), bincode_deserialize = (\<lambda>_. Inl ''eof''),
     lru_get = (\<lambda>c a. (c, None)), lru_put = (\<lambda>c a p. c),
     secp_pubkey_error = (\<lambda>_. Some ''key''), secp_signature_error = (\<lambda>_. Some ''sig''),
     secp_message_error = (\<lambda>_. Some ''msg''), secp_verify = (\<lambda>m s p. False),
     interpreter_run = (\<lambda>c p v m. Inl (InterpErr ''none''))\<rparr>"

subsection \<open>Properties\<close>

text \<open>
  C10 The two-level cache refines a plain key-value map with transactions. After any sequence of loads
  and stores the state is the map updated by the stores, and the next load or store returns what that
  map says: the value of the key, and for an absent key nothing, or the error of the disk. Aborting restores
  exactly the committed state, and committing makes the view the committed state.
\<close>

theorem storage_refines_map:
  "storage_view E (fold (storage_exec E) ops st) = fold (storage_effect E) ops (storage_view E st) \<and>
   storage_result E op (fold (storage_exec E) ops st) = storage_answer E op (fold (storage_effect E) ops (storage_view E st)) \<and>
   storage_view E (clear_tx_cache (fold (storage_exec E) ops st)) = block_view E st \<and>
   block_view E (storage_on_tx_success (fold (storage_exec E) ops st)) =
     fold (storage_effect E) ops (storage_view E st)"
  by (simp add: cached.view_exec_all cached.result_exec_all cached.abort_undoes cached.commit_keeps)

text \<open>
  C11 A successful store is what the next load of the same contract's key returns, whatever the caches
  held; both append one access-log entry, with the kind and the previous value taken from the view
  before the access.
\<close>

theorem sstore_then_sload:
  assumes "sstore E a k v st = (st1, Inr u)"
  shows "\<exists>st2. sload E a k st1 = (st2, Inr (Some v)) \<and>
    tx_storage_logs st2 = tx_storage_logs st @
      [\<lparr>log_block_timestamp = block_timestamp st,
        log_kind = (if storage_view E st (get_tree_key a k) = None then InitialWrite else RepeatedWrite),
        log_contract_addr = a, log_storage_key = k,
        log_pre_value = storage_view E st (get_tree_key a k), log_value = Some v\<rparr>,
       \<lparr>log_block_timestamp = block_timestamp st1, log_kind = Read, log_contract_addr = a,
        log_storage_key = k, log_pre_value = Some v, log_value = Some v\<rparr>]"
proof -
  have view: "storage_view E st1 (get_tree_key a k) = Some v"
    using sstore_views(1) [of E a k v st] sstore_Inr(1) [OF assms] assms by simp
  then have "snd (sload E a k st1) = Inr (Some v)"
    by (subst sload_reads_view) (simp_all add: writable_def)
  then obtain st2 where l: "sload E a k st1 = (st2, Inr (Some v))"
    by (cases "sload E a k st1") auto
  from sload_log [OF l] sstore_Inr(2) [OF assms] l show ?thesis by simp
qed

theorem sstore_then_sload_witness:
  "\<exists>st1 st2. sstore empty_ext [1, 2, 3, 4] [0, 0, 0, 1] [5, 6, 7, 8] (storage_new () (Some 9)) = (st1, Inr ()) \<and>
     sload empty_ext [1, 2, 3, 4] [0, 0, 0, 1] st1 = (st2, Inr (Some [5, 6, 7, 8]))"
proof -
  obtain st1 where s: "sstore empty_ext [1, 2, 3, 4] [0, 0, 0, 1] [5, 6, 7, 8] (storage_new () (Some 9)) = (st1, Inr ())"
    by (simp add: sstore_def storage_write_def get_pre_value_def storage_new_def sbind_def Let_def
        disk_load_def empty_ext_def)
  from sstore_then_sload [OF s] s show ?thesis by blast
qed

end
