(* ===== verification/Trace.thy ===== *)
theory Trace
  imports Storage
begin

text \<open>
  Execution traces: the pieces of \<open>core/src/trace/exe_trace.rs\<close>, the transaction trace manager of
  \<open>executor/src/exe_trace/tx.rs\<close>, state differences of \<open>core/src/vm/vm_state.rs\<close>, and the event
  manager of \<open>executor/src/tx_exe_manager.rs\<close>.
\<close>

subsection \<open>Trace pieces\<close>

record CpuPieceAuxSCCall =
  addr_callee_storage :: ContractAddress
  addr_callee_code :: ContractAddress

record CpuExePiece =
  cpu_clk :: u64
  cpu_pc :: u64
  cpu_psp :: u64
  cpu_tp :: u64
  cpu_registers :: "u64 list"
  cpu_instruction :: u64
  cpu_imm :: "u64 option"
  cpu_opcode :: u64
  cpu_op0 :: "u64 option"
  cpu_op1 :: "u64 option"
  cpu_dst :: "u64 option"
  cpu_aux0 :: "u64 option"
  cpu_aux1 :: "u64 option"
  op0_reg_sel :: "u64 list"
  op1_reg_sel :: "u64 list"
  dst_reg_sel :: "u64 list"
  is_ext_line :: bool
  ext_cnt :: u64
  aux_sccall :: "CpuPieceAuxSCCall option"

record MemExePiece =
  me_clk :: u64
  me_addr :: u64
  me_value :: u64
  me_is_write :: bool
  me_opcode :: "OlaOpcode option"

record RcExePiece =
  rc_value :: u32

record BitwiseExePiece =
  bw_opcode :: OlaOpcode
  bw_op0 :: u32
  bw_op1 :: u32
  bw_res :: u32

record CmpExePiece =
  cmp_op0 :: u32
  cmp_op1 :: u32
  cmp_is_gte :: bool

record PoseidonPiece =
  po_env_idx :: u64
  po_clk :: u64
  po_src_addr :: u64
  po_len :: u64
  po_dst_addr :: u64
  po_inputs :: "u64 list"

record StorageExePiece =
  st_is_write :: bool
  st_contract_addr :: ContractAddress
  st_storage_key :: OlaStorageKey
  st_tree_key :: OlaStorageKey
  st_pre_value :: "OlaStorageValue option"
  st_value :: OlaStorageValue

record TapeExePiece =
  te_addr :: u64
  te_value :: u64
  te_opcode :: "OlaOpcode option"

record SCCallPiece =
  caller_env_idx :: u64
  caller_storage_addr :: ContractAddress
  caller_code_addr :: ContractAddress
  caller_op1_imm :: bool
  clk_caller_call :: u64
  clk_caller_ret :: u64
  reg_caller :: "u64 list"
  callee_env_idx :: u64
  clk_callee_end :: u64

record ExeTraceStepDiff =
  d_cpu :: "CpuExePiece list"
  d_mem :: "MemExePiece list option"
  d_rc :: "RcExePiece option"
  d_bitwise :: "BitwiseExePiece option"
  d_cmp :: "CmpExePiece option"
  d_poseidon :: "PoseidonPiece option"
  d_storage :: "StorageExePiece option"
  d_tape :: "TapeExePiece list option"

text \<open>The programs of a trace are collected from a hash map: a map, since their order is unspecified.\<close>

record TxExeTrace =
  t_programs :: "ContractAddress \<rightharpoonup> u64 list"
  t_cpu :: "(u64 \<times> u64 \<times> ExeContext \<times> CpuExePiece list) list"
  t_env_mem :: "u64 \<rightharpoonup> MemExePiece list"
  t_rc :: "RcExePiece list"
  t_bitwise :: "BitwiseExePiece list"
  t_cmp :: "CmpExePiece list"
  t_poseidon :: "PoseidonPiece list"
  t_storage :: "StorageExePiece list"
  t_tape :: "TapeExePiece list"
  t_sccall :: "SCCallPiece list"

subsection \<open>State differences\<close>

record RegisterDiff =
  rd_register :: OlaRegister
  rd_value :: u64

record MemoryDiff =
  md_addr :: u64
  md_value :: u64

record StorageDiff =
  sd_storage_key :: OlaStorageKey
  sd_pre_value :: "OlaStorageValue option"
  sd_value :: OlaStorageValue
  sd_is_init :: bool

record TapeDiff =
  td_value :: u64

record SpecRegisterDiff =
  sr_pc :: "u64 option"

datatype (plugins only: code) OlaStateDiff =
    SpecReg SpecRegisterDiff
  | RegisterD "RegisterDiff list"
  | MemoryD "MemoryDiff list"
  | StorageD "StorageDiff list"
  | TapeD "TapeDiff list"

subsection \<open>Events\<close>

record Event =
  ev_batch_number :: u64
  ev_index_in_batch :: u64
  ev_address :: ContractAddress
  ev_topics :: "u64 list list"
  ev_data :: "u64 list"

record TxEventManager =
  em_block_number :: u64
  prev_events_cnt_in_batch :: nat
  biz_contract_address :: ContractAddress
  em_events :: "Event list"

definition event_manager_new :: "u64 \<Rightarrow> nat \<Rightarrow> ContractAddress \<Rightarrow> TxEventManager" where
  "event_manager_new block_number cnt biz =
     \<lparr>em_block_number = block_number, prev_events_cnt_in_batch = cnt, biz_contract_address = biz, em_events = []\<rparr>"

definition on_event :: "TxEventManager \<Rightarrow> u64 list list \<Rightarrow> u64 list \<Rightarrow> TxEventManager" where
  "on_event em topics data =
     em\<lparr>em_events := em_events em @
          [\<lparr>ev_batch_number = em_block_number em,
            ev_index_in_batch = of_nat (length (em_events em) + prev_events_cnt_in_batch em),
            ev_address = biz_contract_address em, ev_topics = topics, ev_data = data\<rparr>]\<rparr>"

subsection \<open>The transaction trace manager\<close>

record EnvOutlineSnapshot =
  eo_env_idx :: u64
  eo_clk :: u64
  eo_pc :: u64
  eo_context :: ExeContext

record CallerInfo =
  ci_env_idx :: u64
  ci_context :: ExeContext
  ci_is_op1_imm :: bool
  ci_clk_caller_call :: u64
  ci_caller_reg :: "u64 list"

record TxTraceManager =
  current_env_idx :: u64
  current_context :: ExeContext
  tm_caller :: "EnvOutlineSnapshot option"
  tm_cpu :: "(u64 \<times> u64 \<times> ExeContext \<times> CpuExePiece list) list"
  tm_env_mem :: "u64 \<rightharpoonup> MemExePiece list"
  tm_rc :: "RcExePiece list"
  tm_bitwise :: "BitwiseExePiece list"
  tm_cmp :: "CmpExePiece list"
  tm_poseidon :: "PoseidonPiece list"
  tm_storage :: "StorageExePiece list"
  tm_tape :: "TapeExePiece list"
  caller_stack :: "CallerInfo list"
  tm_sccall :: "SCCallPiece list"

definition default_context :: ExeContext where
  "default_context = \<lparr>storage_addr = replicate 4 0, code_addr = replicate 4 0\<rparr>"

definition default_snapshot :: EnvOutlineSnapshot where
  "default_snapshot = \<lparr>eo_env_idx = 0, eo_clk = 0, eo_pc = 0, eo_context = default_context\<rparr>"

definition trace_manager_default :: TxTraceManager where
  "trace_manager_default =
     \<lparr>current_env_idx = 0, current_context = default_context, tm_caller = None, tm_cpu = [],
      tm_env_mem = Map.empty, tm_rc = [], tm_bitwise = [], tm_cmp = [], tm_poseidon = [],
      tm_storage = [], tm_tape = [], caller_stack = [], tm_sccall = []\<rparr>"

definition trace_init_tape :: "TxTraceManager \<Rightarrow> u64 list \<Rightarrow> TxTraceManager" where
  "trace_init_tape tm values =
     tm\<lparr>tm_tape := tm_tape tm @
          map (\<lambda>(a, v). \<lparr>te_addr = of_nat a, te_value = v, te_opcode = None\<rparr>) (enumerate 0 values)\<rparr>"

definition set_env ::
    "TxTraceManager \<Rightarrow> u64 \<Rightarrow> u64 \<Rightarrow> ExeContext \<Rightarrow> EnvOutlineSnapshot option \<Rightarrow> TxTraceManager" where
  "set_env tm call_sc_cnt env_idx context caller =
     tm\<lparr>current_env_idx := env_idx, current_context := context, tm_caller := caller,
        tm_cpu := tm_cpu tm @ [(call_sc_cnt, env_idx, context, [])]\<rparr>"

text \<open>\<open>if let Some(last) = self.cpu.last_mut() { last.3.push(cpu) }\<close>\<close>

definition push_cpu ::
    "(u64 \<times> u64 \<times> ExeContext \<times> CpuExePiece list) list \<Rightarrow> CpuExePiece
      \<Rightarrow> (u64 \<times> u64 \<times> ExeContext \<times> CpuExePiece list) list" where
  "push_cpu envs cpu =
     (if envs = [] then []
      else let (cnt, idx, context, pieces) = last envs
           in butlast envs @ [(cnt, idx, context, pieces @ [cpu])])"

definition on_step_cpu :: "TxTraceManager \<Rightarrow> CpuExePiece \<Rightarrow> TxTraceManager" where
  "on_step_cpu tm cpu =
     (if cpu_opcode cpu = binary_bit_mask END then
        let caller = (case tm_caller tm of Some c \<Rightarrow> c | None \<Rightarrow> default_snapshot);
            end_ext_line = cpu\<lparr>cpu_clk := eo_clk caller, cpu_pc := eo_pc caller,
                               is_ext_line := True, ext_cnt := 1\<rparr>;
            envs = push_cpu (tm_cpu tm) cpu;
            call_sc_cnt = (if envs = [] then 0 else fst (last envs))
        in tm\<lparr>tm_cpu := envs @ [(call_sc_cnt, eo_env_idx caller, eo_context caller, [end_ext_line])]\<rparr>
      else tm\<lparr>tm_cpu := push_cpu (tm_cpu tm) cpu\<rparr>)"

definition on_step_mem :: "TxTraceManager \<Rightarrow> MemExePiece list \<Rightarrow> TxTraceManager" where
  "on_step_mem tm mem =
     (let env = current_env_idx tm in
      case tm_env_mem tm env of
        Some mems \<Rightarrow> tm\<lparr>tm_env_mem := (tm_env_mem tm)(env \<mapsto> mems @ mem)\<rparr>
      | None \<Rightarrow>
          let addr_heap_ptr = 18446744060824649731;
              init_piece = \<lparr>me_clk = 0, me_addr = addr_heap_ptr, me_value = addr_heap_ptr + 1,
                            me_is_write = True, me_opcode = None\<rparr>
          in tm\<lparr>tm_env_mem := (tm_env_mem tm)(env \<mapsto> init_piece # mem)\<rparr>)"

definition opt_list :: "'a option \<Rightarrow> 'a list" where
  "opt_list x = (case x of Some v \<Rightarrow> [v] | None \<Rightarrow> [])"

definition on_step :: "TxTraceManager \<Rightarrow> ExeTraceStepDiff \<Rightarrow> TxTraceManager" where
  "on_step tm diff =
     (let tm1 = foldl on_step_cpu tm (d_cpu diff);
          tm2 = (case d_mem diff of Some mem \<Rightarrow> on_step_mem tm1 mem | None \<Rightarrow> tm1)
      in tm2\<lparr>tm_rc := tm_rc tm2 @ opt_list (d_rc diff),
             tm_bitwise := tm_bitwise tm2 @ opt_list (d_bitwise diff),
             tm_cmp := tm_cmp tm2 @ opt_list (d_cmp diff),
             tm_poseidon := tm_poseidon tm2 @
               map (\<lambda>p. p\<lparr>po_env_idx := current_env_idx tm2\<rparr>) (opt_list (d_poseidon diff)),
             tm_storage := tm_storage tm2 @ opt_list (d_storage diff),
             tm_tape := tm_tape tm2 @ (case d_tape diff of Some ts \<Rightarrow> ts | None \<Rightarrow> [])\<rparr>)"

text \<open>The stack of callers grows at the head here.\<close>

definition on_call ::
    "TxTraceManager \<Rightarrow> u64 \<Rightarrow> ExeContext \<Rightarrow> bool \<Rightarrow> u64 \<Rightarrow> u64 list \<Rightarrow> TxTraceManager" where
  "on_call tm env_idx context is_op1_imm clk regs =
     tm\<lparr>caller_stack :=
          \<lparr>ci_env_idx = env_idx, ci_context = context, ci_is_op1_imm = is_op1_imm,
           ci_clk_caller_call = clk, ci_caller_reg = regs\<rparr> # caller_stack tm\<rparr>"

definition on_end :: "TxTraceManager \<Rightarrow> u64 \<Rightarrow> u64 \<Rightarrow> TxTraceManager" where
  "on_end tm callee_idx clk_end =
     (case caller_stack tm of
        [] \<Rightarrow> tm
      | caller # rest \<Rightarrow>
          tm\<lparr>caller_stack := rest,
             tm_sccall := tm_sccall tm @
               [\<lparr>caller_env_idx = ci_env_idx caller,
                 caller_storage_addr = storage_addr (ci_context caller),
                 caller_code_addr = code_addr (ci_context caller),
                 caller_op1_imm = ci_is_op1_imm caller,
                 clk_caller_call = ci_clk_caller_call caller,
                 clk_caller_ret = ci_clk_caller_call caller + 1,
                 reg_caller = ci_caller_reg caller,
                 callee_env_idx = callee_idx, clk_callee_end = clk_end\<rparr>]\<rparr>)"

definition build_trace :: "TxTraceManager \<Rightarrow> (ContractAddress \<rightharpoonup> u64 list) \<Rightarrow> TxExeTrace" where
  "build_trace tm accessed_bytecodes =
     \<lparr>t_programs = accessed_bytecodes, t_cpu = tm_cpu tm, t_env_mem = tm_env_mem tm, t_rc = tm_rc tm,
      t_bitwise = tm_bitwise tm, t_cmp = tm_cmp tm, t_poseidon = tm_poseidon tm,
      t_storage = tm_storage tm, t_tape = tm_tape tm, t_sccall = tm_sccall tm\<rparr>"

end
