(* ===== verification/Contract.thy ===== *)
theory Contract
  imports Trace
begin

text \<open>
  The contract executor (\<open>executor/src/contract_executor.rs\<close>) and the signature check it calls
  (\<open>executor/src/ecdsa.rs\<close>): operand access, one function per instruction handler, each
  returning the state difference and the trace difference, the application of a difference, one
  step, and the main loop \<open>resume\<close>.
\<close>

subsection \<open>State\<close>

datatype (plugins only: code) ExecuteMode = Invoke | Call | PreExecute | Debug

datatype (plugins only: code) OlaContractExecutorState =
    Running
  | DelegateCalling ContractAddress
  | Calling ContractAddress
  | End "u64 list"

record OlaContractExecutor =
  mode :: ExecuteMode
  exe_context :: ExeContext
  clk :: u64
  pc :: u64
  psp_start :: u64
  registers :: "u64 list"
  memory :: OlaMemory
  instructions :: "u64 \<rightharpoonup> BinaryInstruction"
  exe_output :: "u64 list"
  exe_state :: OlaContractExecutorState

definition MAX_CLK :: u64 where
  "MAX_CLK = 1000000000000"

fun load_instructions :: "u64 \<Rightarrow> (u64 \<rightharpoonup> BinaryInstruction) \<Rightarrow> BinaryInstruction list \<Rightarrow> (u64 \<rightharpoonup> BinaryInstruction)" where
  "load_instructions index m [] = m"
| "load_instructions index m (i # is) =
     load_instructions (index + of_nat (binary_length i)) (m(index \<mapsto> i)) is"

definition executor_new :: "ExecuteMode \<Rightarrow> ExeContext \<Rightarrow> BinaryProgram \<Rightarrow> OlaContractExecutor result" where
  "executor_new md ct program =
     (case decode_binary_program_to_instructions program of
        Inl err \<Rightarrow> fail (InstructionsInitError err)
      | Inr instruction_vec \<Rightarrow>
          if instruction_vec = [] then fail (InstructionsInitError InstructionsEmpty)
          else Inr \<lparr>mode = md, exe_context = ct, clk = 0, pc = 0, psp_start = mem_psp mem_default,
                    registers = replicate NUM_GENERAL_PURPOSE_REGISTER 0, memory = mem_default,
                    instructions = load_instructions 0 Map.empty instruction_vec,
                    exe_output = [], exe_state = Running\<rparr>)"

subsection \<open>Operands\<close>

definition get_reg :: "OlaContractExecutor \<Rightarrow> OlaRegister \<Rightarrow> u64" where
  "get_reg e r = registers e ! reg_index r"

definition get_fp :: "OlaContractExecutor \<Rightarrow> u64" where
  "get_fp e = get_reg e R9"

text \<open>\<open>value.to_u64()?\<close>\<close>

definition imm_value :: "ImmediateValue \<Rightarrow> u64 result" where
  "imm_value v = (case imm_to_u64 v of Inr x \<Rightarrow> Inr x | Inl err \<Rightarrow> Inl (ParseInt err))"

fun get_operand_value :: "OlaContractExecutor \<Rightarrow> OlaOperand \<Rightarrow> u64 result" where
  "get_operand_value e (ImmediateOperand value) = imm_value value"
| "get_operand_value e (RegisterOperand register) = Inr (get_reg e register)"
| "get_operand_value e (RegisterWithOffset register offset) =
     rbind (imm_value offset) (\<lambda>v.
       Inr (to_canonical_u64 (gf_add (from_canonical_u64 (get_reg e register)) (from_canonical_u64 v))))"
| "get_operand_value e (RegisterWithFactor register factor) =
     rbind (imm_value factor) (\<lambda>v.
       Inr (to_canonical_u64 (gf_mul (from_canonical_u64 (get_reg e register)) (from_canonical_u64 v))))"
| "get_operand_value e (SpecialReg PC) = Inl (Anyhow PcCannotBeOperand)"
| "get_operand_value e (SpecialReg PSP) = Inr (psp_start e)"

text \<open>The text \<open>opcode.to_string()\<close> in the messages.\<close>

abbreviation opc_string :: "BinaryInstruction \<Rightarrow> string" where
  "opc_string i \<equiv> opcode_to_string (opcode i)"

definition operand_or_fail ::
    "OlaContractExecutor \<Rightarrow> string \<Rightarrow> BinaryInstruction \<Rightarrow> OlaOperand option \<Rightarrow> u64 result" where
  "operand_or_fail e name i x =
     (case x of
        Some op \<Rightarrow> get_operand_value e op
      | None \<Rightarrow> fail (InvalidInstruction (MustSet name (opc_string i))))"

definition dst_reg_or_fail :: "BinaryInstruction \<Rightarrow> OlaRegister result" where
  "dst_reg_or_fail i =
     (case dst i of
        Some (RegisterOperand register) \<Rightarrow> Inr register
      | Some _ \<Rightarrow> fail (InvalidInstruction (DstMustBeRegister (opc_string i)))
      | None \<Rightarrow> fail (InvalidInstruction (MustSet ''dst'' (opc_string i))))"

definition get_op1 :: "OlaContractExecutor \<Rightarrow> BinaryInstruction \<Rightarrow> u64 result" where
  "get_op1 e i = operand_or_fail e ''op1'' i (op1 i)"

definition get_op1_and_dst_reg :: "OlaContractExecutor \<Rightarrow> BinaryInstruction \<Rightarrow> (u64 \<times> OlaRegister) result" where
  "get_op1_and_dst_reg e i =
     rbind (operand_or_fail e ''op1'' i (op1 i)) (\<lambda>v1.
     rbind (dst_reg_or_fail i) (\<lambda>r. Inr (v1, r)))"

definition get_op0_op1 :: "OlaContractExecutor \<Rightarrow> BinaryInstruction \<Rightarrow> (u64 \<times> u64) result" where
  "get_op0_op1 e i =
     rbind (operand_or_fail e ''op0'' i (op0 i)) (\<lambda>v0.
     rbind (operand_or_fail e ''op1'' i (op1 i)) (\<lambda>v1. Inr (v0, v1)))"

definition get_op0_op1_and_dst_reg ::
    "OlaContractExecutor \<Rightarrow> BinaryInstruction \<Rightarrow> (u64 \<times> u64 \<times> OlaRegister) result" where
  "get_op0_op1_and_dst_reg e i =
     rbind (operand_or_fail e ''op0'' i (op0 i)) (\<lambda>v0.
     rbind (operand_or_fail e ''op1'' i (op1 i)) (\<lambda>v1.
     rbind (dst_reg_or_fail i) (\<lambda>r. Inr (v0, v1, r))))"

definition get_op0_op1_and_dst ::
    "OlaContractExecutor \<Rightarrow> BinaryInstruction \<Rightarrow> (u64 \<times> u64 \<times> u64) result" where
  "get_op0_op1_and_dst e i =
     rbind (operand_or_fail e ''op0'' i (op0 i)) (\<lambda>v0.
     rbind (operand_or_fail e ''op1'' i (op1 i)) (\<lambda>v1.
     rbind (operand_or_fail e ''dst'' i (dst i)) (\<lambda>d. Inr (v0, v1, d))))"

subsection \<open>State and trace differences\<close>

definition next_pc :: "OlaContractExecutor \<Rightarrow> BinaryInstruction \<Rightarrow> u64" where
  "next_pc e i = pc e + of_nat (binary_length i)"

definition spec_pc :: "u64 \<Rightarrow> OlaStateDiff" where
  "spec_pc v = SpecReg \<lparr>sr_pc = Some v\<rparr>"

definition get_state_diff_only_dst_reg ::
    "OlaContractExecutor \<Rightarrow> BinaryInstruction \<Rightarrow> OlaRegister \<Rightarrow> u64 \<Rightarrow> OlaStateDiff list" where
  "get_state_diff_only_dst_reg e i r v =
     [spec_pc (next_pc e i), RegisterD [\<lparr>rd_register = r, rd_value = v\<rparr>]]"

definition is_trace_needed :: "OlaContractExecutor \<Rightarrow> bool" where
  "is_trace_needed e \<longleftrightarrow> mode e = Invoke \<or> mode e = Debug"

definition reg_sel :: "u64 \<Rightarrow> nat \<Rightarrow> u64 list" where
  "reg_sel w base = map (\<lambda>index. drop_bit (base + index) w AND 1) [0..<10]"

definition get_common_cpu_exe_pieces ::
    "OlaContractExecutor \<Rightarrow> BinaryInstruction \<Rightarrow> u64 \<Rightarrow> u64 option \<Rightarrow> u64 option \<Rightarrow> u64 option
      \<Rightarrow> CpuExePiece result" where
  "get_common_cpu_exe_pieces e i tp o0 o1 d =
     rbind (get_inst_imm_u64 i) (\<lambda>(inst, im).
       Inr \<lparr>cpu_clk = clk e, cpu_pc = pc e, cpu_psp = mem_psp (memory e), cpu_tp = tp,
            cpu_registers = registers e, cpu_instruction = inst, cpu_imm = im,
            cpu_opcode = binary_bit_mask (opcode i), cpu_op0 = o0, cpu_op1 = o1, cpu_dst = d,
            cpu_aux0 = None, cpu_aux1 = None,
            op0_reg_sel = reg_sel inst 52, op1_reg_sel = reg_sel inst 42, dst_reg_sel = reg_sel inst 32,
            is_ext_line = False, ext_cnt = 0, aux_sccall = None\<rparr>)"

definition empty_diff :: "CpuExePiece list \<Rightarrow> ExeTraceStepDiff" where
  "empty_diff cpus =
     \<lparr>d_cpu = cpus, d_mem = None, d_rc = None, d_bitwise = None, d_cmp = None, d_poseidon = None,
      d_storage = None, d_tape = None\<rparr>"

definition get_trace_diff_with_cpu ::
    "OlaContractExecutor \<Rightarrow> BinaryInstruction \<Rightarrow> u64 \<Rightarrow> u64 option \<Rightarrow> u64 option \<Rightarrow> u64 option
      \<Rightarrow> ExeTraceStepDiff result" where
  "get_trace_diff_with_cpu e i tp o0 o1 d =
     rbind (get_common_cpu_exe_pieces e i tp o0 o1 d) (\<lambda>cpu. Inr (empty_diff [cpu]))"

text \<open>\<open>if self.is_trace_needed() { Some(..?) } else { None }\<close>\<close>

definition traced :: "OlaContractExecutor \<Rightarrow> ExeTraceStepDiff result \<Rightarrow> ExeTraceStepDiff option result" where
  "traced e d = (if is_trace_needed e then rbind d (\<lambda>x. Inr (Some x)) else Inr None)"

type_synonym step_diffs = "OlaStateDiff list \<times> ExeTraceStepDiff option"

definition mem_piece :: "OlaContractExecutor \<Rightarrow> BinaryInstruction \<Rightarrow> bool \<Rightarrow> u64 \<times> u64 \<Rightarrow> MemExePiece" where
  "mem_piece e i w = (\<lambda>(a, v).
     \<lparr>me_clk = clk e, me_addr = a, me_value = v, me_is_write = w, me_opcode = Some (opcode i)\<rparr>)"

definition mem_diff_of :: "(u64 \<times> u64) list \<Rightarrow> OlaStateDiff" where
  "mem_diff_of avs = MemoryD (map (\<lambda>(a, v). \<lparr>md_addr = a, md_value = v\<rparr>) avs)"


text \<open>The range \<open>a..b\<close> over \<open>u64\<close>.\<close>

definition u64_range :: "u64 \<Rightarrow> u64 \<Rightarrow> u64 list" where
  "u64_range a b = (if a < b then addr_run a (unat (b - a)) else [])"

definition four_from :: "u64 \<Rightarrow> u64 list" where
  "four_from a = [a, a + 1, a + 2, a + 3]"

subsection \<open>Arithmetic, control flow and memory instructions\<close>

definition arith_result :: "BinaryInstruction \<Rightarrow> u64 \<Rightarrow> u64 \<Rightarrow> u64 result" where
  "arith_result i a b =
     (case opcode i of
        ADD \<Rightarrow> Inr (to_canonical_u64 (gf_add (from_canonical_u64 a) (from_canonical_u64 b)))
      | MUL \<Rightarrow> Inr (to_canonical_u64 (gf_mul (from_canonical_u64 a) (from_canonical_u64 b)))
      | EQ \<Rightarrow> Inr (if a = b then 1 else 0)
      | AND_OP \<Rightarrow> Inr (a AND b)
      | OR_OP \<Rightarrow> Inr (a OR b)
      | XOR_OP \<Rightarrow> Inr (a XOR b)
      | NEQ \<Rightarrow> Inr (if a \<noteq> b then 1 else 0)
      | GTE \<Rightarrow> Inr (if b \<le> a then 1 else 0)
      | _ \<Rightarrow> fail (InvalidInstruction (NotTwoOperandsArithmetic (opc_string i))))"

definition process_two_operands_arithmetic_op ::
    "OlaContractExecutor \<Rightarrow> u64 \<Rightarrow> BinaryInstruction \<Rightarrow> step_diffs result" where
  "process_two_operands_arithmetic_op e tp i =
     rbind (get_op0_op1_and_dst_reg e i) (\<lambda>(v0, v1, dst_reg).
     rbind (guard (Processor (InvalidInstruction (OperandsMustBeU32 (opc_string i))))
        (\<not> (opcode i \<in> {AND_OP, OR_OP, XOR_OP, GTE} \<and> (0xFFFFFFFF \<le> v0 \<or> 0xFFFFFFFF \<le> v1)))) (\<lambda>_.
     rbind (arith_result i v0 v1) (\<lambda>res.
     rbind (traced e (get_trace_diff_with_cpu e i tp (Some v0) (Some v1) (Some res))) (\<lambda>trace_diff.
       Inr (get_state_diff_only_dst_reg e i dst_reg res, trace_diff)))))"

definition process_assert :: "OlaContractExecutor \<Rightarrow> u64 \<Rightarrow> BinaryInstruction \<Rightarrow> step_diffs result" where
  "process_assert e tp i =
     rbind (case op1 i of
              Some (RegisterOperand register) \<Rightarrow> Inr (get_reg e register, register)
            | Some _ \<Rightarrow> Inl (Panicked PanicTodo)
            | None \<Rightarrow> fail (InvalidInstruction (MustSet ''op0'' (opc_string i)))) (\<lambda>(v1, op1_reg).
     rbind (guard (Processor (AssertFail (of_nat (reg_index op1_reg)) v1)) (v1 = 1)) (\<lambda>_.
     rbind (traced e (get_trace_diff_with_cpu e i tp None (Some v1) None)) (\<lambda>trace_diff.
       Inr ([spec_pc (next_pc e i)], trace_diff))))"

definition process_mov :: "OlaContractExecutor \<Rightarrow> u64 \<Rightarrow> BinaryInstruction \<Rightarrow> step_diffs result" where
  "process_mov e tp i =
     rbind (get_op1_and_dst_reg e i) (\<lambda>(v1, dst_reg).
     rbind (traced e (get_trace_diff_with_cpu e i tp None (Some v1) (Some v1))) (\<lambda>trace_diff.
       Inr ([spec_pc (next_pc e i), RegisterD [\<lparr>rd_register = dst_reg, rd_value = v1\<rparr>]], trace_diff)))"

definition jmp_condition :: "OlaContractExecutor \<Rightarrow> BinaryInstruction \<Rightarrow> u64 option result" where
  "jmp_condition e i =
     (case op0 i of
        Some operand \<Rightarrow>
          if opcode i = CJMP then
            rbind (get_operand_value e operand) (\<lambda>v.
              if v \<noteq> 1 \<and> v \<noteq> 0 then fail (InvalidInstruction CjmpOp0MustBeBinary) else Inr (Some v))
          else fail (InvalidInstruction (Op0CannotBeSet (opc_string i)))
      | None \<Rightarrow>
          if opcode i = CJMP then fail (InvalidInstruction (MustSet ''op0'' (opc_string i))) else Inr None)"

definition process_jmp :: "OlaContractExecutor \<Rightarrow> u64 \<Rightarrow> BinaryInstruction \<Rightarrow> step_diffs result" where
  "process_jmp e tp i =
     rbind (jmp_condition e i) (\<lambda>v0.
     rbind (get_op1 e i) (\<lambda>v1.
     let is_jumping = (if opcode i = CJMP then v0 = Some 1 else True);
         new_pc = (if is_jumping then v1 else next_pc e i)
     in rbind (traced e (get_trace_diff_with_cpu e i tp None (Some v1) None)) (\<lambda>trace_diff.
          Inr ([spec_pc new_pc], trace_diff))))"

definition process_call :: "OlaContractExecutor \<Rightarrow> u64 \<Rightarrow> BinaryInstruction \<Rightarrow> step_diffs result" where
  "process_call e tp i =
     rbind (get_op1 e i) (\<lambda>v1.
     let ret_pc = next_pc e i; fp = get_fp e
     in rbind (traced e
          (rbind (get_trace_diff_with_cpu e i tp None (Some v1) None) (\<lambda>diff.
           rbind (mem_read (memory e) (fp - 2)) (\<lambda>ret_fp.
             Inr (diff\<lparr>d_mem := Some [mem_piece e i True (fp - 1, ret_pc),
                                     mem_piece e i False (fp - 2, ret_fp)]\<rparr>)))))
        (\<lambda>trace_diff. Inr ([spec_pc v1, mem_diff_of [(fp - 1, ret_pc)]], trace_diff)))"

definition process_ret :: "OlaContractExecutor \<Rightarrow> u64 \<Rightarrow> BinaryInstruction \<Rightarrow> step_diffs result" where
  "process_ret e tp i =
     (let fp = get_fp e in
      rbind (mem_read (memory e) (fp - 1)) (\<lambda>ret_pc.
      rbind (mem_read (memory e) (fp - 2)) (\<lambda>ret_fp.
      rbind (traced e
          (rbind (get_trace_diff_with_cpu e i tp None None None) (\<lambda>diff.
             Inr (diff\<lparr>d_mem := Some [mem_piece e i False (fp - 1, ret_pc),
                                     mem_piece e i False (fp - 2, ret_fp)]\<rparr>))))
        (\<lambda>trace_diff.
           Inr ([spec_pc ret_pc, RegisterD [\<lparr>rd_register = R9, rd_value = ret_fp\<rparr>]], trace_diff)))))"

text \<open>The address of \<open>mload\<close> and \<open>mstore\<close>, and their common trace line.\<close>

definition field_addr :: "u64 \<Rightarrow> u64 \<Rightarrow> u64" where
  "field_addr anchor offset = to_canonical_u64 (gf_add (from_canonical_u64 anchor) (from_canonical_u64 offset))"

definition op1_register_value :: "OlaContractExecutor \<Rightarrow> OlaOperand \<Rightarrow> u64" where
  "op1_register_value e x =
     (case x of
        RegisterOperand r \<Rightarrow> get_reg e r
      | RegisterWithOffset r _ \<Rightarrow> get_reg e r
      | RegisterWithFactor r _ \<Rightarrow> get_reg e r
      | _ \<Rightarrow> 0)"

definition mem_access_trace ::
    "OlaContractExecutor \<Rightarrow> u64 \<Rightarrow> BinaryInstruction \<Rightarrow> u64 \<Rightarrow> u64 \<Rightarrow> u64 \<Rightarrow> u64 \<Rightarrow> bool
      \<Rightarrow> ExeTraceStepDiff result" where
  "mem_access_trace e tp i anchor offset addr v is_write =
     rbind (get_inst_imm_u64 i) (\<lambda>(instruction_u64, im).
     rbind (ok_or (Panicked PanicUnwrapNone) (op1 i)) (\<lambda>o1.
     let imm_flag = (drop_bit 62 instruction_u64 AND 1 = 1);
         aux0 = (if \<not> imm_flag then Some (case im of Some x \<Rightarrow> x | None \<Rightarrow> 0) else Some 0);
         v1 = (if \<not> imm_flag then op1_register_value e o1 else offset)
     in rbind (get_common_cpu_exe_pieces e i tp (Some anchor) (Some v1) (Some v)) (\<lambda>cpu.
          Inr ((empty_diff [cpu\<lparr>cpu_aux0 := aux0, cpu_aux1 := Some addr\<rparr>])
                 \<lparr>d_mem := Some [mem_piece e i is_write (addr, v)]\<rparr>))))"

definition process_mload :: "OlaContractExecutor \<Rightarrow> u64 \<Rightarrow> BinaryInstruction \<Rightarrow> step_diffs result" where
  "process_mload e tp i =
     rbind (get_op0_op1_and_dst_reg e i) (\<lambda>(anchor, offset, value_reg).
     let addr = field_addr anchor offset
     in rbind (mem_read (memory e) addr) (\<lambda>v.
        rbind (traced e (mem_access_trace e tp i anchor offset addr v False)) (\<lambda>trace_diff.
          Inr (get_state_diff_only_dst_reg e i value_reg v, trace_diff))))"

definition process_mstore :: "OlaContractExecutor \<Rightarrow> u64 \<Rightarrow> BinaryInstruction \<Rightarrow> step_diffs result" where
  "process_mstore e tp i =
     rbind (get_op0_op1_and_dst_reg e i) (\<lambda>(anchor, offset, value_reg).
     let v = get_reg e value_reg; addr = field_addr anchor offset
     in rbind (traced e (mem_access_trace e tp i anchor offset addr v True)) (\<lambda>trace_diff.
          Inr ([spec_pc (next_pc e i), mem_diff_of [(addr, v)]], trace_diff)))"

definition process_end :: "OlaContractExecutor \<Rightarrow> u64 \<Rightarrow> BinaryInstruction \<Rightarrow> step_diffs result" where
  "process_end e tp i =
     rbind (traced e (get_trace_diff_with_cpu e i tp None None None)) (\<lambda>trace_diff.
       Inr ([spec_pc (next_pc e i)], trace_diff))"

definition process_rc :: "OlaContractExecutor \<Rightarrow> u64 \<Rightarrow> BinaryInstruction \<Rightarrow> step_diffs result" where
  "process_rc e tp i =
     rbind (get_op1 e i) (\<lambda>v1.
     rbind (guard (Processor U32RangeCheckFail) (\<not> 0xFFFFFFFF < v1)) (\<lambda>_.
     rbind (traced e
        (rbind (get_trace_diff_with_cpu e i tp None (Some v1) None) (\<lambda>diff.
           Inr (diff\<lparr>d_rc := Some \<lparr>rc_value = ucast v1\<rparr>\<rparr>)))) (\<lambda>trace_diff.
       Inr ([spec_pc (next_pc e i)], trace_diff))))"

definition process_not :: "OlaContractExecutor \<Rightarrow> u64 \<Rightarrow> BinaryInstruction \<Rightarrow> step_diffs result" where
  "process_not e tp i =
     rbind (get_op1_and_dst_reg e i) (\<lambda>(v1, dst_reg).
     let res = to_canonical_u64 (gf_sub NEG_ONE (from_canonical_u64 v1))
     in rbind (traced e (get_trace_diff_with_cpu e i tp None (Some v1) (Some res))) (\<lambda>trace_diff.
          Inr (get_state_diff_only_dst_reg e i dst_reg res, trace_diff)))"

definition process_poseidon :: "OlaContractExecutor \<Rightarrow> u64 \<Rightarrow> BinaryInstruction \<Rightarrow> step_diffs result" where
  "process_poseidon e tp i =
     rbind (get_op0_op1_and_dst e i) (\<lambda>(v0, v1, d).
     rbind (mem_batch_read (memory e) v0 v1) (\<lambda>ins.
     let outs = calculate_arbitrary_poseidon_u64s ins
     in rbind (traced e
          (rbind (get_trace_diff_with_cpu e i tp (Some v0) (Some v1) (Some d)) (\<lambda>diff.
             Inr (diff\<lparr>d_poseidon := Some \<lparr>po_env_idx = 0, po_clk = clk e, po_src_addr = v0,
                    po_len = v1, po_dst_addr = d, po_inputs = ins\<rparr>\<rparr>))))
        (\<lambda>trace_diff. Inr ([spec_pc (next_pc e i), mem_diff_of (zip (four_from d) outs)], trace_diff))))"


subsection \<open>Storage, tape, calls and events\<close>

definition read_four :: "OlaContractExecutor \<Rightarrow> u64 \<Rightarrow> u64 list result" where
  "read_four e a = rbind (mem_batch_read (memory e) a 4) (try_into_array 4)"

text \<open>The main line and the extension line of \<open>sload\<close> and \<open>sstore\<close>.\<close>

definition storage_lines ::
    "OlaContractExecutor \<Rightarrow> BinaryInstruction \<Rightarrow> u64 \<Rightarrow> u64 \<Rightarrow> u64 \<Rightarrow> OlaStorageKey \<Rightarrow> OlaStorageValue
      \<Rightarrow> OlaStorageKey \<Rightarrow> CpuExePiece list result" where
  "storage_lines e i tp v0 v1 storage_key v tree_key =
     rbind (get_common_cpu_exe_pieces e i tp (Some v0) (Some v1) None) (\<lambda>main_line.
       Inr [main_line,
            main_line\<lparr>op0_reg_sel := four_from v0 @ storage_key @ [0, 0],
                      op1_reg_sel := four_from v1 @ v @ [0, 0],
                      dst_reg_sel := tree_key @ replicate 6 0,
                      is_ext_line := True, ext_cnt := 1\<rparr>])"

definition process_sload ::
    "'c ext \<Rightarrow> OlaContractExecutor \<Rightarrow> u64 \<Rightarrow> BinaryInstruction \<Rightarrow> ('c, step_diffs) stor" where
  "process_sload E e tp i =
     sbind (slift (get_op0_op1 e i)) (\<lambda>(v0, v1).
     sbind (slift (read_four e v0)) (\<lambda>storage_key.
     sbind (sload E (storage_addr (exe_context e)) storage_key) (\<lambda>loaded_value.
     let v = (case loaded_value of Some x \<Rightarrow> x | None \<Rightarrow> [0, 0, 0, 0]);
         tree_key = get_tree_key (storage_addr (exe_context e)) storage_key
     in sbind (slift (traced e
          (rbind (storage_lines e i tp v0 v1 storage_key v tree_key) (\<lambda>cpus.
             Inr ((empty_diff cpus)
               \<lparr>d_mem := Some (map (mem_piece e i False) (zip (four_from v0) storage_key)
                             @ map (mem_piece e i True) (zip (four_from v1) v)),
                d_storage := Some \<lparr>st_is_write = False, st_contract_addr = storage_addr (exe_context e),
                   st_storage_key = storage_key, st_tree_key = tree_key,
                   st_pre_value = Some v, st_value = v\<rparr>\<rparr>)))))
        (\<lambda>trace_diff.
           slift (Inr ([spec_pc (next_pc e i), mem_diff_of (zip (four_from v1) v)], trace_diff))))))"

definition process_sstore ::
    "'c ext \<Rightarrow> OlaContractExecutor \<Rightarrow> u64 \<Rightarrow> BinaryInstruction \<Rightarrow> ('c, step_diffs) stor" where
  "process_sstore E e tp i =
     (if mode e = Call then slift (fail StorageStoreOnCallError)
      else
        sbind (slift (get_op0_op1 e i)) (\<lambda>(v0, v1).
        sbind (slift (read_four e v0)) (\<lambda>storage_key.
        sbind (slift (read_four e v1)) (\<lambda>v.
        sbind (storage_read E (storage_addr (exe_context e)) storage_key) (\<lambda>pre_value.
        let tree_key = get_tree_key (storage_addr (exe_context e)) storage_key
        in sbind (slift (traced e
             (rbind (storage_lines e i tp v0 v1 storage_key v tree_key) (\<lambda>cpus.
                Inr ((empty_diff cpus)
                  \<lparr>d_mem := Some (map (mem_piece e i True)
                              (zip (four_from v0 @ four_from v1) (storage_key @ v))),
                   d_storage := Some \<lparr>st_is_write = True, st_contract_addr = storage_addr (exe_context e),
                      st_storage_key = storage_key, st_tree_key = tree_key,
                      st_pre_value = pre_value, st_value = v\<rparr>\<rparr>)))))
           (\<lambda>trace_diff.
              slift (Inr ([spec_pc (next_pc e i),
                           StorageD [\<lparr>sd_storage_key = storage_key, sd_pre_value = pre_value,
                                      sd_value = v, sd_is_init = (pre_value = None)\<rparr>]], trace_diff))))))))"

text \<open>The extension lines of \<open>tload\<close> and \<open>tstore\<close>: line \<open>n\<close> has tape position \<open>tpf n\<close>.\<close>

definition tape_lines :: "CpuExePiece \<Rightarrow> (u64 \<Rightarrow> u64) \<Rightarrow> (u64 \<times> u64) list \<Rightarrow> CpuExePiece list" where
  "tape_lines main_line tpf avs =
     main_line #
       map (\<lambda>(n, (a, v)). main_line\<lparr>cpu_tp := tpf (of_nat n), is_ext_line := True,
                            ext_cnt := of_nat n + 1, cpu_aux0 := Some a, cpu_aux1 := Some v\<rparr>)
         (enumerate 0 avs)"

definition tape_piece :: "BinaryInstruction \<Rightarrow> u64 \<times> u64 \<Rightarrow> TapeExePiece" where
  "tape_piece i = (\<lambda>(a, v). \<lparr>te_addr = a, te_value = v, te_opcode = Some (opcode i)\<rparr>)"

definition process_tload :: "OlaContractExecutor \<Rightarrow> BinaryInstruction \<Rightarrow> OlaTape \<Rightarrow> step_diffs result" where
  "process_tload e i tape =
     rbind (get_op0_op1_and_dst e i) (\<lambda>(v0, v1, d).
     rbind (if v0 = 0 then rbind (tape_read_top tape v1) (\<lambda>v. Inr [v])
            else if v0 = 1 then tape_read_stack tape v1
            else fail (TapeAccessError (TloadInvalidOp0 v0))) (\<lambda>vals.
     let tp = tape_tp tape;
         cnt_load = of_nat (length vals);
         avs = zip (u64_range d (d + cnt_load)) vals
     in rbind (traced e
          (rbind (get_common_cpu_exe_pieces e i tp (Some v0) (Some v1) None) (\<lambda>main_line.
             Inr ((empty_diff (tape_lines main_line (\<lambda>n. if v0 = 0 then v1 else tp - cnt_load + n) avs))
               \<lparr>d_mem := Some (map (mem_piece e i True) avs),
                d_tape := Some (map (tape_piece i) avs)\<rparr>))))
        (\<lambda>trace_diff. Inr ([spec_pc (next_pc e i), mem_diff_of avs], trace_diff))))"

definition tape_diff_of :: "u64 list \<Rightarrow> OlaStateDiff" where
  "tape_diff_of vals = TapeD (map (\<lambda>v. \<lparr>td_value = v\<rparr>) vals)"

definition process_tstore :: "OlaContractExecutor \<Rightarrow> BinaryInstruction \<Rightarrow> OlaTape \<Rightarrow> step_diffs result" where
  "process_tstore e i tape =
     rbind (get_op0_op1 e i) (\<lambda>(v0, v1).
     rbind (mem_batch_read (memory e) v0 v1) (\<lambda>vals.
     let tp = tape_tp tape;
         avs = zip (u64_range tp (tp + v1)) vals
     in rbind (traced e
          (rbind (get_common_cpu_exe_pieces e i tp (Some v0) (Some v1) None) (\<lambda>main_line.
             Inr ((empty_diff (tape_lines main_line (\<lambda>n. tp + n) avs))
               \<lparr>d_mem := Some (map (mem_piece e i False) (zip (u64_range v0 (v0 + v1)) vals)),
                d_tape := Some (map (tape_piece i) avs)\<rparr>))))
        (\<lambda>trace_diff. Inr ([spec_pc (next_pc e i), tape_diff_of vals], trace_diff))))"

definition process_sccall :: "OlaContractExecutor \<Rightarrow> BinaryInstruction \<Rightarrow> OlaTape \<Rightarrow> step_diffs result" where
  "process_sccall e i tape =
     rbind (get_op0_op1 e i) (\<lambda>(v0, v1).
     rbind (read_four e v0) (\<lambda>callee.
     let addr_caller = storage_addr (exe_context e);
         callee_storage = (if v1 = 1 then addr_caller else callee);
         tape_values = addr_caller @ callee @ callee_storage;
         tp = tape_tp tape
     in rbind (traced e
          (rbind (get_common_cpu_exe_pieces e i tp (Some v0) (Some v1) None) (\<lambda>main_line.
             Inr ((empty_diff
                 [main_line,
                  main_line\<lparr>op0_reg_sel := replicate 10 0, op1_reg_sel := replicate 10 0,
                            dst_reg_sel := replicate 10 0, is_ext_line := True, ext_cnt := 1,
                            aux_sccall := Some \<lparr>addr_callee_storage = callee_storage,
                                               addr_callee_code = callee\<rparr>\<rparr>])
               \<lparr>d_mem := Some (map (mem_piece e i False) (zip (four_from v0) callee)),
                d_tape := Some (map (tape_piece i) (zip (u64_range tp (tp + 12)) tape_values))\<rparr>))))
        (\<lambda>trace_diff. Inr ([spec_pc (next_pc e i), tape_diff_of tape_values], trace_diff))))"

definition msg_ecdsa_verify ::
    "'c ext \<Rightarrow> u64 list \<Rightarrow> u64 list \<Rightarrow> u64 list \<Rightarrow> u64 list \<Rightarrow> u64 list \<Rightarrow> bool result" where
  "msg_ecdsa_verify E msg x y r s =
     (let pub_key_bytes = [4] @ u64s_to_bytes x @ u64s_to_bytes y;
          signature_bytes = u64s_to_bytes r @ u64s_to_bytes s;
          msg_arr = u64s_to_bytes msg
      in case secp_pubkey_error E pub_key_bytes of
           Some err \<Rightarrow> fail (PubKeyInvalid err)
         | None \<Rightarrow>
             (case secp_signature_error E signature_bytes of
                Some err \<Rightarrow> fail (SignatureInvalid err)
              | None \<Rightarrow>
                  (case secp_message_error E msg_arr of
                     Some err \<Rightarrow> fail (MessageInvalid err)
                   | None \<Rightarrow> Inr (secp_verify E msg_arr signature_bytes pub_key_bytes))))"

definition process_sigcheck ::
    "'c ext \<Rightarrow> OlaContractExecutor \<Rightarrow> u64 \<Rightarrow> BinaryInstruction \<Rightarrow> step_diffs result" where
  "process_sigcheck E e tp i =
     rbind (get_op1_and_dst_reg e i) (\<lambda>(v1, dst_reg).
     rbind (mem_batch_read (memory e) v1 20) (\<lambda>params.
     rbind (msg_ecdsa_verify E (slice 0 4 params) (slice 4 8 params) (slice 8 12 params)
              (slice 12 16 params) (slice 16 20 params)) (\<lambda>verified.
     let res = (if verified then 1 else 0)
     in rbind (traced e (get_trace_diff_with_cpu e i tp None (Some v1) (Some res))) (\<lambda>trace_diff.
          Inr (get_state_diff_only_dst_reg e i dst_reg res, trace_diff)))))"

definition process_event ::
    "OlaContractExecutor \<Rightarrow> u64 \<Rightarrow> BinaryInstruction \<Rightarrow> TxEventManager \<Rightarrow> (TxEventManager \<times> step_diffs) result" where
  "process_event e tp i em =
     (if mode e = Call then fail EventOnCallError
      else
        rbind (get_op0_op1 e i) (\<lambda>(v0, v1).
        rbind (mem_read (memory e) v0) (\<lambda>topic_len.
        rbind (mem_batch_read (memory e) (v0 + 1) topic_len) (\<lambda>topic_start_addrs.
        rbind (traverse (read_four e) topic_start_addrs) (\<lambda>topics.
        rbind (mem_read (memory e) v1) (\<lambda>data_length.
        rbind (mem_batch_read (memory e) (v1 + 1) data_length) (\<lambda>data.
        rbind (traced e (get_trace_diff_with_cpu e i tp (Some v0) (Some v1) None)) (\<lambda>trace_diff.
          Inr (on_event em topics data, ([spec_pc (next_pc e i)], trace_diff))))))))))"


subsection \<open>Prophets\<close>

fun get_number :: "Number \<Rightarrow> u64 result" where
  "get_number (Felt num) = Inr (word_of_int num)"
| "get_number (I32 num) = Inr (word_of_int num)"
| "get_number (Bool_num b) = Inr (if b then 1 else 0)"
| "get_number Nil_num = Inl (Panicked PanicWrongType)"

text \<open>The capture of \<open>^%\{([\s\S]*)%}$\<close>.\<close>

definition prophet_code :: "string \<Rightarrow> string option" where
  "prophet_code s =
     (if 4 \<le> length s \<and> take 2 s = ''%{'' \<and> drop (length s - 2) s = ''%}''
      then Some (take (length s - 4) (drop 2 s)) else None)"

definition prophet_input :: "OlaContractExecutor \<Rightarrow> u64 list \<Rightarrow> OlaProphetInput \<Rightarrow> u64 list result" where
  "prophet_input e flatten_inputs input =
     (let enqueued_len = of_nat (length flatten_inputs);
          len = in_length input;
          regs = (\<lambda>a b. map (\<lambda>k. registers e ! unat k) (u64_range a b));
          fp = get_fp e
      in rbind
        (if enqueued_len < 3 \<and> enqueued_len + len < 3 then
           Inr (regs (enqueued_len + 1) (enqueued_len + 1 + len))
         else if enqueued_len < 3 \<and> 3 \<le> enqueued_len + len then
           (let register_loaded = regs (enqueued_len + 1) 4
            in rbind (mem_batch_read (memory e) (fp - 3) (len - of_nat (length register_loaded)))
                 (\<lambda>mem_loaded. Inr (register_loaded @ rev mem_loaded)))
         else
           rbind (mem_batch_read (memory e) (fp - enqueued_len - len + 1) len) (\<lambda>loaded. Inr (rev loaded)))
        (\<lambda>origin_values.
           if in_is_ref input
           then rbind (traverse (mem_read (memory e)) origin_values) (\<lambda>vs. Inr (flatten_inputs @ vs))
           else Inr (flatten_inputs @ origin_values)))"

fun prophet_outcome ::
    "OlaContractExecutor \<Rightarrow> interp_failure + NumberRet
      \<Rightarrow> (OlaContractExecutor \<times> MemoryDiff list \<times> MemExePiece list) result" where
  "prophet_outcome e (Inl (InterpErr err)) = fail (InterpreterRunError err)"
| "prophet_outcome e (Inl InterpPanic) = Inl (Panicked PanicExpect)"
| "prophet_outcome e (Inr (Single _)) = fail ParseIntError"
| "prophet_outcome e (Inr (Multiple vals)) =
     (let psp = mem_psp (memory e)
      in rbind (traverse get_number (butlast vals)) (\<lambda>ns.
           Inr (e\<lparr>psp_start := psp\<rparr>,
                map (\<lambda>v. \<lparr>md_addr = psp, md_value = v\<rparr>) ns,
                map (\<lambda>v. \<lparr>me_clk = 0, me_addr = psp, me_value = v, me_is_write = True, me_opcode = None\<rparr>) ns)))"

definition process_prophet ::
    "'c ext \<Rightarrow> OlaContractExecutor \<Rightarrow> OlaProphet
      \<Rightarrow> (OlaContractExecutor \<times> MemoryDiff list \<times> MemExePiece list) result" where
  "process_prophet E e proph =
     rbind (ok_or (Processor (RegexCaptureError ''Regex capture failed in prophet code''))
              (prophet_code (code proph))) (\<lambda>text.
     rbind (rfold (prophet_input e) [] (inputs proph)) (\<lambda>flatten_inputs.
       prophet_outcome e
         (interpreter_run E text (proph\<lparr>ctx := ctx proph @ [(''_heap_ptr'', mem_hp (memory e))]\<rparr>)
            flatten_inputs (memory e))))"

subsection \<open>One step\<close>

definition apply_diff ::
    "'c ext \<Rightarrow> OlaContractExecutor \<times> OlaTape \<Rightarrow> OlaStateDiff \<Rightarrow> ('c, OlaContractExecutor \<times> OlaTape) stor" where
  "apply_diff E = (\<lambda>(e, tape) diff.
     (case diff of
        SpecReg d \<Rightarrow>
          slift (Inr (case sr_pc d of Some v \<Rightarrow> e\<lparr>pc := v\<rparr> | None \<Rightarrow> e, tape))
      | RegisterD ds \<Rightarrow>
          slift (Inr (e\<lparr>registers :=
            foldl (\<lambda>rs d. rs[reg_index (rd_register d) := rd_value d]) (registers e) ds\<rparr>, tape))
      | MemoryD ds \<Rightarrow>
          slift (rbind (rfold (\<lambda>m d. mem_write m (md_addr d) (md_value d)) (memory e) ds)
            (\<lambda>m. Inr (e\<lparr>memory := m\<rparr>, tape)))
      | StorageD ds \<Rightarrow>
          sfold (\<lambda>et d. sbind (sstore E (storage_addr (exe_context e)) (sd_storage_key d) (sd_value d))
                          (\<lambda>_. slift (Inr et))) (e, tape) ds
      | TapeD ds \<Rightarrow>
          slift (Inr (e\<lparr>exe_output := exe_output e @ map td_value ds\<rparr>,
                      foldl tape_write tape (map td_value ds)))))"

definition apply_state_diff ::
    "'c ext \<Rightarrow> OlaContractExecutor \<Rightarrow> OlaTape \<Rightarrow> OlaStateDiff list
      \<Rightarrow> ('c, OlaContractExecutor \<times> OlaTape) stor" where
  "apply_state_diff E e tape diffs = sfold (apply_diff E) (e, tape) diffs"

definition dispatch ::
    "'c ext \<Rightarrow> OlaContractExecutor \<Rightarrow> BinaryInstruction \<Rightarrow> OlaTape \<Rightarrow> TxEventManager
      \<Rightarrow> ('c, TxEventManager \<times> step_diffs) stor" where
  "dispatch E e i tape em =
     (let tp = tape_tp tape;
          pure = (\<lambda>r. slift (rbind r (\<lambda>d. Inr (em, d))))
      in case opcode i of
        ADD \<Rightarrow> pure (process_two_operands_arithmetic_op e tp i)
      | MUL \<Rightarrow> pure (process_two_operands_arithmetic_op e tp i)
      | EQ \<Rightarrow> pure (process_two_operands_arithmetic_op e tp i)
      | AND_OP \<Rightarrow> pure (process_two_operands_arithmetic_op e tp i)
      | OR_OP \<Rightarrow> pure (process_two_operands_arithmetic_op e tp i)
      | XOR_OP \<Rightarrow> pure (process_two_operands_arithmetic_op e tp i)
      | NEQ \<Rightarrow> pure (process_two_operands_arithmetic_op e tp i)
      | GTE \<Rightarrow> pure (process_two_operands_arithmetic_op e tp i)
      | ASSERT \<Rightarrow> pure (process_assert e tp i)
      | MOV \<Rightarrow> pure (process_mov e tp i)
      | JMP \<Rightarrow> pure (process_jmp e tp i)
      | CJMP \<Rightarrow> pure (process_jmp e tp i)
      | CALL \<Rightarrow> pure (process_call e tp i)
      | RET \<Rightarrow> pure (process_ret e tp i)
      | MLOAD \<Rightarrow> pure (process_mload e tp i)
      | MSTORE \<Rightarrow> pure (process_mstore e tp i)
      | END \<Rightarrow> pure (process_end e tp i)
      | RC \<Rightarrow> pure (process_rc e tp i)
      | NOT_OP \<Rightarrow> pure (process_not e tp i)
      | POSEIDON \<Rightarrow> pure (process_poseidon e tp i)
      | SLOAD \<Rightarrow> sbind (process_sload E e tp i) (\<lambda>d. slift (Inr (em, d)))
      | SSTORE \<Rightarrow> sbind (process_sstore E e tp i) (\<lambda>d. slift (Inr (em, d)))
      | TLOAD \<Rightarrow> pure (process_tload e i tape)
      | TSTORE \<Rightarrow> pure (process_tstore e i tape)
      | SCCALL \<Rightarrow> pure (process_sccall e i tape)
      | SIGCHECK \<Rightarrow> pure (process_sigcheck E e tp i)
      | EVENT \<Rightarrow> slift (process_event e tp i em))"

definition merge_prophet_trace ::
    "ExeTraceStepDiff option \<Rightarrow> MemExePiece list \<Rightarrow> ExeTraceStepDiff" where
  "merge_prophet_trace trace_diff pieces =
     (case trace_diff of
        Some diff \<Rightarrow>
          diff\<lparr>d_mem := Some (case d_mem diff of Some origin \<Rightarrow> origin @ pieces | None \<Rightarrow> pieces)\<rparr>
      | None \<Rightarrow> (empty_diff [])\<lparr>d_mem := Some pieces\<rparr>)"

definition process_step ::
    "'c ext \<Rightarrow> OlaContractExecutor \<Rightarrow> BinaryInstruction \<Rightarrow> OlaTape \<Rightarrow> TxEventManager
      \<Rightarrow> ('c, OlaContractExecutor \<times> OlaTape \<times> TxEventManager \<times> ExeTraceStepDiff option) stor" where
  "process_step E e i tape em =
     sbind (dispatch E e i tape em) (\<lambda>(em', (state_diff, trace_diff)).
     sbind (apply_state_diff E e tape state_diff) (\<lambda>(e1, tape1).
     (case prophet i of
        None \<Rightarrow> slift (Inr (e1, tape1, em', trace_diff))
      | Some proph \<Rightarrow>
          sbind (slift (process_prophet E e1 proph)) (\<lambda>(e2, exe_mem_diffs, trace_mem_diffs).
          sbind (apply_state_diff E e2 tape1 [MemoryD exe_mem_diffs]) (\<lambda>(e3, tape3).
            slift (Inr (e3, tape3, em', Some (merge_prophet_trace trace_diff trace_mem_diffs))))))))"

text \<open>What the manager of a transaction passes to each step by mutable reference.\<close>

record TxWorld =
  w_tape :: OlaTape
  w_events :: TxEventManager
  w_trace :: TxTraceManager

definition sccall_params :: "OlaContractExecutor \<Rightarrow> BinaryInstruction \<Rightarrow> (u64 \<times> ContractAddress) option result" where
  "sccall_params e i =
     (if opcode i = SCCALL then
        rbind (get_op0_op1 e i) (\<lambda>(v0, v1). rbind (read_four e v0) (\<lambda>callee. Inr (Some (v1, callee))))
      else Inr None)"

definition step_outcome ::
    "OlaContractExecutor \<Rightarrow> BinaryInstruction \<Rightarrow> (u64 \<times> ContractAddress) option
      \<Rightarrow> (OlaContractExecutorState \<times> OlaContractExecutor) result" where
  "step_outcome e i params =
     (case opcode i of
        SCCALL \<Rightarrow>
          (case params of
             Some (is_delegate_call, callee) \<Rightarrow>
               let state = (if is_delegate_call = 1 then DelegateCalling callee else Calling callee)
               in Inr (state, e\<lparr>exe_output := [], exe_state := state\<rparr>)
           | None \<Rightarrow> Inl (Panicked PanicUnwrapNone))
      | END \<Rightarrow> (let state = End (exe_output e) in Inr (state, e\<lparr>exe_state := state\<rparr>))
      | _ \<Rightarrow> Inr (Running, e))"

definition run_one_step ::
    "'c ext \<Rightarrow> BinaryInstruction \<Rightarrow> OlaContractExecutor \<Rightarrow> TxWorld
      \<Rightarrow> ('c, OlaContractExecutorState \<times> OlaContractExecutor \<times> TxWorld) stor" where
  "run_one_step E i e w =
     sbind (slift (sccall_params e i)) (\<lambda>params.
     sbind (process_step E e i (w_tape w) (w_events w)) (\<lambda>(e1, tape, em, trace_diff).
     let e2 = e1\<lparr>clk := clk e1 + 1\<rparr>;
         tm = (case trace_diff of Some d \<Rightarrow> on_step (w_trace w) d | None \<Rightarrow> w_trace w);
         w' = w\<lparr>w_tape := tape, w_events := em, w_trace := tm\<rparr>
     in slift (rbind (step_outcome e2 i params) (\<lambda>(state, e3). Inr (state, e3, w')))))"

text \<open>\<open>on_step_err\<close> only prints, and only in debug mode, but printing the instruction may panic.\<close>

definition on_step_err :: "OlaContractExecutor \<Rightarrow> BinaryInstruction \<Rightarrow> anyhow_error \<Rightarrow> anyhow_error" where
  "on_step_err e i err =
     (case err of
        Panicked _ \<Rightarrow> err
      | _ \<Rightarrow> if mode e = Debug then (case get_asm_form_code i of Inl p \<Rightarrow> p | Inr _ \<Rightarrow> err) else err)"


subsection \<open>What a step leaves alone\<close>

text \<open>The part of the executor no instruction changes, and the clock.\<close>

definition fixed_part :: "OlaContractExecutor \<Rightarrow> ExecuteMode \<times> ExeContext \<times> u64 \<times> (u64 \<rightharpoonup> BinaryInstruction)" where
  "fixed_part e = (mode e, exe_context e, clk e, instructions e)"

lemma fixed_part_updates [simp]:
  "fixed_part (e\<lparr>pc := v\<rparr>) = fixed_part e"
  "fixed_part (e\<lparr>registers := rs\<rparr>) = fixed_part e"
  "fixed_part (e\<lparr>memory := m\<rparr>) = fixed_part e"
  "fixed_part (e\<lparr>exe_output := os\<rparr>) = fixed_part e"
  "fixed_part (e\<lparr>psp_start := v\<rparr>) = fixed_part e"
  "fixed_part (e\<lparr>exe_state := x\<rparr>) = fixed_part e"
  by (simp_all add: fixed_part_def)

lemma sfold_const_Inr: "sfold (\<lambda>a x. sbind (g x) (\<lambda>_. slift (Inr a))) a xs st = (st', Inr b) \<Longrightarrow> b = a"
  by (induction xs arbitrary: st) (auto simp: sbind_Inr_iff)

lemma apply_diff_fixed:
  assumes "apply_diff E (e, tape) d st = (st', Inr (e', tape'))"
  shows "fixed_part e' = fixed_part e"
  using assms
  by (cases d) (auto simp: apply_diff_def rbind_Inr_iff dest!: sfold_const_Inr split: option.splits)

lemma apply_state_diff_fixed:
  "apply_state_diff E e tape ds st = (st', Inr (e', tape')) \<Longrightarrow> fixed_part e' = fixed_part e"
  unfolding apply_state_diff_def
proof (induction ds arbitrary: e tape st)
  case (Cons d ds)
  then obtain st1 e1 tape1 where "apply_diff E (e, tape) d st = (st1, Inr (e1, tape1))"
      "sfold (apply_diff E) (e1, tape1) ds st1 = (st', Inr (e', tape'))"
    by (auto simp: sbind_Inr_iff)
  with Cons.IH apply_diff_fixed show ?case by metis
qed simp

lemma prophet_outcome_Inr:
  "prophet_outcome e r = Inr (e', ds, ts) \<Longrightarrow>
     e' = e\<lparr>psp_start := mem_psp (memory e)\<rparr> \<and>
     (\<exists>ns. ds = map (\<lambda>v. \<lparr>md_addr = mem_psp (memory e), md_value = v\<rparr>) ns \<and>
       ts = map (\<lambda>v. \<lparr>me_clk = 0, me_addr = mem_psp (memory e), me_value = v, me_is_write = True,
                     me_opcode = None\<rparr>) ns)"
  by (cases "(e, r)" rule: prophet_outcome.cases) (auto simp: Let_def rbind_Inr_iff)

lemma process_prophet_Inr:
  assumes "process_prophet E e p = Inr (e', ds, ts)"
  shows "e' = e\<lparr>psp_start := mem_psp (memory e)\<rparr>"
    "\<exists>ns. ds = map (\<lambda>v. \<lparr>md_addr = mem_psp (memory e), md_value = v\<rparr>) ns \<and>
       ts = map (\<lambda>v. \<lparr>me_clk = 0, me_addr = mem_psp (memory e), me_value = v, me_is_write = True,
                     me_opcode = None\<rparr>) ns"
  using assms by (auto simp: process_prophet_def rbind_Inr_iff dest!: prophet_outcome_Inr)

lemma process_step_fixed:
  assumes "process_step E e i tape em st = (st', Inr (e', tape', em', td))"
  shows "fixed_part e' = fixed_part e"
  using assms
  by (auto simp: process_step_def sbind_Inr_iff dest!: apply_state_diff_fixed process_prophet_Inr(1)
      split: option.splits)

lemma step_outcome_fixed:
  "step_outcome e i ps = Inr (s, e') \<Longrightarrow> fixed_part e' = fixed_part e"
  by (auto simp: step_outcome_def Let_def split: OlaOpcode.splits option.splits prod.splits)

lemma run_one_step_clk:
  assumes "run_one_step E i e w st = (st', Inr (s, e', w'))"
  shows "clk e' = clk e + 1" "mode e' = mode e" "exe_context e' = exe_context e"
    "instructions e' = instructions e"
proof -
  from assms obtain st1 st2 ps e1 tape em td where
      p: "process_step E e i (w_tape w) (w_events w) st1 = (st2, Inr (e1, tape, em, td))" and
      o: "step_outcome (e1\<lparr>clk := clk e1 + 1\<rparr>) i ps = Inr (s, e')"
    by (auto simp: run_one_step_def sbind_Inr_iff rbind_Inr_iff Let_def)
  from process_step_fixed [OF p] step_outcome_fixed [OF o]
  show "clk e' = clk e + 1" "mode e' = mode e" "exe_context e' = exe_context e"
    "instructions e' = instructions e"
    by (simp_all add: fixed_part_def)
qed

subsection \<open>The main loop\<close>

text \<open>
  The loop ends: the clock grows by one with every step, and the loop is left when it reaches \<open>MAX_CLK\<close>.
\<close>

function resume ::
    "'c ext \<Rightarrow> OlaContractExecutor \<Rightarrow> TxWorld \<Rightarrow> 'c OlaCachedStorage
      \<Rightarrow> 'c OlaCachedStorage \<times> (OlaContractExecutorState \<times> OlaContractExecutor \<times> TxWorld) result" where
  "resume E e w st =
     (case instructions e (pc e) of
        None \<Rightarrow> (st, fail (PcVistInv (pc e)))
      | Some i \<Rightarrow>
          (case run_one_step E i e w st of
             (st', Inl err) \<Rightarrow> (st', Inl (on_step_err e i err))
           | (st', Inr (s, e', w')) \<Rightarrow>
               if s = Running then
                 (if MAX_CLK \<le> clk e' then (st', fail (CpuLifeCycleOverflow (clk e')))
                  else resume E e' w' st')
               else (st', Inr (s, e', w'))))"
  by pat_completeness auto

definition clk_left :: "u64 \<Rightarrow> nat" where
  "clk_left c = (if c < MAX_CLK then unat MAX_CLK - unat c else unat MAX_CLK + 1)"

lemma clk_left_decreases:
  assumes "c + 1 < MAX_CLK"
  shows "clk_left (c + 1) < clk_left c"
proof (cases "c < MAX_CLK")
  case True
  then have c: "unat c < 1000000000000" by (simp add: MAX_CLK_def word_less_nat_alt)
  then have "unat (c + 1) = unat c + 1" by (simp add: unat_word_ariths)
  with assms True c show ?thesis by (simp add: clk_left_def MAX_CLK_def word_less_nat_alt)
next
  case False
  with assms show ?thesis by (simp add: clk_left_def)
qed

termination resume
  by (relation "measure (\<lambda>(E, e, w, st). clk_left (clk e))")
    (auto simp: not_le run_one_step_clk(1) [OF sym] intro: clk_left_decreases)

declare resume.simps [simp del]

text \<open>An invariant of executor and world that every step keeps holds when the loop returns.\<close>

lemma resume_invariant:
  assumes step: "\<And>i e w st st' s e' w'. instructions e (pc e) = Some i \<Longrightarrow> Q e w \<Longrightarrow>
      run_one_step E i e w st = (st', Inr (s, e', w')) \<Longrightarrow> Q e' w'"
  shows "resume E e w st = (st', Inr (s, e', w')) \<Longrightarrow> Q e w \<Longrightarrow> Q e' w'"
proof (induction "clk_left (clk e)" arbitrary: e w st rule: less_induct)
  case less
  from less.prems(1) obtain i where i: "instructions e (pc e) = Some i"
    by (auto simp: resume.simps [of E e w st] split: option.splits)
  with less.prems(1) obtain st1 s1 e1 w1 where r: "run_one_step E i e w st = (st1, Inr (s1, e1, w1))"
    by (auto simp: resume.simps [of E e w st] split: prod.splits sum.splits)
  have Q1: "Q e1 w1" by (rule step [OF i less.prems(2) r])
  show ?case
  proof (cases "s1 = Running")
    case True
    with less.prems(1) i r have c: "clk e1 < MAX_CLK" and l: "resume E e1 w1 st1 = (st', Inr (s, e', w'))"
      by (auto simp: resume.simps [of E e w st] split: if_splits)
    have "clk_left (clk e1) < clk_left (clk e)"
      using c run_one_step_clk(1) [OF r] by (simp add: clk_left_decreases)
    then show ?thesis using l Q1 by (rule less.hyps)
  next
    case False
    with less.prems(1) i r have "e' = e1" "w' = w1" by (auto simp: resume.simps [of E e w st])
    with Q1 show ?thesis by simp
  qed
qed

end
