(* ===== verification/TxManager.thy ===== *)
theory TxManager
  imports Contract
begin

text \<open>
  Transactions and blocks: \<open>executor/src/tx_exe_manager.rs\<close> (the stack of contract environments of one
  transaction), \<open>executor/src/batch_exe_manager.rs\<close> (the transactions of a block over one storage) and
  \<open>executor/src/tx_pre_executor.rs\<close>. The loops over environments may run forever, since contracts may
  call each other without bound: they are partial functions, and not returning is \<open>None\<close>.
\<close>

subsection \<open>Types\<close>

record OlaTapeInitInfo =
  version :: u64
  origin_address :: "u64 list"
  calldata :: "u64 list"
  nonce :: "u64 option"
  signature_r :: "u64 list option"
  signature_s :: "u64 list option"
  tx_hash :: "u64 list option"

record BlockExeInfo =
  bi_block_number :: u64
  bi_block_timestamp :: u64
  sequencer_address :: "u64 list"
  chain_id :: u64

record TxResult =
  r_trace :: TxExeTrace
  r_storage_access_logs :: "StorageAccessLog list"
  r_events :: "Event list"

record BatchResult =
  br_tx_traces :: "TxExeTrace list"
  br_storage_access_logs :: "StorageAccessLog list"
  br_events :: "Event list"
  br_block_tip_queries :: "StorageAccessLog list"

definition ADDR_U64_ENTRYPOINT :: ContractAddress where
  "ADDR_U64_ENTRYPOINT = [0, 0, 0, 32769]"

definition FUNCTION_SELECTOR_SYSTEM_ENTRANCE :: u64 where
  "FUNCTION_SELECTOR_SYSTEM_ENTRANCE = 3234502684"

text \<open>The environment stack has its top at the head.\<close>

record TxExeManager =
  tx_mode :: ExecuteMode
  next_env_idx :: u64
  env_stack :: "(u64 \<times> OlaContractExecutor) list"
  tx_world :: TxWorld
  entry_contract :: ContractAddress
  accessed_bytecodes :: "ContractAddress \<rightharpoonup> u64 list"

subsection \<open>Construction\<close>

definition tape_init_values :: "BlockExeInfo \<Rightarrow> OlaTapeInitInfo \<Rightarrow> ContractAddress \<Rightarrow> u64 list" where
  "tape_init_values block_info tx entry =
     [bi_block_number block_info, bi_block_timestamp block_info] @ sequencer_address block_info
     @ [version tx, chain_id block_info] @ origin_address tx
     @ [case nonce tx of Some n \<Rightarrow> n | None \<Rightarrow> 0]
     @ (case signature_r tx of Some r \<Rightarrow> r | None \<Rightarrow> replicate 4 0)
     @ (case signature_s tx of Some s \<Rightarrow> s | None \<Rightarrow> replicate 4 0)
     @ (case tx_hash tx of Some h \<Rightarrow> h | None \<Rightarrow> replicate 4 0)
     @ calldata tx @ origin_address tx @ entry @ entry"

definition biz_address :: "OlaTapeInitInfo \<Rightarrow> ContractAddress \<Rightarrow> ContractAddress" where
  "biz_address tx entry =
     (if entry = ADDR_U64_ENTRYPOINT then
        (if length (calldata tx) < 9 \<or> last (calldata tx) \<noteq> FUNCTION_SELECTOR_SYSTEM_ENTRANCE
         then entry else slice 4 8 (calldata tx))
      else entry)"

definition tx_manager_new ::
    "ExecuteMode \<Rightarrow> BlockExeInfo \<Rightarrow> OlaTapeInitInfo \<Rightarrow> ContractAddress \<Rightarrow> nat \<Rightarrow> TxExeManager" where
  "tx_manager_new md block_info tx entry prev_events =
     (let init_values = tape_init_values block_info tx entry
      in \<lparr>tx_mode = md, next_env_idx = 0, env_stack = [],
          tx_world =
            \<lparr>w_tape = tape_batch_write tape_default init_values,
             w_events = event_manager_new (bi_block_number block_info) prev_events (biz_address tx entry),
             w_trace = trace_init_tape trace_manager_default init_values\<rparr>,
          entry_contract = entry, accessed_bytecodes = Map.empty\<rparr>)"

subsection \<open>The environment stack\<close>

definition tx_is_trace_needed :: "TxExeManager \<Rightarrow> bool" where
  "tx_is_trace_needed m \<longleftrightarrow> tx_mode m = Invoke"

definition env_snapshot :: "u64 \<times> OlaContractExecutor \<Rightarrow> EnvOutlineSnapshot" where
  "env_snapshot = (\<lambda>(idx, e). \<lparr>eo_env_idx = idx, eo_clk = clk e, eo_pc = pc e, eo_context = exe_context e\<rparr>)"

definition pop_env :: "TxExeManager \<Rightarrow> ((u64 \<times> OlaContractExecutor) \<times> TxExeManager) option" where
  "pop_env m =
     (case env_stack m of
        [] \<Rightarrow> None
      | (idx, e) # rest \<Rightarrow>
          let caller = (case rest of [] \<Rightarrow> None | c # _ \<Rightarrow> Some (env_snapshot c));
              w = tx_world m;
              w' = (if tx_is_trace_needed m
                    then w\<lparr>w_trace := set_env (w_trace w) (next_env_idx m) idx (exe_context e) caller\<rparr>
                    else w)
          in Some ((idx, e), m\<lparr>env_stack := rest, tx_world := w'\<rparr>))"

definition enqueue_caller :: "u64 \<Rightarrow> OlaContractExecutor \<Rightarrow> TxExeManager \<Rightarrow> TxExeManager" where
  "enqueue_caller idx e m = m\<lparr>env_stack := (idx, e) # env_stack m\<rparr>"

definition enqueue_new_env :: "OlaContractExecutor \<Rightarrow> TxExeManager \<Rightarrow> TxExeManager" where
  "enqueue_new_env e m =
     m\<lparr>env_stack := (next_env_idx m, e) # env_stack m, next_env_idx := next_env_idx m + 1\<rparr>"

subsection \<open>Invocation\<close>

definition record_bytecode :: "ContractAddress \<Rightarrow> BinaryProgram \<Rightarrow> TxExeManager \<Rightarrow> TxExeManager result" where
  "record_bytecode addr program m =
     (case accessed_bytecodes m addr of
        Some _ \<Rightarrow> Inr m
      | None \<Rightarrow>
          rbind (bytecode_u64s program) (\<lambda>code64.
            Inr (m\<lparr>accessed_bytecodes := (accessed_bytecodes m)(addr \<mapsto> code64)\<rparr>)))"

text \<open>The bodies of the \<open>DelegateCalling\<close> and \<open>Calling\<close> arms of \<open>invoke\<close>, which differ in the storage
  address of the callee.\<close>

definition invoke_callee ::
    "'c ext \<Rightarrow> TxExeManager \<Rightarrow> u64 \<Rightarrow> OlaContractExecutor \<Rightarrow> ContractAddress \<Rightarrow> ContractAddress
      \<Rightarrow> ('c, TxExeManager) stor" where
  "invoke_callee E m idx e callee callee_storage =
     (let w = tx_world m;
          is_op1_imm = (instructions e (pc e - 2) \<noteq> None);
          w' = w\<lparr>w_trace := on_call (w_trace w) idx (exe_context e) is_op1_imm (clk e - 1) (registers e)\<rparr>
      in sbind (get_program E callee) (\<lambda>callee_program.
         slift
           (rbind (record_bytecode callee callee_program (enqueue_caller idx e (m\<lparr>tx_world := w'\<rparr>))) (\<lambda>m2.
            rbind (executor_new (tx_mode m) \<lparr>storage_addr = callee_storage, code_addr = callee\<rparr> callee_program)
              (\<lambda>callee_env. Inr (enqueue_new_env callee_env m2))))))"

definition invoke_next ::
    "'c ext \<Rightarrow> TxExeManager \<Rightarrow> u64 \<Rightarrow> OlaContractExecutor \<Rightarrow> OlaContractExecutorState
      \<Rightarrow> ('c, TxExeManager) stor" where
  "invoke_next E m idx e state =
     (case state of
        Running \<Rightarrow> slift (Inl (Anyhow ExecutorCannotBeRunning))
      | DelegateCalling callee \<Rightarrow> invoke_callee E m idx e callee (storage_addr (exe_context e))
      | Calling callee \<Rightarrow> invoke_callee E m idx e callee callee
      | End _ \<Rightarrow>
          let w = tx_world m
          in slift (Inr (m\<lparr>tx_world := w\<lparr>w_trace := on_end (w_trace w) idx (clk e - 1)\<rparr>\<rparr>)))"

definition invoke_iteration ::
    "'c ext \<Rightarrow> TxExeManager \<Rightarrow> u64 \<Rightarrow> OlaContractExecutor \<Rightarrow> ('c, TxExeManager) stor" where
  "invoke_iteration E m idx e =
     sbind (resume E e (tx_world m)) (\<lambda>(state, e', w'). invoke_next E (m\<lparr>tx_world := w'\<rparr>) idx e' state)"

partial_function (option) invoke_loop ::
    "'c ext \<Rightarrow> TxExeManager \<Rightarrow> 'c OlaCachedStorage \<Rightarrow> ('c OlaCachedStorage \<times> TxExeManager result) option" where
  "invoke_loop E m st =
     (case pop_env m of
        None \<Rightarrow> Some (st, Inr m)
      | Some ((idx, e), m1) \<Rightarrow>
          (case invoke_iteration E m1 idx e st of
             (st', Inl err) \<Rightarrow> Some (st', Inl err)
           | (st', Inr m2) \<Rightarrow> invoke_loop E m2 st'))"

definition invoke_start :: "'c ext \<Rightarrow> TxExeManager \<Rightarrow> ('c, TxExeManager) stor" where
  "invoke_start E m =
     sbind (get_program E (entry_contract m)) (\<lambda>program.
     slift
       (rbind (bytecode_u64s program) (\<lambda>code64.
        rbind (executor_new (tx_mode m)
                 \<lparr>storage_addr = entry_contract m, code_addr = entry_contract m\<rparr> program) (\<lambda>entry_env.
          Inr (enqueue_new_env entry_env
                 (m\<lparr>accessed_bytecodes := (accessed_bytecodes m)(entry_contract m \<mapsto> code64)\<rparr>))))))"

definition tx_invoke ::
    "'c ext \<Rightarrow> TxExeManager \<Rightarrow> 'c OlaCachedStorage \<Rightarrow> ('c OlaCachedStorage \<times> TxResult result) option" where
  "tx_invoke E m st =
     (case invoke_start E m st of
        (st1, Inl err) \<Rightarrow> Some (st1, Inl err)
      | (st1, Inr m1) \<Rightarrow>
          (case invoke_loop E m1 st1 of
             None \<Rightarrow> None
           | Some (st2, Inl err) \<Rightarrow> Some (st2, Inl err)
           | Some (st2, Inr m2) \<Rightarrow>
               Some (st2, Inr \<lparr>r_trace = build_trace (w_trace (tx_world m2)) (accessed_bytecodes m2),
                               r_storage_access_logs = tx_storage_logs st2,
                               r_events = em_events (w_events (tx_world m2))\<rparr>)))"

subsection \<open>Read-only calls\<close>

definition call_callee ::
    "'c ext \<Rightarrow> TxExeManager \<Rightarrow> u64 \<Rightarrow> OlaContractExecutor \<Rightarrow> ContractAddress \<Rightarrow> ContractAddress
      \<Rightarrow> ('c, TxExeManager) stor" where
  "call_callee E m idx e callee callee_storage =
     sbind (get_program E callee) (\<lambda>callee_program.
     slift
       (rbind (executor_new (tx_mode m) \<lparr>storage_addr = callee_storage, code_addr = callee\<rparr> callee_program)
          (\<lambda>callee_env. Inr (enqueue_new_env callee_env (enqueue_caller idx e m)))))"

text \<open>One iteration: the manager to continue with, or the output to return.\<close>

definition call_next ::
    "'c ext \<Rightarrow> TxExeManager \<Rightarrow> u64 \<Rightarrow> OlaContractExecutor \<Rightarrow> OlaContractExecutorState
      \<Rightarrow> ('c, TxExeManager + u64 list) stor" where
  "call_next E m idx e state =
     (case state of
        Running \<Rightarrow> slift (Inl (Anyhow ExecutorCannotBeRunning))
      | DelegateCalling callee \<Rightarrow>
          sbind (call_callee E m idx e callee (storage_addr (exe_context e))) (\<lambda>m2. slift (Inr (Inl m2)))
      | Calling callee \<Rightarrow> sbind (call_callee E m idx e callee callee) (\<lambda>m2. slift (Inr (Inl m2)))
      | End out \<Rightarrow> slift (Inr (if env_stack m = [] then Inr out else Inl m)))"

definition call_iteration ::
    "'c ext \<Rightarrow> TxExeManager \<Rightarrow> u64 \<Rightarrow> OlaContractExecutor \<Rightarrow> ('c, TxExeManager + u64 list) stor" where
  "call_iteration E m idx e =
     sbind (resume E e (tx_world m)) (\<lambda>(state, e', w'). call_next E (m\<lparr>tx_world := w'\<rparr>) idx e' state)"

partial_function (option) call_loop ::
    "'c ext \<Rightarrow> TxExeManager \<Rightarrow> 'c OlaCachedStorage \<Rightarrow> ('c OlaCachedStorage \<times> u64 list result) option" where
  "call_loop E m st =
     (case pop_env m of
        None \<Rightarrow> Some (st, Inr [])
      | Some ((idx, e), m1) \<Rightarrow>
          (case call_iteration E m1 idx e st of
             (st', Inl err) \<Rightarrow> Some (st', Inl err)
           | (st', Inr (Inr out)) \<Rightarrow> Some (st', Inr out)
           | (st', Inr (Inl m2)) \<Rightarrow> call_loop E m2 st'))"

definition call_start :: "'c ext \<Rightarrow> TxExeManager \<Rightarrow> ('c, TxExeManager) stor" where
  "call_start E m =
     sbind (get_program E (entry_contract m)) (\<lambda>program.
     slift
       (rbind (executor_new (tx_mode m)
                 \<lparr>storage_addr = entry_contract m, code_addr = entry_contract m\<rparr> program) (\<lambda>entry_env.
          Inr (enqueue_new_env entry_env m))))"

definition tx_call ::
    "'c ext \<Rightarrow> TxExeManager \<Rightarrow> 'c OlaCachedStorage \<Rightarrow> ('c OlaCachedStorage \<times> u64 list result) option" where
  "tx_call E m st =
     (case call_start E m st of
        (st1, Inl err) \<Rightarrow> Some (st1, Inl err)
      | (st1, Inr m1) \<Rightarrow> call_loop E m1 st1)"

subsection \<open>Blocks\<close>

record 'c BlockExeManager =
  block_info :: BlockExeInfo
  storage :: "'c OlaCachedStorage"
  tx_traces :: "TxExeTrace list"
  storage_access_logs :: "StorageAccessLog list"
  block_events :: "Event list"

definition block_manager_new :: "'c \<Rightarrow> u64 \<Rightarrow> u64 \<Rightarrow> u64 \<Rightarrow> ContractAddress \<Rightarrow> 'c BlockExeManager" where
  "block_manager_new empty_cache chain number timestamp sequencer =
     \<lparr>block_info = \<lparr>bi_block_number = number, bi_block_timestamp = timestamp,
                    sequencer_address = sequencer, chain_id = chain\<rparr>,
      storage = storage_new empty_cache (Some timestamp), tx_traces = [], storage_access_logs = [],
      block_events = []\<rparr>"

definition block_on_tx_success :: "TxResult \<Rightarrow> 'c BlockExeManager \<Rightarrow> 'c BlockExeManager" where
  "block_on_tx_success r b =
     b\<lparr>tx_traces := tx_traces b @ [r_trace r],
       storage_access_logs := storage_access_logs b @ r_storage_access_logs r,
       block_events := block_events b @ r_events r\<rparr>"

definition block_invoke ::
    "'c ext \<Rightarrow> OlaTapeInitInfo \<Rightarrow> 'c BlockExeManager \<Rightarrow> ('c BlockExeManager \<times> TxResult result) option" where
  "block_invoke E tx b =
     (let m = tx_manager_new Invoke (block_info b) tx ADDR_U64_ENTRYPOINT (length (block_events b))
      in case tx_invoke E m (clear_tx_cache (storage b)) of
           None \<Rightarrow> None
         | Some (st, Inl err) \<Rightarrow> Some (b\<lparr>storage := st\<rparr>, Inl err)
         | Some (st, Inr r) \<Rightarrow>
             Some (block_on_tx_success r (b\<lparr>storage := storage_on_tx_success st\<rparr>), Inr r))"

definition finish_tx :: "BlockExeInfo \<Rightarrow> OlaTapeInitInfo" where
  "finish_tx info =
     \<lparr>version = 0, origin_address = sequencer_address info,
      calldata = [bi_block_number info, 1, 2190639505],
      nonce = None, signature_r = None, signature_s = None, tx_hash = None\<rparr>"

definition finish_batch ::
    "'c ext \<Rightarrow> 'c BlockExeManager \<Rightarrow> ('c BlockExeManager \<times> BatchResult result) option" where
  "finish_batch E b =
     (let m = tx_manager_new Invoke (block_info b) (finish_tx (block_info b)) ADDR_U64_ENTRYPOINT
                (length (block_events b))
      in case tx_invoke E m (storage b) of
           None \<Rightarrow> None
         | Some (st, Inl err) \<Rightarrow> Some (b\<lparr>storage := st\<rparr>, Inl err)
         | Some (st, Inr r) \<Rightarrow>
             let b1 = block_on_tx_success r (b\<lparr>storage := storage_on_tx_success st\<rparr>)
             in Some (b1\<lparr>tx_traces := [], storage_access_logs := [], block_events := []\<rparr>,
                      Inr \<lparr>br_tx_traces = tx_traces b1, br_storage_access_logs = storage_access_logs b1,
                           br_events = block_events b1, br_block_tip_queries = tx_storage_logs st\<rparr>))"

record 'c TxPreExecutor =
  pre_block_info :: BlockExeInfo
  pre_storage :: "'c OlaCachedStorage"

definition pre_executor_new :: "'c \<Rightarrow> u64 \<Rightarrow> u64 \<Rightarrow> u64 \<Rightarrow> ContractAddress \<Rightarrow> 'c TxPreExecutor" where
  "pre_executor_new empty_cache chain number timestamp sequencer =
     \<lparr>pre_block_info = \<lparr>bi_block_number = number, bi_block_timestamp = timestamp,
                        sequencer_address = sequencer, chain_id = chain\<rparr>,
      pre_storage = storage_new empty_cache (Some timestamp)\<rparr>"

definition pre_invoke ::
    "'c ext \<Rightarrow> OlaTapeInitInfo \<Rightarrow> 'c TxPreExecutor \<Rightarrow> ('c TxPreExecutor \<times> unit result) option" where
  "pre_invoke E tx p =
     (let m = tx_manager_new PreExecute (pre_block_info p) tx ADDR_U64_ENTRYPOINT 0
      in case tx_invoke E m (clear_tx_cache (pre_storage p)) of
           None \<Rightarrow> None
         | Some (st, Inl err) \<Rightarrow> Some (p\<lparr>pre_storage := st\<rparr>, Inl err)
         | Some (st, Inr r) \<Rightarrow> Some (p\<lparr>pre_storage := storage_on_tx_success st\<rparr>, Inr ()))"

end
