(* ===== verification/StorageEffects.thy ===== *)
theory StorageEffects
  imports TxManager
begin

text \<open>
  What the executor, a transaction and a block may do to the storage. A relation between the storage
  before and after that the primitive storage operations respect (locale \<open>storage_relation\<close>) is
  respected by every step, by the main loop and by a whole transaction, whether it succeeds or
  fails. The locale is interpreted with \<open>block_extends\<close> (the committed state is untouched, and the
  transaction cache and the access log only grow); the read-only variant is interpreted with \<open>tx_unchanged\<close>.
\<close>

subsection \<open>Structural rules\<close>

lemma keeps_case_prod: "(\<And>a b. keeps R (f a b)) \<Longrightarrow> keeps R (case p of (a, b) \<Rightarrow> f a b)"
  by (cases p) simp

lemma keeps_case_option:
  "keeps R f \<Longrightarrow> (\<And>x. keeps R (g x)) \<Longrightarrow> keeps R (case y of None \<Rightarrow> f | Some x \<Rightarrow> g x)"
  by (cases y) simp_all

lemma keeps_if: "(b \<Longrightarrow> keeps R f) \<Longrightarrow> (\<not> b \<Longrightarrow> keeps R g) \<Longrightarrow> keeps R (if b then f else g)"
  by simp

lemmas keeps_rules = keeps_slift keeps_sbind keeps_sfold keeps_case_prod keeps_case_option keeps_if

locale read_relation =
  fixes E :: "'c ext" and R :: "'c OlaCachedStorage \<Rightarrow> 'c OlaCachedStorage \<Rightarrow> bool"
  assumes refl: "reflp R" and trans: "transp R"
    and keeps_sload: "keeps R (sload E a k)"
    and keeps_read: "keeps R (storage_read E a k)"
    and keeps_get_program: "keeps R (get_program E a)"
begin

lemmas rules = keeps_slift [OF refl] keeps_sbind [OF trans] keeps_sfold [OF refl trans]
  keeps_case_prod keeps_case_option keeps_if keeps_sload keeps_read keeps_get_program

lemma keeps_process_sload: "keeps R (process_sload E e tp i)"
  unfolding process_sload_def Let_def by (intro rules)

lemma keeps_process_sstore: "keeps R (process_sstore E e tp i)"
  unfolding process_sstore_def Let_def by (intro rules)

lemma keeps_dispatch: "keeps R (dispatch E e i tape em)"
  unfolding dispatch_def Let_def
  by (cases "opcode i") (simp_all add: rules keeps_process_sload keeps_process_sstore)

end

locale storage_relation = read_relation +
  assumes keeps_sstore: "keeps R (sstore E a k v)"
begin

lemma keeps_apply_diff: "keeps R (apply_diff E et d)"
  unfolding apply_diff_def by (cases et; cases d) (simp_all add: rules keeps_sstore)

lemma keeps_apply_state_diff: "keeps R (apply_state_diff E e tape ds)"
  unfolding apply_state_diff_def by (intro rules keeps_apply_diff)

lemma keeps_process_step: "keeps R (process_step E e i tape em)"
  unfolding process_step_def by (intro rules keeps_dispatch keeps_apply_state_diff)

lemma keeps_run_one_step: "keeps R (run_one_step E i e w)"
  unfolding run_one_step_def Let_def by (intro rules keeps_process_step)

lemma resume_related_aux: "E' = E \<Longrightarrow> R st (fst (resume E' e w st))"
proof (induction E' e w st rule: resume.induct)
  case (1 E' e w st)
  show ?case
  proof (cases "instructions e (pc e)")
    case None
    then show ?thesis using reflpD [OF refl] by (simp add: resume.simps)
  next
    case (Some i)
    obtain st' r where step: "run_one_step E i e w st = (st', r)" by (cases "run_one_step E i e w st")
    have R1: "R st st'" using keepsD [OF keeps_run_one_step step] .
    show ?thesis
    proof (cases r)
      case (Inl err)
      with Some step R1 "1.prems" show ?thesis by (simp add: resume.simps [of E])
    next
      case (Inr x)
      obtain s e' w' where x: "x = (s, e', w')" by (cases x)
      have "R st' (fst (resume E e' w' st'))" if "s = Running" "\<not> MAX_CLK \<le> clk e'"
        using "1.IH" [OF Some] step Inr x that "1.prems" by simp
      with Some step Inr x R1 "1.prems" show ?thesis
        using transpD [OF trans R1] by (simp add: resume.simps [of E e w st])
    qed
  qed
qed

lemma resume_related: "R st (fst (resume E e w st))"
  by (rule resume_related_aux) simp

lemma keeps_resume: "keeps R (resume E e w)"
  by (rule keepsI) (rule resume_related)

lemma keeps_invoke_callee: "keeps R (invoke_callee E m idx e callee cs)"
  unfolding invoke_callee_def Let_def by (intro rules)

lemma keeps_invoke_next: "keeps R (invoke_next E m idx e state)"
  by (cases state) (simp_all add: invoke_next_def Let_def rules keeps_invoke_callee)

lemma keeps_invoke_iteration: "keeps R (invoke_iteration E m idx e)"
  unfolding invoke_iteration_def by (intro rules keeps_resume keeps_invoke_next)

lemma invoke_loop_related_aux: "invoke_loop E' m st = Some y \<Longrightarrow> E' = E \<longrightarrow> R st (fst y)"
proof (rule invoke_loop.raw_induct [where P = "\<lambda>E' m st y. E' = E \<longrightarrow> R st (fst y)"], rule impI)
  fix loop E' m st y
  assume IH: "\<And>E' m st y. loop E' m st = Some y \<Longrightarrow> E' = E \<longrightarrow> R st (fst y)" and E: "E' = E"
    and body: "(case pop_env m of None \<Rightarrow> Some (st, Inr m)
      | Some ((idx, e), m1) \<Rightarrow> (case invoke_iteration E' m1 idx e st of
          (st', Inl err) \<Rightarrow> Some (st', Inl err) | (st', Inr m2) \<Rightarrow> loop E' m2 st')) = Some y"
  show "R st (fst y)"
  proof (cases "pop_env m")
    case None
    with body reflpD [OF refl] show ?thesis by auto
  next
    case (Some t)
    obtain idx e m1 where t: "t = ((idx, e), m1)" by (metis prod.exhaust)
    obtain st' r where it: "invoke_iteration E m1 idx e st = (st', r)"
      by (cases "invoke_iteration E m1 idx e st")
    have R1: "R st st'" using keepsD [OF keeps_invoke_iteration it] .
    show ?thesis
    proof (cases r)
      case (Inr m2)
      with body Some t it E have "loop E m2 st' = Some y" by simp
      with IH have "R st' (fst y)" by blast
      with R1 show ?thesis using transpD [OF trans] by blast
    qed (use body Some t it E R1 in auto)
  qed
qed

lemma invoke_loop_related: "invoke_loop E m st = Some (st', r) \<Longrightarrow> R st st'"
  using invoke_loop_related_aux by fastforce

lemma keeps_invoke_start: "keeps R (invoke_start E m)"
  unfolding invoke_start_def by (intro rules)

lemma tx_invoke_related:
  assumes "tx_invoke E m st = Some (st', r)"
  shows "R st st'"
proof -
  obtain st1 r1 where s: "invoke_start E m st = (st1, r1)" by (cases "invoke_start E m st")
  have R1: "R st st1" using keepsD [OF keeps_invoke_start s] .
  show ?thesis
  proof (cases r1)
    case (Inl err)
    with assms s R1 show ?thesis by (simp add: tx_invoke_def)
  next
    case (Inr m1)
    with assms s obtain r2 where "invoke_loop E m1 st1 = Some (st', r2)"
      by (auto simp: tx_invoke_def split: option.splits sum.splits)
    with R1 show ?thesis using invoke_loop_related transpD [OF trans] by blast
  qed
qed

end


subsection \<open>The committed state and the logs\<close>

definition block_extends :: "'c ext \<Rightarrow> 'c OlaCachedStorage \<Rightarrow> 'c OlaCachedStorage \<Rightarrow> bool" where
  "block_extends E st st' \<longleftrightarrow>
     block_view E st' = block_view E st \<and> storage_logs st' = storage_logs st \<and>
     block_timestamp st' = block_timestamp st \<and>
     dom (tx_cached_storage st) \<subseteq> dom (tx_cached_storage st') \<and>
     (\<exists>new. tx_storage_logs st' = tx_storage_logs st @ new)"

lemma block_extends_get_pre_value: "keeps (block_extends E) (get_pre_value E a k)"
proof (rule keepsI)
  fix st
  obtain st' r where g: "get_pre_value E a k st = (st', r)" by (cases "get_pre_value E a k st")
  from get_pre_value_views [OF g] g show "block_extends E st (fst (get_pre_value E a k st))"
    by (simp add: block_extends_def)
qed

lemma reflp_block_extends: "reflp (block_extends E)"
  by (rule reflpI) (simp add: block_extends_def)

lemma transp_block_extends: "transp (block_extends E)"
  by (rule transpI) (auto simp: block_extends_def)

lemma get_program_storage:
  "\<exists>cache. fst (get_program E a st) = st\<lparr>prog_cache := cache\<rparr>"
  by (auto simp: get_program_def split: prod.splits option.splits sum.splits)

interpretation ext: storage_relation E "block_extends E" for E
proof
  fix a k v
  show "keeps (block_extends E) (sload E a k)"
    unfolding sload_def
    by (rule keeps_sbind [OF transp_block_extends block_extends_get_pre_value])
      (rule keepsI, simp add: block_extends_def block_view_def)
  show "keeps (block_extends E) (storage_read E a k)"
    unfolding storage_read_def by (rule block_extends_get_pre_value)
  show "keeps (block_extends E) (get_program E a)"
  proof (rule keepsI)
    fix st
    from get_program_storage obtain c where "fst (get_program E a st) = st\<lparr>prog_cache := c\<rparr>" by metis
    then show "block_extends E st (fst (get_program E a st))"
      by (simp add: block_extends_def block_view_def)
  qed
  show "keeps (block_extends E) (sstore E a k v)"
    unfolding sstore_def storage_write_def Let_def
    by (rule keeps_sbind [OF transp_block_extends block_extends_get_pre_value])
      (rule keepsI, simp add: block_extends_def block_view_def subset_insertI)
qed (simp_all add: reflp_block_extends transp_block_extends)

subsection \<open>Read-only execution\<close>

fun is_storage_diff :: "OlaStateDiff \<Rightarrow> bool" where
  "is_storage_diff (StorageD _) = True"
| "is_storage_diff _ = False"

lemmas pure_handlers = process_two_operands_arithmetic_op_def process_assert_def process_mov_def
  process_jmp_def process_call_def process_ret_def process_mload_def process_mstore_def process_end_def
  process_rc_def process_not_def process_poseidon_def process_tload_def process_tstore_def
  process_sccall_def process_sigcheck_def process_event_def

lemma helper_diffs_no_storage [simp]:
  "\<not> is_storage_diff (spec_pc v)" "\<not> is_storage_diff (mem_diff_of avs)" "\<not> is_storage_diff (tape_diff_of vs)"
  "d \<in> set (get_state_diff_only_dst_reg e i r v) \<Longrightarrow> \<not> is_storage_diff d"
  by (auto simp: spec_pc_def mem_diff_of_def tape_diff_of_def get_state_diff_only_dst_reg_def)

lemma handler_no_storage:
  "process_two_operands_arithmetic_op e tp i = Inr (ds, td) \<Longrightarrow> d \<in> set ds \<Longrightarrow> \<not> is_storage_diff d"
  "process_assert e tp i = Inr (ds, td) \<Longrightarrow> d \<in> set ds \<Longrightarrow> \<not> is_storage_diff d"
  "process_mov e tp i = Inr (ds, td) \<Longrightarrow> d \<in> set ds \<Longrightarrow> \<not> is_storage_diff d"
  "process_jmp e tp i = Inr (ds, td) \<Longrightarrow> d \<in> set ds \<Longrightarrow> \<not> is_storage_diff d"
  "process_call e tp i = Inr (ds, td) \<Longrightarrow> d \<in> set ds \<Longrightarrow> \<not> is_storage_diff d"
  "process_ret e tp i = Inr (ds, td) \<Longrightarrow> d \<in> set ds \<Longrightarrow> \<not> is_storage_diff d"
  "process_mload e tp i = Inr (ds, td) \<Longrightarrow> d \<in> set ds \<Longrightarrow> \<not> is_storage_diff d"
  "process_mstore e tp i = Inr (ds, td) \<Longrightarrow> d \<in> set ds \<Longrightarrow> \<not> is_storage_diff d"
  "process_end e tp i = Inr (ds, td) \<Longrightarrow> d \<in> set ds \<Longrightarrow> \<not> is_storage_diff d"
  "process_rc e tp i = Inr (ds, td) \<Longrightarrow> d \<in> set ds \<Longrightarrow> \<not> is_storage_diff d"
  "process_not e tp i = Inr (ds, td) \<Longrightarrow> d \<in> set ds \<Longrightarrow> \<not> is_storage_diff d"
  "process_poseidon e tp i = Inr (ds, td) \<Longrightarrow> d \<in> set ds \<Longrightarrow> \<not> is_storage_diff d"
  "process_tload e i tape = Inr (ds, td) \<Longrightarrow> d \<in> set ds \<Longrightarrow> \<not> is_storage_diff d"
  "process_tstore e i tape = Inr (ds, td) \<Longrightarrow> d \<in> set ds \<Longrightarrow> \<not> is_storage_diff d"
  "process_sccall e i tape = Inr (ds, td) \<Longrightarrow> d \<in> set ds \<Longrightarrow> \<not> is_storage_diff d"
  "process_sigcheck E e tp i = Inr (ds, td) \<Longrightarrow> d \<in> set ds \<Longrightarrow> \<not> is_storage_diff d"
  by (auto simp: pure_handlers rbind_Inr_iff Let_def)

lemma sload_no_storage:
  "process_sload E e tp i st = (st', Inr (ds, td)) \<Longrightarrow> d \<in> set ds \<Longrightarrow> \<not> is_storage_diff d"
  by (auto simp: process_sload_def sbind_Inr_iff Let_def)

lemma dispatch_no_storage:
  assumes "dispatch E e i tape em st = (st', Inr (em', ds, td))" "opcode i = SSTORE \<longrightarrow> mode e = Call"
    "d \<in> set ds"
  shows "\<not> is_storage_diff d"
  using assms
  by (cases "opcode i")
    (auto simp: dispatch_def Let_def rbind_Inr_iff sbind_Inr_iff process_sstore_def process_event_def
      split: if_splits dest: handler_no_storage sload_no_storage)


lemma executor_new_mode: "executor_new md ct p = Inr e \<Longrightarrow> mode e = md"
  by (auto simp: executor_new_def split: sum.splits if_splits)

lemma resume_mode:
  assumes "resume E e w st = (st', Inr (s, e', w'))"
  shows "mode e' = mode e"
  by (rule resume_invariant [where Q = "\<lambda>e' w'. mode e' = mode e", OF _ assms])
    (auto dest: run_one_step_clk(2))

text \<open>A manager that runs a read-only call: every environment is in call mode.\<close>

definition call_ok :: "TxExeManager \<Rightarrow> bool" where
  "call_ok m \<longleftrightarrow> tx_mode m = Call \<and> (\<forall>(idx, e) \<in> set (env_stack m). mode e = Call)"

lemma call_ok_pop:
  "pop_env m = Some ((idx, e), m1) \<Longrightarrow> call_ok m \<Longrightarrow> mode e = Call \<and> call_ok m1"
  by (auto simp: pop_env_def call_ok_def Let_def split: list.splits)

lemma call_ok_callee:
  assumes "call_callee E m idx e a b st = (st', Inr m2)" "call_ok m" "mode e = Call"
  shows "call_ok m2"
  using assms
  by (auto simp: call_callee_def sbind_Inr_iff rbind_Inr_iff call_ok_def enqueue_new_env_def
      enqueue_caller_def dest!: executor_new_mode)

lemma call_ok_next:
  "call_next E m idx e s st = (st', Inr (Inl m2)) \<Longrightarrow> call_ok m \<Longrightarrow> mode e = Call \<Longrightarrow> call_ok m2"
  by (cases s) (auto simp: call_next_def sbind_Inr_iff intro: call_ok_callee split: if_splits)

lemma call_ok_iteration:
  assumes "call_iteration E m idx e st = (st', Inr (Inl m2))" "call_ok m" "mode e = Call"
  shows "call_ok m2"
proof -
  from assms(1) obtain st1 s e' w' where r: "resume E e (tx_world m) st = (st1, Inr (s, e', w'))"
    and rest: "call_next E (m\<lparr>tx_world := w'\<rparr>) idx e' s st1 = (st', Inr (Inl m2))"
    by (auto simp: call_iteration_def sbind_Inr_iff)
  have "call_ok (m\<lparr>tx_world := w'\<rparr>)" using assms(2) by (simp add: call_ok_def)
  with call_ok_next [OF rest] resume_mode [OF r] assms(3) show ?thesis by simp
qed

context read_relation
begin

lemma keeps_apply_diff_pure: "\<not> is_storage_diff d \<Longrightarrow> keeps R (apply_diff E et d)"
  unfolding apply_diff_def by (cases et; cases d) (simp_all add: rules)

lemma keeps_apply_pure:
  "\<forall>d \<in> set ds. \<not> is_storage_diff d \<Longrightarrow> keeps R (apply_state_diff E e tape ds)"
  unfolding apply_state_diff_def
proof (induction ds arbitrary: e tape)
  case (Cons d ds)
  then have "keeps R (sfold (apply_diff E) et ds)" for et by (cases et) simp
  with Cons.prems show ?case by (simp add: rules keeps_apply_diff_pure)
qed (simp add: rules)

lemma process_step_read_only:
  assumes "mode e = Call"
  shows "keeps R (process_step E e i tape em)"
proof (rule keepsI)
  fix st
  obtain st1 r where d: "dispatch E e i tape em st = (st1, r)" by (cases "dispatch E e i tape em st")
  have R1: "R st st1" using keepsD [OF keeps_dispatch d] .
  show "R st (fst (process_step E e i tape em st))"
  proof (cases r)
    case (Inr x)
    obtain em' ds td where x: "x = (em', ds, td)" by (cases x)
    have "\<forall>d \<in> set ds. \<not> is_storage_diff d"
      using dispatch_no_storage [of E e i tape em st st1 em' ds td] d Inr x assms by auto
    then have "keeps R (sbind (apply_state_diff E e tape ds) (\<lambda>(e1, tape1).
        case prophet i of None \<Rightarrow> slift (Inr (e1, tape1, em', td))
        | Some proph \<Rightarrow>
          sbind (slift (process_prophet E e1 proph)) (\<lambda>(e2, exe_mem_diffs, trace_mem_diffs).
          sbind (apply_state_diff E e2 tape1 [MemoryD exe_mem_diffs]) (\<lambda>(e3, tape3).
            slift (Inr (e3, tape3, em', Some (merge_prophet_trace td trace_mem_diffs)))))))"
      (is "keeps R ?rest")
      by (intro rules keeps_apply_pure) simp_all
    then have "R st1 (fst (?rest st1))" by (simp add: keeps_def)
    moreover have "process_step E e i tape em st = ?rest st1"
      by (simp add: process_step_def sbind_def [of "dispatch E e i tape em"] d Inr x)
    ultimately show ?thesis using R1 transpD [OF trans] by metis
  qed (use d R1 in \<open>simp add: process_step_def sbind_def\<close>)
qed

lemma run_one_step_read_only: "mode e = Call \<Longrightarrow> keeps R (run_one_step E i e w)"
  unfolding run_one_step_def Let_def by (intro rules process_step_read_only)

lemma resume_read_only_aux: "E' = E \<Longrightarrow> mode e = Call \<Longrightarrow> R st (fst (resume E' e w st))"
proof (induction E' e w st rule: resume.induct)
  case (1 E' e w st)
  show ?case
  proof (cases "instructions e (pc e)")
    case None
    then show ?thesis using reflpD [OF refl] by (simp add: resume.simps)
  next
    case (Some i)
    obtain st' r where step: "run_one_step E i e w st = (st', r)" by (cases "run_one_step E i e w st")
    have R1: "R st st'" using keepsD [OF run_one_step_read_only step] "1.prems"(2) .
    show ?thesis
    proof (cases r)
      case (Inl err)
      with Some step R1 "1.prems" show ?thesis by (simp add: resume.simps [of E])
    next
      case (Inr x)
      obtain s e' w' where x: "x = (s, e', w')" by (cases x)
      then have m: "mode e' = Call" using run_one_step_clk(2) [of E i e w st st' s e' w'] step Inr "1.prems" by simp
      have "R st' (fst (resume E e' w' st'))" if "s = Running" "\<not> MAX_CLK \<le> clk e'"
        using "1.IH" [OF Some] step Inr x that "1.prems" m by simp
      with Some step Inr x R1 "1.prems" show ?thesis
        using transpD [OF trans R1] by (simp add: resume.simps [of E e w st])
    qed
  qed
qed

lemma resume_read_only: "mode e = Call \<Longrightarrow> keeps R (resume E e w)"
  by (rule keepsI) (rule resume_read_only_aux, simp_all)

lemma call_next_read_only: "keeps R (call_next E m idx e state)"
  by (cases state) (simp_all add: call_next_def call_callee_def rules)

lemma call_iteration_read_only: "mode e = Call \<Longrightarrow> keeps R (call_iteration E m idx e)"
  unfolding call_iteration_def by (intro rules resume_read_only call_next_read_only)

lemma call_loop_read_only_aux:
  "call_loop E' m st = Some y \<Longrightarrow> E' = E \<longrightarrow> call_ok m \<longrightarrow> R st (fst y)"
proof (rule call_loop.raw_induct [where P = "\<lambda>E' m st y. E' = E \<longrightarrow> call_ok m \<longrightarrow> R st (fst y)"],
    intro impI)
  fix loop E' m st y
  assume IH: "\<And>E' m st y. loop E' m st = Some y \<Longrightarrow> E' = E \<longrightarrow> call_ok m \<longrightarrow> R st (fst y)"
    and E: "E' = E" and ok: "call_ok m"
    and body: "(case pop_env m of None \<Rightarrow> Some (st, Inr [])
      | Some ((idx, e), m1) \<Rightarrow> (case call_iteration E' m1 idx e st of
          (st', Inl err) \<Rightarrow> Some (st', Inl err) | (st', Inr (Inr out)) \<Rightarrow> Some (st', Inr out)
        | (st', Inr (Inl m2)) \<Rightarrow> loop E' m2 st')) = Some y"
  show "R st (fst y)"
  proof (cases "pop_env m")
    case None
    with body reflpD [OF refl] show ?thesis by auto
  next
    case (Some t)
    obtain idx e m1 where t: "t = ((idx, e), m1)" by (metis prod.exhaust)
    with Some ok have e: "mode e = Call" "call_ok m1" using call_ok_pop by blast+
    obtain st' r where it: "call_iteration E m1 idx e st = (st', r)"
      by (cases "call_iteration E m1 idx e st")
    have R1: "R st st'" using keepsD [OF call_iteration_read_only it] e(1) .
    consider err where "r = Inl err" | out where "r = Inr (Inr out)" | m2 where "r = Inr (Inl m2)"
      by (metis sum.exhaust)
    then show ?thesis
    proof cases
      case (3 m2)
      with body Some t it E have "loop E m2 st' = Some y" by simp
      moreover have "call_ok m2" using call_ok_iteration it 3 e by blast
      ultimately have "R st' (fst y)" using IH by blast
      with R1 show ?thesis using transpD [OF trans] by blast
    qed (use body Some t it E R1 in auto)
  qed
qed

lemma tx_call_read_only:
  assumes "tx_call E m st = Some (st', r)" "tx_mode m = Call" "env_stack m = []"
  shows "R st st'"
proof -
  obtain st1 r1 where s: "call_start E m st = (st1, r1)" by (cases "call_start E m st")
  have "keeps R (call_start E m)" unfolding call_start_def by (intro rules)
  then have R1: "R st st1" using s by (rule keepsD)
  show ?thesis
  proof (cases r1)
    case (Inl err)
    with assms s R1 show ?thesis by (simp add: tx_call_def)
  next
    case (Inr m1)
    have "call_ok m1"
      using s Inr assms(2,3)
      by (auto simp: call_start_def sbind_Inr_iff rbind_Inr_iff call_ok_def enqueue_new_env_def
          dest!: executor_new_mode)
    moreover have "call_loop E m1 st1 = Some (st', r)"
      using assms(1) s Inr by (simp add: tx_call_def)
    ultimately have "R st1 st'" using call_loop_read_only_aux [of E m1 st1 "(st', r)"] by simp
    then show ?thesis by (rule transpD [OF trans R1])
  qed
qed

end

text \<open>Read-only execution leaves the transaction cache alone, hence the whole view.\<close>

definition tx_unchanged :: "'c ext \<Rightarrow> 'c OlaCachedStorage \<Rightarrow> 'c OlaCachedStorage \<Rightarrow> bool" where
  "tx_unchanged E st st' \<longleftrightarrow>
     storage_view E st' = storage_view E st \<and> tx_cached_storage st' = tx_cached_storage st"

lemma tx_unchanged_get_pre_value: "keeps (tx_unchanged E) (get_pre_value E a k)"
proof (rule keepsI)
  fix st
  obtain st' r where g: "get_pre_value E a k st = (st', r)" by (cases "get_pre_value E a k st")
  from get_pre_value_views [OF g] g show "tx_unchanged E st (fst (get_pre_value E a k st))"
    by (simp add: tx_unchanged_def)
qed

interpretation ro: read_relation E "tx_unchanged E" for E
proof
  fix a k
  show t: "transp (tx_unchanged E)" by (rule transpI) (auto simp: tx_unchanged_def)
  show "keeps (tx_unchanged E) (sload E a k)"
    unfolding sload_def
    by (rule keeps_sbind [OF t tx_unchanged_get_pre_value])
      (rule keepsI, simp add: tx_unchanged_def view_defs)
  show "keeps (tx_unchanged E) (storage_read E a k)"
    unfolding storage_read_def by (rule tx_unchanged_get_pre_value)
  show "keeps (tx_unchanged E) (get_program E a)"
  proof (rule keepsI)
    fix st
    from get_program_storage obtain c where "fst (get_program E a st) = st\<lparr>prog_cache := c\<rparr>" by metis
    then show "tx_unchanged E st (fst (get_program E a st))"
      by (simp add: tx_unchanged_def view_defs)
  qed
qed (rule reflpI, simp add: tx_unchanged_def)

end
