(* ===== verification/TxProps.thy ===== *)
theory TxProps
  imports StorageEffects
begin

text \<open>
  Properties of whole transactions and blocks: the main loop ends in a proper state within the clock
  bound, the call stack of the trace is balanced, a failed transaction leaves the committed state
  alone (but leaks its access log), events are numbered consecutively, and a read-only call writes
  nothing.
\<close>

subsection \<open>The main loop\<close>

text \<open>The loop with a bound on the number of its iterations.\<close>

fun resume_steps ::
    "nat \<Rightarrow> 'c ext \<Rightarrow> OlaContractExecutor \<Rightarrow> TxWorld \<Rightarrow> 'c OlaCachedStorage
      \<Rightarrow> ('c OlaCachedStorage \<times> (OlaContractExecutorState \<times> OlaContractExecutor \<times> TxWorld) result) option" where
  "resume_steps 0 E e w st = None"
| "resume_steps (Suc n) E e w st =
     (case instructions e (pc e) of
        None \<Rightarrow> Some (st, fail (PcVistInv (pc e)))
      | Some i \<Rightarrow>
          (case run_one_step E i e w st of
             (st', Inl err) \<Rightarrow> Some (st', Inl (on_step_err e i err))
           | (st', Inr (s, e', w')) \<Rightarrow>
               if s \<noteq> Running then Some (st', Inr (s, e', w'))
               else if MAX_CLK \<le> clk e' then Some (st', fail (CpuLifeCycleOverflow (clk e')))
               else resume_steps n E e' w' st'))"

lemma resume_steps_enough:
  "clk_left (clk e) \<le> n \<Longrightarrow> resume_steps n E e w st = Some (resume E e w st)"
proof (induction n arbitrary: e w st)
  case 0
  then show ?case by (simp add: clk_left_def MAX_CLK_def word_less_nat_alt split: if_splits)
next
  case (Suc n)
  have "resume_steps n E e' w' st' = Some (resume E e' w' st')"
    if "run_one_step E i e w st = (st', Inr (s, e', w'))" "\<not> MAX_CLK \<le> clk e'" for i st' s e' w'
  proof (rule Suc.IH)
    have "clk_left (clk e') < clk_left (clk e)"
      using that run_one_step_clk(1) [OF that(1)] by (simp add: clk_left_decreases not_le)
    then show "clk_left (clk e') \<le> n" using Suc.prems by simp
  qed
  then show ?case
    by (auto simp: resume.simps [of E e w st] split: option.splits prod.splits sum.splits)
qed

text \<open>The clocks the loop can return with, from the one it starts with.\<close>

definition clk_range :: "u64 \<Rightarrow> u64 \<Rightarrow> bool" where
  "clk_range c c' \<longleftrightarrow>
     (if c < MAX_CLK then c < c' \<and> c' \<le> MAX_CLK
      else c' = c + 1 \<or> c + 1 = 0 \<and> c' \<le> MAX_CLK)"

lemma resume_outcome:
  "resume E e w st = (st', Inr (s, e', w')) \<Longrightarrow> s \<noteq> Running \<and> clk_range (clk e) (clk e')"
proof (induction E e w st arbitrary: st' rule: resume.induct)
  case (1 E e w st)
  from "1.prems" obtain i where i: "instructions e (pc e) = Some i"
    by (auto simp: resume.simps [of E e w st] split: option.splits)
  with "1.prems" obtain st1 s1 e1 w1 where step: "run_one_step E i e w st = (st1, Inr (s1, e1, w1))"
    by (auto simp: resume.simps [of E e w st] split: prod.splits sum.splits)
  have c1: "clk e1 = clk e + 1" by (rule run_one_step_clk(1) [OF step])
  have u: "unat (clk e + 1) = unat (clk e) + 1" if "clk e < MAX_CLK"
  proof -
    have "unat (clk e) < 1000000000000" using that by (simp add: MAX_CLK_def word_less_nat_alt)
    then show ?thesis by (simp add: unat_word_ariths)
  qed
  show ?case
  proof (cases "s1 = Running")
    case True
    with "1.prems" i step have c: "\<not> MAX_CLK \<le> clk e1" and r: "resume E e1 w1 st1 = (st', Inr (s, e', w'))"
      by (auto simp: resume.simps [of E e w st] split: if_splits)
    then have IH: "s \<noteq> Running" "clk e1 < clk e'" "clk e' \<le> MAX_CLK"
      using "1.IH" [OF i _ _ _ _ True c] step by (simp_all add: clk_range_def not_le)
    show ?thesis
    proof (cases "clk e < MAX_CLK")
      case True
      then show ?thesis using IH u c1 by (auto simp: clk_range_def word_less_nat_alt)
    next
      case False
      have "clk e + 1 = 0"
      proof (rule ccontr)
        assume "clk e + 1 \<noteq> 0"
        then have "unat (clk e + 1) = unat (clk e) + 1" using unatSuc [of "clk e"] by (simp add: add.commute)
        then show False using False c c1 by (simp add: word_less_nat_alt word_le_nat_alt)
      qed
      then show ?thesis using IH False by (simp add: clk_range_def)
    qed
  next
    case False
    with "1.prems" i step have "s = s1" "e' = e1" by (auto simp: resume.simps [of E e w st])
    then show ?thesis
    proof (cases "clk e < MAX_CLK")
      case True
      then have "clk e < clk e + 1" "clk e + 1 \<le> MAX_CLK" using u by (simp_all add: word_less_nat_alt word_le_nat_alt)
      then show ?thesis using True False \<open>s = s1\<close> \<open>e' = e1\<close> c1 by (simp add: clk_range_def)
    qed (use False \<open>s = s1\<close> c1 in \<open>simp add: clk_range_def\<close>)
  qed
qed

subsection \<open>The call stack of the trace\<close>

definition call_record :: "TxTraceManager \<Rightarrow> CallerInfo list \<times> SCCallPiece list" where
  "call_record tm = (caller_stack tm, tm_sccall tm)"

lemma call_record_on_step: "call_record (on_step tm d) = call_record tm"
proof -
  have cpu: "call_record (foldl on_step_cpu tm cs) = call_record tm" for cs
    by (induction cs arbitrary: tm) (auto simp: on_step_cpu_def call_record_def Let_def)
  have mem: "call_record (on_step_mem tm' ms) = call_record tm'" for tm' ms
    by (auto simp: on_step_mem_def call_record_def Let_def split: option.splits)
  show ?thesis
    using cpu [of "d_cpu d"] mem
    by (auto simp: on_step_def call_record_def Let_def split: option.splits)
qed

lemma call_record_set_env: "call_record (set_env tm a b c d) = call_record tm"
  by (simp add: set_env_def call_record_def)

lemma run_one_step_call_record:
  "run_one_step E i e w st = (st', Inr (s, e', w')) \<Longrightarrow> call_record (w_trace w') = call_record (w_trace w)"
  by (auto simp: run_one_step_def sbind_Inr_iff rbind_Inr_iff Let_def call_record_on_step split: option.splits)

lemma resume_call_record:
  assumes "resume E e w st = (st', Inr (s, e', w'))"
  shows "call_record (w_trace w') = call_record (w_trace w)"
  by (rule resume_invariant [where Q = "\<lambda>e' w'. call_record (w_trace w') = call_record (w_trace w)", OF _ assms])
    (auto dest: run_one_step_call_record)

text \<open>
  Every environment on the stack but the bottom one has its caller recorded, and every environment
  created so far except the entry has a caller recorded or a finished call piece.
\<close>

definition stack_ok :: "TxExeManager \<Rightarrow> bool" where
  "stack_ok m \<longleftrightarrow>
     (let tm = w_trace (tx_world m) in
      length (caller_stack tm) = length (env_stack m) - 1 \<and>
      next_env_idx m = of_nat (length (caller_stack tm) + length (tm_sccall tm)) + 1)"

lemma stack_ok_callee:
  assumes "invoke_callee E m idx e callee cs st = (st', Inr m')"
    and "length (caller_stack (w_trace (tx_world m))) = length (env_stack m)"
    and "next_env_idx m = of_nat (length (caller_stack (w_trace (tx_world m)))
           + length (tm_sccall (w_trace (tx_world m)))) + 1"
  shows "stack_ok m'"
proof -
  from assms(1) obtain code64 env m2 where
    "record_bytecode callee code64 (enqueue_caller idx e (m\<lparr>tx_world := tx_world m\<lparr>w_trace :=
        on_call (w_trace (tx_world m)) idx (exe_context e) (instructions e (pc e - 2) \<noteq> None)
          (clk e - 1) (registers e)\<rparr>\<rparr>)) = Inr m2" "m' = enqueue_new_env env m2"
    by (auto simp: invoke_callee_def sbind_Inr_iff rbind_Inr_iff Let_def)
  with assms(2,3) show ?thesis
    by (auto simp: record_bytecode_def rbind_Inr_iff enqueue_caller_def enqueue_new_env_def stack_ok_def
        on_call_def Let_def split: option.splits)
qed

lemma stack_ok_iteration:
  assumes "pop_env m = Some ((idx, e), m1)" "stack_ok m" "invoke_iteration E m1 idx e st = (st', Inr m2)"
  shows "stack_ok m2"
proof -
  from assms(1,2) have m1: "call_record (w_trace (tx_world m1)) = call_record (w_trace (tx_world m))"
      "next_env_idx m1 = next_env_idx m" "length (env_stack m) = length (env_stack m1) + 1"
    by (auto simp: pop_env_def Let_def call_record_set_env split: list.splits)
  from assms(3) obtain st1 s e' w' where r: "resume E e (tx_world m1) st = (st1, Inr (s, e', w'))"
    and n: "invoke_next E (m1\<lparr>tx_world := w'\<rparr>) idx e' s st1 = (st', Inr m2)"
    by (auto simp: invoke_iteration_def sbind_Inr_iff)
  have len: "length (caller_stack (w_trace w')) = length (env_stack m1)"
      "next_env_idx m1 = of_nat (length (caller_stack (w_trace w')) + length (tm_sccall (w_trace w'))) + 1"
    using resume_call_record [OF r] m1 assms(2) by (auto simp: call_record_def stack_ok_def Let_def)
  show ?thesis
  proof (cases s)
    case (End out)
    with n have m2: "m2 = m1\<lparr>tx_world := w'\<lparr>w_trace := on_end (w_trace w') idx (clk e' - 1)\<rparr>\<rparr>"
      by (simp add: invoke_next_def Let_def)
    show ?thesis
    proof (cases "caller_stack (w_trace w')")
      case Nil
      with len show ?thesis by (simp add: m2 stack_ok_def on_end_def)
    next
      case (Cons c cs)
      with len have "length (env_stack m1) = Suc (length cs)"
          "next_env_idx m1 = of_nat (Suc (length cs) + length (tm_sccall (w_trace w'))) + 1"
        by simp_all
      with Cons show ?thesis by (simp add: m2 stack_ok_def on_end_def)
    qed
  qed (use n len stack_ok_callee [of E "m1\<lparr>tx_world := w'\<rparr>"] in \<open>auto simp: invoke_next_def\<close>)
qed


text \<open>An invariant of the manager that every iteration keeps holds when the loop ends.\<close>

lemma invoke_loop_invariant:
  assumes step: "\<And>m idx e m1 st st' m2. pop_env m = Some ((idx, e), m1) \<Longrightarrow> P m \<Longrightarrow>
      invoke_iteration E m1 idx e st = (st', Inr m2) \<Longrightarrow> P m2"
    and loop: "invoke_loop E m st = Some (st', Inr m')" and init: "P m"
  shows "P m' \<and> env_stack m' = []"
proof -
  have "invoke_loop E' m st = Some y \<Longrightarrow>
      E' = E \<longrightarrow> P m \<longrightarrow> (\<forall>m'. snd y = Inr m' \<longrightarrow> P m' \<and> env_stack m' = [])" for E' m st y
  proof (rule invoke_loop.raw_induct [where P = "\<lambda>E' m st y. E' = E \<longrightarrow> P m \<longrightarrow>
      (\<forall>m'. snd y = Inr m' \<longrightarrow> P m' \<and> env_stack m' = [])"], intro impI allI)
    fix loop E' m st y m'
    assume IH: "\<And>E' m st y. loop E' m st = Some y \<Longrightarrow> E' = E \<longrightarrow> P m \<longrightarrow>
        (\<forall>m'. snd y = Inr m' \<longrightarrow> P m' \<and> env_stack m' = [])"
      and E: "E' = E" and P: "P m" and y: "snd y = Inr m'"
      and body: "(case pop_env m of None \<Rightarrow> Some (st, Inr m)
        | Some ((idx, e), m1) \<Rightarrow> (case invoke_iteration E' m1 idx e st of
            (st', Inl err) \<Rightarrow> Some (st', Inl err) | (st', Inr m2) \<Rightarrow> loop E' m2 st')) = Some y"
    show "P m' \<and> env_stack m' = []"
    proof (cases "pop_env m")
      case None
      then have "env_stack m = []" by (simp add: pop_env_def Let_def split: list.splits prod.splits)
      with None body P y show ?thesis by auto
    next
      case (Some t)
      obtain idx e m1 where t: "t = ((idx, e), m1)" by (metis prod.exhaust)
      obtain st1 r where it0: "invoke_iteration E m1 idx e st = (st1, r)"
        by (cases "invoke_iteration E m1 idx e st")
      with Some t body E y obtain m2 where r: "r = Inr m2" by (cases r) auto
      with it0 have it: "invoke_iteration E m1 idx e st = (st1, Inr m2)" by simp
      with Some t body E have l: "loop E m2 st1 = Some y" by simp
      from step [OF _ P it] Some t have "P m2" by simp
      with IH [OF l] y show ?thesis by simp
    qed
  qed
  from this [OF loop] init show ?thesis by simp
qed

lemma invoke_start_stack_ok:
  assumes "invoke_start E m st = (st', Inr m')" "env_stack m = []" "next_env_idx m = 0"
    "caller_stack (w_trace (tx_world m)) = []" "tm_sccall (w_trace (tx_world m)) = []"
  shows "stack_ok m'"
  using assms
  by (auto simp: invoke_start_def sbind_Inr_iff rbind_Inr_iff enqueue_new_env_def stack_ok_def Let_def)

subsection \<open>Events\<close>

definition events_numbered :: "TxEventManager \<Rightarrow> bool" where
  "events_numbered em \<longleftrightarrow>
     (\<forall>k < length (em_events em).
        ev_index_in_batch (em_events em ! k) = of_nat (prev_events_cnt_in_batch em + k))"

lemma on_event_numbered:
  "events_numbered em \<Longrightarrow> events_numbered (on_event em ts data)"
  "prev_events_cnt_in_batch (on_event em ts data) = prev_events_cnt_in_batch em"
  by (auto simp: events_numbered_def on_event_def nth_append less_Suc_eq add.commute)

lemma process_event_em:
  "process_event e tp i em = Inr (em', d) \<Longrightarrow> \<exists>ts data. em' = on_event em ts data"
  by (auto simp: process_event_def rbind_Inr_iff split: if_splits)

lemma dispatch_em:
  assumes "dispatch E e i tape em st = (st', Inr (em', d))"
  shows "em' = em \<or> (\<exists>ts data. em' = on_event em ts data)"
proof (cases "opcode i = EVENT")
  case True
  with assms have "process_event e (tape_tp tape) i em = Inr (em', d)" by (simp add: dispatch_def)
  from process_event_em [OF this] show ?thesis by simp
next
  case False
  with assms show ?thesis
    by (cases "opcode i") (simp_all add: dispatch_def Let_def rbind_Inr_iff sbind_Inr_iff, auto)
qed

text \<open>An invariant of the event manager that \<open>on_event\<close> keeps is kept by a step and by the loop.\<close>

lemma run_one_step_events:
  assumes "\<And>em ts data. P em \<Longrightarrow> P (on_event em ts data)"
    and "run_one_step E i e w st = (st', Inr (s, e', w'))" "P (w_events w)"
  shows "P (w_events w')"
proof -
  from assms(2) obtain st1 st2 d where
    "dispatch E e i (w_tape w) (w_events w) st1 = (st2, Inr (w_events w', d))"
    by (auto simp: run_one_step_def process_step_def sbind_Inr_iff rbind_Inr_iff Let_def split: option.splits)
  from dispatch_em [OF this] assms(1,3) show ?thesis by auto
qed

lemma resume_events:
  assumes P: "\<And>em ts data. P em \<Longrightarrow> P (on_event em ts data)"
    and r: "resume E e w st = (st', Inr (s, e', w'))" and w: "P (w_events w)"
  shows "P (w_events w')"
  by (rule resume_invariant [where Q = "\<lambda>e w. P (w_events w)", OF _ r w])
    (rule run_one_step_events [where P = P, OF P])

lemma invoke_callee_events:
  "invoke_callee E m idx e a b st = (st', Inr m2) \<Longrightarrow> w_events (tx_world m2) = w_events (tx_world m)"
  by (auto simp: Let_def invoke_callee_def sbind_Inr_iff rbind_Inr_iff
      record_bytecode_def enqueue_caller_def enqueue_new_env_def split: option.splits)

lemma invoke_next_events:
  "invoke_next E m idx e s st = (st', Inr m2) \<Longrightarrow> w_events (tx_world m2) = w_events (tx_world m)"
  by (cases s) (auto simp: invoke_next_def Let_def dest: invoke_callee_events)

lemma iteration_events:
  assumes P: "\<And>em ts data. P em \<Longrightarrow> P (on_event em ts data)"
    and "pop_env m = Some ((idx, e), m1)" "P (w_events (tx_world m))"
    and "invoke_iteration E m1 idx e st = (st', Inr m2)"
  shows "P (w_events (tx_world m2))"
proof -
  have m1: "w_events (tx_world m1) = w_events (tx_world m)"
    using assms(2) by (auto simp: pop_env_def Let_def split: list.splits)
  from assms(4) obtain st1 s e' w' where r: "resume E e (tx_world m1) st = (st1, Inr (s, e', w'))"
    and n: "invoke_next E (m1\<lparr>tx_world := w'\<rparr>) idx e' s st1 = (st', Inr m2)"
    by (auto simp: invoke_iteration_def sbind_Inr_iff)
  from resume_events [where P = P, OF P r] m1 assms(3) invoke_next_events [OF n] show ?thesis by simp
qed


lemma tx_invoke_Inr:
  assumes "tx_invoke E m st = Some (st', Inr r)"
  obtains st1 m1 m2 where "invoke_start E m st = (st1, Inr m1)" "invoke_loop E m1 st1 = Some (st', Inr m2)"
    "r = \<lparr>r_trace = build_trace (w_trace (tx_world m2)) (accessed_bytecodes m2),
          r_storage_access_logs = tx_storage_logs st',
          r_events = em_events (w_events (tx_world m2))\<rparr>"
  using assms by (auto simp: tx_invoke_def split: prod.splits sum.splits option.splits)

lemma invoke_start_world:
  "invoke_start E m st = (st', Inr m') \<Longrightarrow> tx_world m' = tx_world m"
  by (auto simp: invoke_start_def sbind_Inr_iff rbind_Inr_iff enqueue_new_env_def)

lemma tx_invoke_events:
  assumes P: "\<And>em ts data. P em \<Longrightarrow> P (on_event em ts data)"
    and r: "tx_invoke E m st = Some (st', Inr r)" and init: "P (w_events (tx_world m))"
  shows "\<exists>em. P em \<and> r_events r = em_events em"
proof -
  from r obtain st1 m1 m2 where s: "invoke_start E m st = (st1, Inr m1)"
    and l: "invoke_loop E m1 st1 = Some (st', Inr m2)" and e: "r_events r = em_events (w_events (tx_world m2))"
    by (rule tx_invoke_Inr) simp
  have i: "P (w_events (tx_world m1))" using init invoke_start_world [OF s] by simp
  have "P (w_events (tx_world m2)) \<and> env_stack m2 = []"
    by (rule invoke_loop_invariant [where P = "\<lambda>m. P (w_events (tx_world m))", OF _ l i])
      (rule iteration_events [where P = P, OF P])
  then have "P (w_events (tx_world m2))" ..
  with e show ?thesis by (intro exI [of _ "w_events (tx_world m2)"] conjI)
qed

subsection \<open>Properties of transactions and blocks\<close>

definition block_events_ok :: "'c BlockExeManager \<Rightarrow> bool" where
  "block_events_ok b \<longleftrightarrow>
     (\<forall>k < length (block_events b). ev_index_in_batch (block_events b ! k) = of_nat k)"

lemma block_invoke_cases:
  assumes "block_invoke E tx b = Some (b', x)"
  obtains st err where "x = Inl err" "b' = b\<lparr>storage := st\<rparr>"
  | st r where "x = Inr r"
      "tx_invoke E (tx_manager_new Invoke (block_info b) tx ADDR_U64_ENTRYPOINT (length (block_events b)))
        (clear_tx_cache (storage b)) = Some (st, Inr r)"
      "b' = block_on_tx_success r (b\<lparr>storage := storage_on_tx_success st\<rparr>)"
  using assms by (auto simp: block_invoke_def Let_def split: option.splits sum.splits)

text \<open>
  C9 The executor's main loop ends: started with a clock below \<open>MAX_CLK\<close> it returns within as many iterations as are left to
  \<open>MAX_CLK\<close>, and from any clock within \<open>MAX_CLK + 1\<close>, whatever the outcome. When it
  returns without error the state is not \<open>Running\<close>, and the clock lies strictly above the one it started with and
  at most at \<open>MAX_CLK\<close>. The bound is tested after a step that goes on, so that a loop resumed at \<open>MAX_CLK\<close> or
  above takes one step more, and returns if that step ends the environment or calls; 64-bit wrap-around is the
  only other case.
\<close>

theorem resume_stops:
  "resume_steps (if clk e < MAX_CLK then unat MAX_CLK - unat (clk e) else unat MAX_CLK + 1) E e w st = Some (resume E e w st) \<and>
   (case resume E e w st of
      (st', Inr (s, e', w')) \<Rightarrow> s \<noteq> Running \<and>
        (if clk e < MAX_CLK then clk e < clk e' \<and> clk e' \<le> MAX_CLK
         else clk e' = clk e + 1 \<or> clk e + 1 = 0 \<and> clk e' \<le> MAX_CLK)
    | (st', Inl err) \<Rightarrow> True)"
proof
  show "resume_steps (if clk e < MAX_CLK then unat MAX_CLK - unat (clk e) else unat MAX_CLK + 1) E e w st = Some (resume E e w st)"
    by (rule resume_steps_enough) (simp add: clk_left_def)
  show "case resume E e w st of
      (st', Inr (s, e', w')) \<Rightarrow> s \<noteq> Running \<and>
        (if clk e < MAX_CLK then clk e < clk e' \<and> clk e' \<le> MAX_CLK
         else clk e' = clk e + 1 \<or> clk e + 1 = 0 \<and> clk e' \<le> MAX_CLK)
    | (st', Inl err) \<Rightarrow> True"
    unfolding clk_range_def [symmetric] by (auto dest: resume_outcome split: prod.splits sum.splits)
qed

lemma invoke_loop_balanced:
  assumes s: "invoke_start E (tx_manager_new md info tx entry n) st = (st1, Inr m1)"
    and l: "invoke_loop E m1 st1 = Some (st2, Inr m2)"
  shows "stack_ok m2 \<and> env_stack m2 = []"
proof (rule invoke_loop_invariant [where P = stack_ok, OF _ l])
  show "stack_ok m1"
    by (rule invoke_start_stack_ok [OF s])
      (simp_all add: tx_manager_new_def Let_def trace_init_tape_def trace_manager_default_def)
qed (rule stack_ok_iteration)

lemma stack_ok_Nil:
  "stack_ok m \<and> env_stack m = [] \<longleftrightarrow>
     env_stack m = [] \<and> caller_stack (w_trace (tx_world m)) = [] \<and>
     next_env_idx m = of_nat (length (tm_sccall (w_trace (tx_world m)))) + 1"
  by (cases "env_stack m = []"; cases "caller_stack (w_trace (tx_world m))") (simp_all add: stack_ok_def)

text \<open>
  C2 When the loop over environments of an invocation ends without error, the stack of environments
  and the stack of recorded callers are both empty, and the trace holds exactly one call piece for
  each environment other than the entry.
\<close>

theorem invoke_call_stack_balanced:
  "case invoke_start E (tx_manager_new md info tx entry n) st of
     (st1, Inl err) \<Rightarrow> True
   | (st1, Inr m1) \<Rightarrow>
       (case invoke_loop E m1 st1 of
          Some (st2, Inr m2) \<Rightarrow>
            env_stack m2 = [] \<and> caller_stack (w_trace (tx_world m2)) = [] \<and>
            next_env_idx m2 = of_nat (length (tm_sccall (w_trace (tx_world m2)))) + 1
        | _ \<Rightarrow> True)"
  unfolding stack_ok_Nil [symmetric]
  by (auto dest: invoke_loop_balanced split: prod.split sum.split option.split)

text \<open>
  C1 A transaction is atomic for the block. If it fails, the next transaction starts from exactly the
  state the block had committed before, and the block's traces, logs and events are unchanged; if it
  succeeds, the committed state is the view the transaction ended with, and its trace, access logs
  and events are appended to the block's.
\<close>

theorem block_invoke_atomic:
  "case block_invoke E tx b of
     None \<Rightarrow> True
   | Some (b', Inl err) \<Rightarrow>
       storage_view E (clear_tx_cache (storage b')) = block_view E (storage b) \<and>
       tx_traces b' = tx_traces b \<and> storage_access_logs b' = storage_access_logs b \<and>
       block_events b' = block_events b
   | Some (b', Inr r) \<Rightarrow>
       (\<exists>st. tx_invoke E (tx_manager_new Invoke (block_info b) tx ADDR_U64_ENTRYPOINT (length (block_events b)))
               (clear_tx_cache (storage b)) = Some (st, Inr r) \<and>
             block_view E (storage b') = storage_view E st) \<and>
       storage_view E (storage b') = block_view E (storage b') \<and>
       tx_traces b' = tx_traces b @ [r_trace r] \<and>
       storage_access_logs b' = storage_access_logs b @ r_storage_access_logs r \<and>
       block_events b' = block_events b @ r_events r"
proof -
  let ?m = "tx_manager_new Invoke (block_info b) tx ADDR_U64_ENTRYPOINT (length (block_events b))"
  have base: "block_view E st = block_view E (storage b)"
    if "tx_invoke E ?m (clear_tx_cache (storage b)) = Some (st, r)" for st r
    using ext.tx_invoke_related [OF that] by (simp add: block_extends_def cached.base_abort)
  show ?thesis
    by (auto simp: block_invoke_def Let_def block_on_tx_success_def cached.view_abort cached.view_commit
        cached.base_commit dest: base split: option.splits sum.splits)
qed

text \<open>
  C6 The access logs of a failed transaction are not dropped: \<open>clear_tx_cache\<close> clears \<open>storage_logs\<close>
  where it would have to clear \<open>tx_storage_logs\<close>. Whatever a transaction has logged when it fails is a
  prefix of the access logs that the next successful transaction reports.
\<close>

theorem failed_tx_logs_leak:
  assumes "block_invoke E tx b = Some (b1, Inl err)" "block_invoke E tx' b1 = Some (b2, Inr r)"
  shows "\<exists>new. r_storage_access_logs r = tx_storage_logs (storage b1) @ new"
proof -
  from assms(2) obtain st m where i: "tx_invoke E m (clear_tx_cache (storage b1)) = Some (st, Inr r)"
    by (auto simp: block_invoke_def Let_def split: option.splits sum.splits)
  have "r_storage_access_logs r = tx_storage_logs st"
    using i by (rule tx_invoke_Inr) simp
  with ext.tx_invoke_related [OF i] show ?thesis
    by (auto simp: block_extends_def clear_tx_cache_keeps_tx_logs)
qed

text \<open>
  C8 Events carry consecutive indices: if the events collected by a block are numbered from zero, they
  still are after another transaction, whatever its outcome.
\<close>

theorem block_events_consecutive:
  assumes "block_events_ok b" "block_invoke E tx b = Some (b', x)"
  shows "block_events_ok b'"
  using assms(2)
proof (rule block_invoke_cases)
  fix st err
  assume "b' = b\<lparr>storage := st\<rparr>"
  with assms(1) show ?thesis by (simp add: block_events_ok_def)
next
  fix st r
  assume i: "tx_invoke E (tx_manager_new Invoke (block_info b) tx ADDR_U64_ENTRYPOINT (length (block_events b)))
        (clear_tx_cache (storage b)) = Some (st, Inr r)"
    and b': "b' = block_on_tx_success r (b\<lparr>storage := storage_on_tx_success st\<rparr>)"
  let ?P = "\<lambda>em. events_numbered em \<and> prev_events_cnt_in_batch em = length (block_events b)"
  have "\<exists>em. ?P em \<and> r_events r = em_events em"
    by (rule tx_invoke_events [where P = ?P, OF _ i])
      (simp add: on_event_numbered, simp add: tx_manager_new_def Let_def event_manager_new_def events_numbered_def)
  with assms(1) b' show ?thesis
    by (auto simp: block_events_ok_def block_on_tx_success_def events_numbered_def nth_append)
qed

text \<open>
  C5 A read-only call (mode \<open>Call\<close>) writes nothing: whether it returns an output or an error, through
  however many nested contract calls, the storage view and the transaction cache are unchanged.
\<close>

theorem call_is_read_only:
  "case tx_call E (tx_manager_new Call info tx entry n) st of
     None \<Rightarrow> True
   | Some (st', r) \<Rightarrow> storage_view E st' = storage_view E st \<and> tx_cached_storage st' = tx_cached_storage st"
  using ro.tx_call_read_only [of E "tx_manager_new Call info tx entry n" st]
  by (auto simp: tx_unchanged_def tx_manager_new_def Let_def split: option.splits)

text \<open>
  C7 \<open>finish_batch\<close> does not clear the transaction cache before it runs the closing transaction. Every
  key that is still in it, such as the writes of a last transaction that failed, is committed with
  the closing transaction, and its access logs are reported as that transaction's.
\<close>

theorem finish_batch_commits_failed_writes:
  assumes "finish_batch E b1 = Some (b2, Inr r)"
  shows "dom (tx_cached_storage (storage b1)) \<subseteq> dom (cached_storage (storage b2)) \<and>
    (\<exists>new. br_block_tip_queries r = tx_storage_logs (storage b1) @ new)"
proof -
  from assms obtain m st r' where i: "tx_invoke E m (storage b1) = Some (st, Inr r')"
    and s: "storage b2 = storage_on_tx_success st" and q: "br_block_tip_queries r = tx_storage_logs st"
    by (auto simp: finish_batch_def Let_def block_on_tx_success_def split: option.splits sum.splits)
  from ext.tx_invoke_related [OF i] s q show ?thesis
    by (auto simp: block_extends_def storage_on_tx_success_def)
qed

end
