(* ===== verification/Demo.thy ===== *)
theory Demo
  imports TxProps
begin

text \<open>
  A closed run of the whole system. The contract below stores a value under a key that holds the
  transaction's version and then asserts that the version is zero, so that a transaction of version
  one fails after it has written. The runs show that the theorems about failing and succeeding
  transactions apply to transactions that really fail and succeed.
\<close>

subsection \<open>The contract\<close>

definition imm_op :: "u64 \<Rightarrow> OlaOperand option" where
  "imm_op v = Some (ImmediateOperand \<lparr>hex = format_hex v\<rparr>)"

definition reg_op :: "OlaRegister \<Rightarrow> OlaOperand option" where
  "reg_op r = Some (RegisterOperand r)"

definition inst ::
    "OlaOpcode \<Rightarrow> OlaOperand option \<Rightarrow> OlaOperand option \<Rightarrow> OlaOperand option \<Rightarrow> BinaryInstruction" where
  "inst opc x y z = \<lparr>opcode = opc, op0 = x, op1 = y, dst = z, prophet = None\<rparr>"

definition demo_insts :: "BinaryInstruction list" where
  "demo_insts =
     [inst MOV None (imm_op 1) (reg_op R1),
      inst TLOAD (reg_op R1) (imm_op 4) (reg_op R0),
      inst TLOAD (reg_op R0) (imm_op 6) (reg_op R0),
      inst SSTORE (reg_op R0) (reg_op R0) None,
      inst MLOAD (reg_op R0) (imm_op 0) (reg_op R3),
      inst EQ (reg_op R3) (reg_op R0) (reg_op R4),
      inst ASSERT None (reg_op R4) None,
      inst END None None None]"

definition demo_program :: BinaryProgram where
  "demo_program = \<lparr>bytecode = join_nl (concat (map inst_lines demo_insts)), prophets = [], debug_info = None\<rparr>"

definition demo_ext :: "unit ext" where
  "demo_ext = empty_ext\<lparr>lru_get := (\<lambda>c a. (c, Some demo_program))\<rparr>"

definition demo_tx :: "u64 \<Rightarrow> OlaTapeInitInfo" where
  "demo_tx v = \<lparr>version = v, origin_address = [1, 2, 3, 4], calldata = [], nonce = None,
     signature_r = None, signature_s = None, tx_hash = None\<rparr>"

definition demo_block :: "unit BlockExeManager" where
  "demo_block = block_manager_new () 1 7 9 [5, 6, 7, 8]"

lemma wf_imm_format [simp]: "wf_imm \<lparr>hex = format_hex v\<rparr> \<longleftrightarrow> v < ORDER"
  by (simp add: wf_imm_def)

lemmas inst_defs = inst_def imm_op_def reg_op_def

lemma demo_insts_wf: "list_all wf_inst demo_insts" "list_all (\<lambda>i. prophet i = None) demo_insts"
  by (simp_all add: demo_insts_def inst_defs wf_inst_def ORDER_def)

lemma hosted_no_prophet: "list_all (\<lambda>i. prophet i = None) is \<Longrightarrow> hosted pos is"
  by (induction "is" arbitrary: pos) simp_all

lemma demo_program_loads:
  "decode_binary_program_to_instructions demo_program = Inr demo_insts"
  "\<exists>ws. bytecode_u64s demo_program = Inr ws"
proof -
  have len: "program_length demo_insts < 2 ^ 64" "demo_insts \<noteq> []"
    by (simp_all add: demo_insts_def inst_defs program_length_def binary_length_def)
  have none: "List.map_filter prophet demo_insts = []"
    by (simp add: demo_insts_def inst_defs List.map_filter_simps)
  have enc: "traverse encode demo_insts = Inr (map inst_lines demo_insts)"
    using demo_insts_wf(1) by (auto simp: traverse_Inr_iff list_all_length encode_inst_lines)
  then have "from_instructions demo_insts None False = Inr demo_program"
    by (simp add: from_instructions_def demo_program_def none)
  with program_roundtrip [OF demo_insts_wf(1) hosted_no_prophet [OF demo_insts_wf(2)] len(1), of None False]
  show "decode_binary_program_to_instructions demo_program = Inr demo_insts" by simp
  have "bytecode demo_program = join_nl (concat (map inst_lines demo_insts))"
    by (simp add: demo_program_def)
  from bytecode_u64s_encoded [OF demo_insts_wf(1) len(2) this]
  show "\<exists>ws. bytecode_u64s demo_program = Inr ws" by blast
qed

subsection \<open>The steps of the run\<close>

definition demo_code :: "u64 \<rightharpoonup> BinaryInstruction" where
  "demo_code = load_instructions 0 Map.empty demo_insts"

definition demo_exec :: "u64 \<Rightarrow> u64 \<Rightarrow> u64 list \<Rightarrow> OlaMemory \<Rightarrow> OlaContractExecutor" where
  "demo_exec c p rs m =
     \<lparr>mode = Invoke, exe_context = \<lparr>storage_addr = ADDR_U64_ENTRYPOINT, code_addr = ADDR_U64_ENTRYPOINT\<rparr>,
      clk = c, pc = p, psp_start = mem_psp mem_default, registers = rs, memory = m,
      instructions = demo_code, exe_output = [], exe_state = Running\<rparr>"

definition demo_memory :: "u64 \<Rightarrow> OlaMemory" where
  "demo_memory v =
     mem_default\<lparr>stack_region := Map.empty(0 \<mapsto> 0, 1 \<mapsto> 0, 2 \<mapsto> 0, 3 \<mapsto> 32769, 0 \<mapsto> v)\<rparr>"

lemma demo_code_at:
  "demo_code 0 = Some (inst MOV None (imm_op 1) (reg_op R1))"
  "demo_code 2 = Some (inst TLOAD (reg_op R1) (imm_op 4) (reg_op R0))"
  "demo_code 4 = Some (inst TLOAD (reg_op R0) (imm_op 6) (reg_op R0))"
  "demo_code 6 = Some (inst SSTORE (reg_op R0) (reg_op R0) None)"
  "demo_code 7 = Some (inst MLOAD (reg_op R0) (imm_op 0) (reg_op R3))"
  "demo_code 9 = Some (inst EQ (reg_op R3) (reg_op R0) (reg_op R4))"
  "demo_code 10 = Some (inst ASSERT None (reg_op R4) None)"
  "demo_code 11 = Some (inst END None None None)"
  by (simp_all add: demo_code_def demo_insts_def inst_defs binary_length_def)

lemma resume_running:
  assumes "instructions e (pc e) = Some i" "run_one_step E i e w st = (st1, Inr (Running, e1, w1))"
    "clk e1 < MAX_CLK"
  shows "resume E e w st = resume E e1 w1 st1"
  using assms(3) by (subst resume.simps) (simp add: assms(1,2) linorder_not_le [symmetric])

text \<open>Symbolic evaluation of one step; the storage operations and the tape are left to the lemmas.\<close>

lemmas eval_operands = get_op1_and_dst_reg_def get_op0_op1_def get_op0_op1_and_dst_def
  get_op0_op1_and_dst_reg_def operand_or_fail_def dst_reg_or_fail_def imm_value_def get_reg_def
lemmas eval_trace = traced_def is_trace_needed_def get_trace_diff_with_cpu_def
  get_common_cpu_exe_pieces_def get_inst_imm_u64_wf storage_lines_def mem_access_trace_def
lemmas eval_diffs = apply_state_diff_def apply_diff_def spec_pc_def mem_diff_of_def
  get_state_diff_only_dst_reg_def next_pc_def binary_length_def
lemmas eval_memory = mem_write_def mem_batch_read_def mem_read_def region_read_def in_stack_region_def
  region_bounds MAX_VALUE_def
lemmas eval_step = run_one_step_def sccall_params_def process_step_def dispatch_def step_outcome_def
  inst_defs demo_exec_def sbind_def Let_def wf_inst_def ORDER_def guard_def

lemma demo_running:
  assumes "demo_code p = Some i"
    and "\<exists>st' w'. run_one_step E i (demo_exec c p rs m) w st =
      (st', Inr (Running, demo_exec c' p' rs' m', w')) \<and> Q st' w'"
    and "c' < 1000000000000"
  shows "\<exists>st' w'. resume E (demo_exec c p rs m) w st = resume E (demo_exec c' p' rs' m') w' st' \<and> Q st' w'"
proof -
  obtain st' w' where r: "run_one_step E i (demo_exec c p rs m) w st =
      (st', Inr (Running, demo_exec c' p' rs' m', w'))" "Q st' w'" using assms(2) by blast
  have "resume E (demo_exec c p rs m) w st = resume E (demo_exec c' p' rs' m') w' st'"
    using assms(1,3) r(1) by (intro resume_running [of _ i]) (simp_all add: demo_exec_def MAX_CLK_def)
  with r(2) show ?thesis by blast
qed

definition regs :: "u64 \<Rightarrow> u64 \<Rightarrow> u64 list" where
  "regs a b = [0, 1, 0, a, b, 0, 0, 0, 0, 0]"

lemma step_mov:
  "\<exists>st' w'. resume E (demo_exec 0 0 [0,0,0,0,0,0,0,0,0,0] mem_default) w st =
     resume E (demo_exec 1 2 (regs 0 0) mem_default) w' st' \<and> w_tape w' = w_tape w \<and> st' = st"
  by (rule demo_running [OF demo_code_at(1)])
    (simp_all add: eval_step eval_operands eval_trace eval_diffs process_mov_def regs_def)

lemma addr_runs: "addr_run 0 4 = [0, 1, 2, 3]" "addr_run 0 (Suc 0) = [0]"
  by (simp_all add: addr_run_def upt_rec)

lemma step_tload_address:
  assumes "tape_read_stack (w_tape w) 4 = Inr [0, 0, 0, 32769]"
  shows "\<exists>st' w'. resume E (demo_exec 1 2 (regs 0 0) mem_default) w st =
     resume E (demo_exec 2 4 (regs 0 0) (demo_memory 0)) w' st' \<and> w_tape w' = w_tape w \<and> st' = st"
  by (rule demo_running [OF demo_code_at(2)])
    (use assms in \<open>simp_all add: eval_step eval_operands eval_trace eval_diffs eval_memory process_tload_def
      u64_range_def addr_runs demo_memory_def mem_default_def fun_upd_twist regs_def\<close>)

lemma step_tload_version:
  assumes "tape_read_top (w_tape w) 6 = Inr v" "v \<le> MAX_VALUE"
  shows "\<exists>st' w'. resume E (demo_exec 2 4 (regs 0 0) (demo_memory 0)) w st =
     resume E (demo_exec 3 6 (regs 0 0) (demo_memory v)) w' st' \<and> st' = st"
  by (rule demo_running [OF demo_code_at(3)])
    (use assms in \<open>simp_all add: eval_step eval_operands eval_trace eval_diffs eval_memory process_tload_def
      u64_range_def addr_runs demo_memory_def mem_default_def regs_def not_less [symmetric]\<close>)

lemma storage_total:
  "\<exists>st' x. storage_read demo_ext a k st = (st', Inr x) \<and> tx_storage_logs st' = tx_storage_logs st"
  "\<exists>st'. sstore demo_ext a k v st = (st', Inr ()) \<and> get_tree_key a k \<in> dom (tx_cached_storage st') \<and>
     tx_storage_logs st' \<noteq> []"
proof -
  have w: "writable demo_ext t V" for t V
    by (simp add: writable_def disk_load_def demo_ext_def empty_ext_def)
  show "\<exists>st' x. storage_read demo_ext a k st = (st', Inr x) \<and> tx_storage_logs st' = tx_storage_logs st"
    using get_pre_value_views(3) by (cases rule: get_pre_value_cases [of demo_ext a k st])
      (auto simp: storage_read_def w)
  show "\<exists>st'. sstore demo_ext a k v st = (st', Inr ()) \<and> get_tree_key a k \<in> dom (tx_cached_storage st') \<and>
      tx_storage_logs st' \<noteq> []"
    by (cases rule: get_pre_value_cases [of demo_ext a k st])
      (auto simp: sstore_def storage_write_def sbind_def Let_def w)
qed

lemma demo_memory_batch: "mem_batch_read (demo_memory v) 0 4 = Inr [v, 0, 0, 32769]"
  by (simp add: mem_batch_read_def region_batch_read_def region_bounds demo_memory_def mem_default_def
      vec_with_capacity_def guard_def addr_runs Let_def region_read_def)

definition written :: "u64 \<Rightarrow> unit OlaCachedStorage \<Rightarrow> bool" where
  "written v st \<longleftrightarrow> get_tree_key ADDR_U64_ENTRYPOINT [v, 0, 0, 32769] \<in> dom (tx_cached_storage st) \<and>
     tx_storage_logs st \<noteq> []"

lemma step_sstore:
  "\<exists>st' w'. resume demo_ext (demo_exec 3 6 (regs 0 0) (demo_memory v)) w st =
     resume demo_ext (demo_exec 4 7 (regs 0 0) (demo_memory v)) w' st' \<and> written v st'"
proof (rule demo_running [OF demo_code_at(4)])
  obtain st1 x where r: "storage_read demo_ext ADDR_U64_ENTRYPOINT [v, 0, 0, 32769] st = (st1, Inr x)"
    using storage_total(1) by blast
  obtain st2 where s: "sstore demo_ext ADDR_U64_ENTRYPOINT [v, 0, 0, 32769] [v, 0, 0, 32769] st1 = (st2, Inr ())"
    "get_tree_key ADDR_U64_ENTRYPOINT [v, 0, 0, 32769] \<in> dom (tx_cached_storage st2)" "tx_storage_logs st2 \<noteq> []"
    using storage_total(2) by blast
  from r s show "\<exists>st' w'. run_one_step demo_ext (inst SSTORE (reg_op R0) (reg_op R0) None)
       (demo_exec 3 6 (regs 0 0) (demo_memory v)) w st
     = (st', Inr (Running, demo_exec 4 7 (regs 0 0) (demo_memory v), w')) \<and> written v st'"
    by (simp add: eval_step eval_operands eval_trace eval_diffs process_sstore_def read_four_def
        demo_memory_batch try_into_array_def regs_def written_def)
qed simp

lemma step_mload:
  "\<exists>st' w'. resume E (demo_exec 4 7 (regs 0 0) (demo_memory v)) w st =
     resume E (demo_exec 5 9 (regs v 0) (demo_memory v)) w' st' \<and> st' = st"
  by (rule demo_running [OF demo_code_at(5)])
    (simp_all add: eval_step eval_operands eval_trace eval_diffs eval_memory process_mload_def field_addr_def
      demo_memory_def mem_default_def from_canonical_u64_def gf_add_def overflowing_add_def
      to_canonical_u64_def ok_or_def regs_def)

lemma step_eq:
  "\<exists>st' w'. resume E (demo_exec 5 9 (regs v 0) (demo_memory v)) w st =
     resume E (demo_exec 6 10 (regs v (if v = 0 then 1 else 0)) (demo_memory v)) w' st' \<and> st' = st"
  by (rule demo_running [OF demo_code_at(6)])
    (simp_all add: eval_step eval_operands eval_trace eval_diffs process_two_operands_arithmetic_op_def
      arith_result_def regs_def)

lemma step_assert_ok:
  "\<exists>st' w'. resume E (demo_exec 6 10 (regs v 1) (demo_memory v)) w st =
     resume E (demo_exec 7 11 (regs v 1) (demo_memory v)) w' st' \<and> st' = st"
  by (rule demo_running [OF demo_code_at(7)])
    (simp_all add: eval_step eval_operands eval_trace eval_diffs process_assert_def regs_def)

lemma step_assert_fail:
  "resume E (demo_exec 6 10 (regs v 0) (demo_memory v)) w st = (st, fail (AssertFail 4 0))"
  by (subst resume.simps)
    (simp add: demo_code_at(7) eval_step eval_operands process_assert_def on_step_err_def regs_def)

lemma step_end:
  "\<exists>e' w'. resume E (demo_exec 7 11 (regs v 1) (demo_memory v)) w st = (st, Inr (End [], e', w'))"
  by (subst resume.simps)
    (simp add: demo_code_at(8) eval_step eval_operands eval_trace eval_diffs process_end_def regs_def)

subsection \<open>The contract's run\<close>

definition demo_start :: OlaContractExecutor where
  "demo_start = demo_exec 0 0 [0,0,0,0,0,0,0,0,0,0] mem_default"

definition demo_tape :: "OlaTape \<Rightarrow> u64 \<Rightarrow> bool" where
  "demo_tape t v \<longleftrightarrow> tape_read_stack t 4 = Inr [0, 0, 0, 32769] \<and> tape_read_top t 6 = Inr v"

lemma demo_resume:
  assumes "demo_tape (w_tape w) v" and v: "v \<le> MAX_VALUE"
  shows "\<exists>st' e' w'. written v st' \<and> resume demo_ext demo_start w st =
      (st', if v = 0 then Inr (End [], e', w') else fail (AssertFail 4 0))"
proof -
  have t: "tape_read_stack (w_tape w) 4 = Inr [0, 0, 0, 32769]" "tape_read_top (w_tape w) 6 = Inr v"
    using assms(1) by (simp_all add: demo_tape_def)
  obtain w1 where 1: "resume demo_ext demo_start w st = resume demo_ext (demo_exec 1 2 (regs 0 0) mem_default) w1 st"
    "w_tape w1 = w_tape w" unfolding demo_start_def using step_mov by blast
  obtain w2 where 2: "resume demo_ext demo_start w st = resume demo_ext (demo_exec 2 4 (regs 0 0) (demo_memory 0)) w2 st"
    "w_tape w2 = w_tape w" using step_tload_address [of w1 demo_ext st] 1 t(1) by auto
  obtain w3 where 3: "resume demo_ext demo_start w st = resume demo_ext (demo_exec 3 6 (regs 0 0) (demo_memory v)) w3 st"
    using step_tload_version [of w2 v demo_ext st] 2 t(2) v by auto
  obtain st' w4 where 4: "resume demo_ext demo_start w st = resume demo_ext (demo_exec 4 7 (regs 0 0) (demo_memory v)) w4 st'"
    and wr: "written v st'" using step_sstore [of v w3 st] 3 by auto
  obtain w5 where 5: "resume demo_ext demo_start w st = resume demo_ext (demo_exec 5 9 (regs v 0) (demo_memory v)) w5 st'"
    using step_mload [of demo_ext v w4 st'] 4 by auto
  obtain w6 where 6: "resume demo_ext demo_start w st =
      resume demo_ext (demo_exec 6 10 (regs v (if v = 0 then 1 else 0)) (demo_memory v)) w6 st'"
    using step_eq [of demo_ext v w5 st'] 5 by auto
  show ?thesis
    using wr 6 step_assert_fail step_assert_ok [of demo_ext v w6 st'] step_end by (cases "v = 0") fastforce+
qed

subsection \<open>Transactions\<close>

definition demo_info :: BlockExeInfo where
  "demo_info = \<lparr>bi_block_number = 7, bi_block_timestamp = 9, sequencer_address = [5, 6, 7, 8], chain_id = 1\<rparr>"

lemma demo_tape_init:
  assumes "sequencer_address info = [a, b, c, d]" "length (tape_init_values info tx ADDR_U64_ENTRYPOINT) < 2 ^ 64"
  shows "demo_tape (tape_batch_write tape_default (tape_init_values info tx ADDR_U64_ENTRYPOINT)) (version tx)"
proof -
  let ?xs = "tape_init_values info tx ADDR_U64_ENTRYPOINT"
  have rep: "tape_rep (tape_batch_write tape_default ?xs) ?xs"
    using tape_rep_batch_write [OF tape_rep_default, of ?xs] assms(2) by simp
  have "6 < length ?xs \<and> ?xs ! 6 = version tx" "4 \<le> length ?xs"
    by (simp_all add: tape_init_values_def assms(1) ADDR_U64_ENTRYPOINT_def)
  moreover obtain ys where "?xs = ys @ ADDR_U64_ENTRYPOINT"
    by (simp add: tape_init_values_def flip: append_assoc)
  then have "drop (length ?xs - 4) ?xs = [0, 0, 0, 32769]" by (simp add: ADDR_U64_ENTRYPOINT_def)
  ultimately show ?thesis
    by (simp add: demo_tape_def tape_read_stack_rep [OF rep] tape_read_top_rep [OF rep])
qed

lemma demo_executor:
  "executor_new Invoke \<lparr>storage_addr = ADDR_U64_ENTRYPOINT, code_addr = ADDR_U64_ENTRYPOINT\<rparr> demo_program
     = Inr demo_start"
proof -
  have "demo_insts \<noteq> []" by (simp add: demo_insts_def)
  then show ?thesis
    by (simp add: executor_new_def demo_program_loads(1) demo_start_def demo_exec_def demo_code_def
        NUM_GENERAL_PURPOSE_REGISTER_def numeral_eq_Suc)
qed

lemma demo_get_program: "get_program demo_ext a st = (st, Inr demo_program)"
  by (simp add: get_program_def demo_ext_def)

lemma demo_tx_invoke:
  assumes "demo_tape (w_tape (tx_world m)) v" "v \<le> MAX_VALUE" "tx_mode m = Invoke" "env_stack m = []"
    "entry_contract m = ADDR_U64_ENTRYPOINT"
  shows "\<exists>st' r. written v st' \<and> tx_invoke demo_ext m st =
      Some (st', if v = 0 then Inr r else fail (AssertFail 4 0))"
proof -
  obtain ws where ws: "bytecode_u64s demo_program = Inr ws" using demo_program_loads(2) by blast
  define m1 where "m1 = enqueue_new_env demo_start
      (m\<lparr>accessed_bytecodes := (accessed_bytecodes m)(ADDR_U64_ENTRYPOINT \<mapsto> ws)\<rparr>)"
  have start: "invoke_start demo_ext m st = (st, Inr m1)"
    using assms by (simp add: invoke_start_def sbind_def demo_get_program ws demo_executor m1_def)
  obtain m2 where pop: "pop_env m1 = Some ((next_env_idx m, demo_start), m2)"
    and m2: "w_tape (tx_world m2) = w_tape (tx_world m)" "env_stack m2 = []"
    using assms by (simp add: pop_env_def m1_def enqueue_new_env_def tx_is_trace_needed_def Let_def)
  obtain st' e' w' where wr: "written v st'" and res: "resume demo_ext demo_start (tx_world m2) st =
      (st', if v = 0 then Inr (End [], e', w') else fail (AssertFail 4 0))"
    using demo_resume assms(1,2) m2(1) by metis
  have last: "invoke_loop demo_ext m st = Some (st, Inr m)" if "env_stack m = []" for m st
    using that by (subst invoke_loop.simps) (simp add: pop_env_def)
  have "\<exists>m3. invoke_loop demo_ext m1 st = Some (st', if v = 0 then Inr m3 else fail (AssertFail 4 0))"
    using m2(2) by (subst invoke_loop.simps)
      (simp add: pop invoke_iteration_def sbind_def res invoke_next_def Let_def last)
  then show ?thesis using wr by (auto simp: tx_invoke_def start)
qed

lemma demo_new_manager:
  assumes "length (calldata tx) < 100" "length (origin_address tx) = 4" "nonce tx = None"
    "signature_r tx = None" "signature_s tx = None" "tx_hash tx = None"
  shows "demo_tape (w_tape (tx_world (tx_manager_new Invoke demo_info tx ADDR_U64_ENTRYPOINT n))) (version tx)"
    "tx_mode (tx_manager_new Invoke demo_info tx ADDR_U64_ENTRYPOINT n) = Invoke"
    "env_stack (tx_manager_new Invoke demo_info tx ADDR_U64_ENTRYPOINT n) = []"
    "entry_contract (tx_manager_new Invoke demo_info tx ADDR_U64_ENTRYPOINT n) = ADDR_U64_ENTRYPOINT"
proof -
  have "length (tape_init_values demo_info tx ADDR_U64_ENTRYPOINT) < 2 ^ 64"
    using assms by (simp add: tape_init_values_def demo_info_def ADDR_U64_ENTRYPOINT_def)
  from demo_tape_init [OF _ this, of 5 6 7 8]
  show "demo_tape (w_tape (tx_world (tx_manager_new Invoke demo_info tx ADDR_U64_ENTRYPOINT n))) (version tx)"
    by (simp add: tx_manager_new_def Let_def demo_info_def)
qed (simp_all add: tx_manager_new_def Let_def)

lemma demo_tx_run:
  assumes "length (calldata tx) < 100" "length (origin_address tx) = 4" "nonce tx = None"
    "signature_r tx = None" "signature_s tx = None" "tx_hash tx = None" "version tx \<le> MAX_VALUE"
  shows "\<exists>st' r. written (version tx) st' \<and>
    tx_invoke demo_ext (tx_manager_new Invoke demo_info tx ADDR_U64_ENTRYPOINT n) st =
      Some (st', if version tx = 0 then Inr r else fail (AssertFail 4 0))"
  by (rule demo_tx_invoke) (simp_all add: demo_new_manager assms)

lemma demo_block_run:
  assumes "block_info b = demo_info" "v \<le> MAX_VALUE"
  shows "\<exists>b' r. block_invoke demo_ext (demo_tx v) b = Some (b', if v = 0 then Inr r else fail (AssertFail 4 0)) \<and>
    block_info b' = demo_info \<and> (v = 0 \<or> written v (storage b'))"
proof -
  let ?m = "tx_manager_new Invoke demo_info (demo_tx v) ADDR_U64_ENTRYPOINT (length (block_events b))"
  obtain st' r where "written v st'" "tx_invoke demo_ext ?m (clear_tx_cache (storage b)) =
      Some (st', if v = 0 then Inr r else fail (AssertFail 4 0))"
    using demo_tx_run [of "demo_tx v" "length (block_events b)" "clear_tx_cache (storage b)"] assms(2)
    by (auto simp: demo_tx_def)
  then show ?thesis
    using assms(1) by (cases "v = 0") (simp_all add: block_invoke_def Let_def block_on_tx_success_def)
qed

lemma demo_finish:
  assumes "block_info b = demo_info"
  shows "\<exists>b' r. finish_batch demo_ext b = Some (b', Inr r)"
proof -
  let ?tx = "finish_tx demo_info"
  let ?m = "tx_manager_new Invoke demo_info ?tx ADDR_U64_ENTRYPOINT (length (block_events b))"
  have "version ?tx = 0" by (simp add: finish_tx_def)
  then obtain st' r where "tx_invoke demo_ext ?m (storage b) = Some (st', Inr r)"
    using demo_tx_run [of ?tx "length (block_events b)" "storage b"] by (auto simp: finish_tx_def demo_info_def)
  then show ?thesis using assms by (simp add: finish_batch_def Let_def)
qed

subsection \<open>The theorems at work\<close>

lemma demo_block_info: "block_info demo_block = demo_info"
  by (simp add: demo_block_def block_manager_new_def demo_info_def)

lemma demo_failing:
  obtains b1 where "block_invoke demo_ext (demo_tx 1) demo_block = Some (b1, fail (AssertFail 4 0))"
    "block_info b1 = demo_info" "written 1 (storage b1)"
  using demo_block_run [OF demo_block_info, of 1] by (auto simp: MAX_VALUE_def)

theorem failed_tx_logs_leak_witness:
  "\<exists>b1 b2 r new. block_invoke demo_ext (demo_tx 1) demo_block = Some (b1, fail (AssertFail 4 0)) \<and>
     block_invoke demo_ext (demo_tx 0) b1 = Some (b2, Inr r) \<and> tx_storage_logs (storage b1) \<noteq> [] \<and>
     r_storage_access_logs r = tx_storage_logs (storage b1) @ new"
proof -
  obtain b1 where 1: "block_invoke demo_ext (demo_tx 1) demo_block = Some (b1, fail (AssertFail 4 0))"
    "block_info b1 = demo_info" "written 1 (storage b1)" by (rule demo_failing)
  obtain b2 r where 2: "block_invoke demo_ext (demo_tx 0) b1 = Some (b2, Inr r)"
    using demo_block_run [OF 1(2), of 0] by auto
  from failed_tx_logs_leak [OF 1(1) 2] 1 2 show ?thesis by (auto simp: written_def)
qed

theorem block_events_consecutive_witness:
  "\<exists>b1. block_invoke demo_ext (demo_tx 1) demo_block = Some (b1, fail (AssertFail 4 0)) \<and> block_events_ok b1"
proof -
  obtain b1 where 1: "block_invoke demo_ext (demo_tx 1) demo_block = Some (b1, fail (AssertFail 4 0))"
    by (rule demo_failing)
  have "block_events_ok demo_block" by (simp add: block_events_ok_def demo_block_def block_manager_new_def)
  from block_events_consecutive [OF this 1] 1 show ?thesis by blast
qed

theorem finish_batch_commits_failed_writes_witness:
  "\<exists>b1 b2 r. block_invoke demo_ext (demo_tx 1) demo_block = Some (b1, fail (AssertFail 4 0)) \<and>
     finish_batch demo_ext b1 = Some (b2, Inr r) \<and>
     get_tree_key ADDR_U64_ENTRYPOINT [1, 0, 0, 32769] \<in> dom (cached_storage (storage b2))"
proof -
  obtain b1 where 1: "block_invoke demo_ext (demo_tx 1) demo_block = Some (b1, fail (AssertFail 4 0))"
    "block_info b1 = demo_info" "written 1 (storage b1)" by (rule demo_failing)
  obtain b2 r where 2: "finish_batch demo_ext b1 = Some (b2, Inr r)" using demo_finish [OF 1(2)] by blast
  from finish_batch_commits_failed_writes [OF 2] 1 2 show ?thesis by (auto simp: written_def)
qed

end
