(* ===== verification/Isa.thy ===== *)
theory Isa
  imports Contract "HOL-Library.Monad_Syntax"
begin

text \<open>
  The instruction set of the virtual machine as an abstract specification: registers are a function,
  memory and storage are maps, the tape is a list, arithmetic is on integers modulo p, and every
  instruction is one line. There are no state or trace differences and no error messages; a step
  that must fail is \<open>None\<close>. The second half proves that \<open>run_one_step\<close> of the contract executor
  implements this specification on every opcode, and that the main loop \<open>resume\<close> implements runs of it.
\<close>

subsection \<open>The specification\<close>

record isa_state =
  i_pc :: u64
  i_reg :: "OlaRegister \<Rightarrow> u64"
  i_mem :: "u64 \<rightharpoonup> u64"
  i_psp :: u64
  i_psp_start :: u64
  i_tape :: "u64 list"
  i_out :: "u64 list"
  i_store :: "OlaStorageKey \<rightharpoonup> OlaStorageValue"
  i_events :: "(u64 list list \<times> u64 list) list"

definition fadd :: "u64 \<Rightarrow> u64 \<Rightarrow> u64" where
  "fadd a b = word_of_int ((uint a + uint b) mod gf_p)"

definition fmul :: "u64 \<Rightarrow> u64 \<Rightarrow> u64" where
  "fmul a b = word_of_int ((uint a * uint b) mod gf_p)"

definition fnot :: "u64 \<Rightarrow> u64" where
  "fnot a = word_of_int ((- 1 - uint a) mod gf_p)"

fun isa_operand :: "isa_state \<Rightarrow> OlaOperand \<Rightarrow> u64 option" where
  "isa_operand s (ImmediateOperand v) = (case imm_to_u64 v of Inr x \<Rightarrow> Some x | Inl _ \<Rightarrow> None)"
| "isa_operand s (RegisterOperand r) = Some (i_reg s r)"
| "isa_operand s (RegisterWithOffset r v) =
     (case imm_to_u64 v of Inr x \<Rightarrow> Some (fadd (i_reg s r) x) | Inl _ \<Rightarrow> None)"
| "isa_operand s (RegisterWithFactor r v) =
     (case imm_to_u64 v of Inr x \<Rightarrow> Some (fmul (i_reg s r) x) | Inl _ \<Rightarrow> None)"
| "isa_operand s (SpecialReg PC) = None"
| "isa_operand s (SpecialReg PSP) = Some (i_psp_start s)"

definition isa_opt :: "isa_state \<Rightarrow> OlaOperand option \<Rightarrow> u64 option" where
  "isa_opt s x = Option.bind x (isa_operand s)"

definition isa_dst :: "BinaryInstruction \<Rightarrow> OlaRegister option" where
  "isa_dst i = (case dst i of Some (RegisterOperand r) \<Rightarrow> Some r | _ \<Rightarrow> None)"

text \<open>The bitwise and comparison instructions take operands below 0xFFFFFFFF, which they exclude.\<close>

definition isa_arith :: "OlaOpcode \<Rightarrow> u64 \<Rightarrow> u64 \<Rightarrow> u64 option" where
  "isa_arith opc a b =
     (let small = (a < 0xFFFFFFFF \<and> b < 0xFFFFFFFF) in
      case opc of
        ADD \<Rightarrow> Some (fadd a b)
      | MUL \<Rightarrow> Some (fmul a b)
      | EQ \<Rightarrow> Some (of_bool (a = b))
      | NEQ \<Rightarrow> Some (of_bool (a \<noteq> b))
      | AND_OP \<Rightarrow> if small then Some (a AND b) else None
      | OR_OP \<Rightarrow> if small then Some (a OR b) else None
      | XOR_OP \<Rightarrow> if small then Some (a XOR b) else None
      | GTE \<Rightarrow> if small then Some (of_bool (b \<le> a)) else None
      | _ \<Rightarrow> None)"

definition region_end :: "u64 \<Rightarrow> u64" where
  "region_end a =
     (if a < MEM_STACK_END then MEM_STACK_END
      else if a < MEM_HEAP_END then MEM_HEAP_END else MEM_PROPHET_END)"

text \<open>A block of fewer than 2^32 cells that ends before the end of its region.\<close>

definition isa_block :: "isa_state \<Rightarrow> u64 \<Rightarrow> u64 \<Rightarrow> u64 list option" where
  "isa_block s a n =
     (if uint n < 2 ^ 32 \<and> uint a + uint n < uint (region_end a)
      then those (map (\<lambda>k. i_mem s (a + of_nat k)) [0..<unat n]) else None)"

text \<open>A write: cells of the prophet region are appended at \<open>psp\<close>, whatever the address.\<close>

definition isa_put :: "isa_state \<Rightarrow> u64 \<times> u64 \<Rightarrow> isa_state option" where
  "isa_put s = (\<lambda>(a, v).
     if gf_p < uint v then None
     else if in_stack_region a \<or> in_heap_region a then Some (s\<lparr>i_mem := (i_mem s)(a \<mapsto> v)\<rparr>)
     else if in_prophet_region a then
       Some (s\<lparr>i_mem := (if in_prophet_region (i_psp s) then (i_mem s)(i_psp s \<mapsto> v) else i_mem s),
               i_psp := i_psp s + 1\<rparr>)
     else None)"

fun isa_puts :: "isa_state \<Rightarrow> (u64 \<times> u64) list \<Rightarrow> isa_state option" where
  "isa_puts s [] = Some s"
| "isa_puts s (av # avs) = Option.bind (isa_put s av) (\<lambda>s'. isa_puts s' avs)"

definition isa_tape_values :: "isa_state \<Rightarrow> u64 \<Rightarrow> u64 \<Rightarrow> u64 list option" where
  "isa_tape_values s sel n =
     (if sel = 0 then (if unat n < length (i_tape s) then Some [i_tape s ! unat n] else None)
      else if sel = 1 \<and> unat n \<le> length (i_tape s)
        then Some (drop (length (i_tape s) - unat n) (i_tape s))
      else None)"

definition isa_verify :: "'c ext \<Rightarrow> u64 list \<Rightarrow> u64 option" where
  "isa_verify E ps =
     (case msg_ecdsa_verify E (slice 0 4 ps) (slice 4 8 ps) (slice 8 12 ps) (slice 12 16 ps) (slice 16 20 ps)
      of Inr b \<Rightarrow> Some (of_bool b) | Inl _ \<Rightarrow> None)"

text \<open>
  One instruction. \<open>self_addr\<close> is the storage address of the running contract, \<open>ro\<close> says that the run is a
  read-only call, \<open>tr\<close> that a trace is recorded; the latter matters for \<open>CALL\<close>, which then also
  reads the saved frame pointer.
\<close>

definition isa_step ::
    "'c ext \<Rightarrow> ContractAddress \<Rightarrow> bool \<Rightarrow> bool \<Rightarrow> BinaryInstruction \<Rightarrow> isa_state
      \<Rightarrow> (OlaContractExecutorState \<times> isa_state) option" where
  "isa_step E self_addr ro tr i s =
     (let s1 = s\<lparr>i_pc := i_pc s + of_nat (binary_length i)\<rparr>;
          fp = i_reg s R9;
          arith = do { a \<leftarrow> isa_opt s (op0 i); b \<leftarrow> isa_opt s (op1 i); r \<leftarrow> isa_dst i;
                       v \<leftarrow> isa_arith (opcode i) a b;
                       Some (Running, s1\<lparr>i_reg := (i_reg s)(r := v)\<rparr>) }
      in case opcode i of
        ADD \<Rightarrow> arith | MUL \<Rightarrow> arith | EQ \<Rightarrow> arith | NEQ \<Rightarrow> arith
      | AND_OP \<Rightarrow> arith | OR_OP \<Rightarrow> arith | XOR_OP \<Rightarrow> arith | GTE \<Rightarrow> arith
      | ASSERT \<Rightarrow>
          (case op1 i of
             Some (RegisterOperand r) \<Rightarrow> if i_reg s r = 1 then Some (Running, s1) else None
           | _ \<Rightarrow> None)
      | MOV \<Rightarrow> do { v \<leftarrow> isa_opt s (op1 i); r \<leftarrow> isa_dst i;
                    Some (Running, s1\<lparr>i_reg := (i_reg s)(r := v)\<rparr>) }
      | NOT_OP \<Rightarrow> do { v \<leftarrow> isa_opt s (op1 i); r \<leftarrow> isa_dst i;
                    Some (Running, s1\<lparr>i_reg := (i_reg s)(r := fnot v)\<rparr>) }
      | RC \<Rightarrow> do { v \<leftarrow> isa_opt s (op1 i); if uint v < 2 ^ 32 then Some (Running, s1) else None }
      | JMP \<Rightarrow> do { v \<leftarrow> isa_opt s (op1 i);
                    if op0 i = None then Some (Running, s\<lparr>i_pc := v\<rparr>) else None }
      | CJMP \<Rightarrow> do { c \<leftarrow> isa_opt s (op0 i); v \<leftarrow> isa_opt s (op1 i);
                    if c = 1 then Some (Running, s\<lparr>i_pc := v\<rparr>)
                    else if c = 0 then Some (Running, s1) else None }
      | CALL \<Rightarrow> do { v \<leftarrow> isa_opt s (op1 i);
                    if tr \<and> i_mem s (fp - 2) = None then None
                    else do { s2 \<leftarrow> isa_put (s\<lparr>i_pc := v\<rparr>) (fp - 1, i_pc s1); Some (Running, s2) } }
      | RET \<Rightarrow> do { ret_pc \<leftarrow> i_mem s (fp - 1); ret_fp \<leftarrow> i_mem s (fp - 2);
                    Some (Running, s\<lparr>i_pc := ret_pc, i_reg := (i_reg s)(R9 := ret_fp)\<rparr>) }
      | MLOAD \<Rightarrow> do { a \<leftarrow> isa_opt s (op0 i); b \<leftarrow> isa_opt s (op1 i); r \<leftarrow> isa_dst i;
                    v \<leftarrow> i_mem s (fadd a b);
                    Some (Running, s1\<lparr>i_reg := (i_reg s)(r := v)\<rparr>) }
      | MSTORE \<Rightarrow> do { a \<leftarrow> isa_opt s (op0 i); b \<leftarrow> isa_opt s (op1 i); r \<leftarrow> isa_dst i;
                    s2 \<leftarrow> isa_put s1 (fadd a b, i_reg s r); Some (Running, s2) }
      | END \<Rightarrow> Some (End (i_out s), s1)
      | POSEIDON \<Rightarrow> do { a \<leftarrow> isa_opt s (op0 i); n \<leftarrow> isa_opt s (op1 i); d \<leftarrow> isa_opt s (dst i);
                    vs \<leftarrow> isa_block s a n;
                    s2 \<leftarrow> isa_puts s1 (zip (four_from d) (calculate_arbitrary_poseidon_u64s vs));
                    Some (Running, s2) }
      | SLOAD \<Rightarrow> do { a \<leftarrow> isa_opt s (op0 i); b \<leftarrow> isa_opt s (op1 i); k \<leftarrow> isa_block s a 4;
                    if writable E (get_tree_key self_addr k) (i_store s)
                    then do { s2 \<leftarrow> isa_puts s1 (zip (four_from b)
                                (case i_store s (get_tree_key self_addr k) of Some v \<Rightarrow> v | None \<Rightarrow> [0, 0, 0, 0]));
                              Some (Running, s2) }
                    else None }
      | SSTORE \<Rightarrow> do { a \<leftarrow> isa_opt s (op0 i); b \<leftarrow> isa_opt s (op1 i); k \<leftarrow> isa_block s a 4; v \<leftarrow> isa_block s b 4;
                    if \<not> ro \<and> writable E (get_tree_key self_addr k) (i_store s)
                    then Some (Running, s1\<lparr>i_store := (i_store s)(get_tree_key self_addr k \<mapsto> v)\<rparr>) else None }
      | TLOAD \<Rightarrow> do { sel \<leftarrow> isa_opt s (op0 i); n \<leftarrow> isa_opt s (op1 i); d \<leftarrow> isa_opt s (dst i);
                    vs \<leftarrow> isa_tape_values s sel n;
                    s2 \<leftarrow> isa_puts s1 (zip (u64_range d (d + of_nat (length vs))) vs);
                    Some (Running, s2) }
      | TSTORE \<Rightarrow> do { a \<leftarrow> isa_opt s (op0 i); n \<leftarrow> isa_opt s (op1 i); vs \<leftarrow> isa_block s a n;
                    Some (Running, s1\<lparr>i_tape := i_tape s @ vs, i_out := i_out s @ vs\<rparr>) }
      | SCCALL \<Rightarrow> do { a \<leftarrow> isa_opt s (op0 i); delegate \<leftarrow> isa_opt s (op1 i); callee \<leftarrow> isa_block s a 4;
                    let stor = (if delegate = 1 then self_addr else callee) in
                    Some (if delegate = 1 then DelegateCalling callee else Calling callee,
                          s1\<lparr>i_tape := i_tape s @ self_addr @ callee @ stor, i_out := []\<rparr>) }
      | SIGCHECK \<Rightarrow> do { a \<leftarrow> isa_opt s (op1 i); r \<leftarrow> isa_dst i; ps \<leftarrow> isa_block s a 20; v \<leftarrow> isa_verify E ps;
                    Some (Running, s1\<lparr>i_reg := (i_reg s)(r := v)\<rparr>) }
      | EVENT \<Rightarrow> do { a \<leftarrow> isa_opt s (op0 i); b \<leftarrow> isa_opt s (op1 i);
                    n \<leftarrow> i_mem s a; addrs \<leftarrow> isa_block s (a + 1) n;
                    topics \<leftarrow> those (map (\<lambda>x. isa_block s x 4) addrs);
                    m \<leftarrow> i_mem s b; data \<leftarrow> isa_block s (b + 1) m;
                    if ro then None else Some (Running, s1\<lparr>i_events := i_events s @ [(topics, data)]\<rparr>) })"

text \<open>The lengths of the blocks an instruction reads, where the program chooses them.\<close>

definition isa_lengths :: "BinaryInstruction \<Rightarrow> isa_state \<Rightarrow> u64 option list" where
  "isa_lengths i s =
     (case opcode i of
        TSTORE \<Rightarrow> [isa_opt s (op1 i)]
      | POSEIDON \<Rightarrow> [isa_opt s (op1 i)]
      | EVENT \<Rightarrow> [Option.bind (isa_opt s (op0 i)) (i_mem s), Option.bind (isa_opt s (op1 i)) (i_mem s)]
      | _ \<Rightarrow> [])"

definition isa_short :: "BinaryInstruction \<Rightarrow> isa_state \<Rightarrow> bool" where
  "isa_short i s \<longleftrightarrow> list_all (\<lambda>n. case n of Some x \<Rightarrow> uint x < 2 ^ 32 | None \<Rightarrow> True) (isa_lengths i s)"

text \<open>
  Fetch and execute, and the condition under which the machine integers of the executor cannot wrap:
  the tape is below 2^60 cells and the blocks the instruction reads are below 2^32 cells.
\<close>

definition isa_next ::
    "'c ext \<Rightarrow> ContractAddress \<Rightarrow> bool \<Rightarrow> bool \<Rightarrow> (u64 \<rightharpoonup> BinaryInstruction) \<Rightarrow> isa_state
      \<Rightarrow> (OlaContractExecutorState \<times> isa_state) option" where
  "isa_next E self_addr ro tr program s =
     Option.bind (program (i_pc s)) (\<lambda>i. isa_step E self_addr ro tr i s)"

definition isa_small :: "(u64 \<rightharpoonup> BinaryInstruction) \<Rightarrow> isa_state \<Rightarrow> bool" where
  "isa_small program s \<longleftrightarrow> length (i_tape s) < 2 ^ 60 \<and>
     (case program (i_pc s) of Some i \<Rightarrow> isa_short i s | None \<Rightarrow> True)"

text \<open>
  Running a step function at most \<open>n\<close> times: it stops with an outcome other than \<open>Running\<close>, it gets
  stuck, or the bound or the side condition leaves the result open.
\<close>

datatype ('o, 's) run_result = Stopped 'o 's | Stuck | Undecided

fun run_upto ::
    "('s \<Rightarrow> (OlaContractExecutorState \<times> 's) option) \<Rightarrow> ('s \<Rightarrow> bool) \<Rightarrow> nat \<Rightarrow> 's
      \<Rightarrow> (OlaContractExecutorState, 's) run_result" where
  "run_upto step ok 0 s = Undecided"
| "run_upto step ok (Suc n) s =
     (if ok s then
        (case step s of
           None \<Rightarrow> Stuck
         | Some (out, s') \<Rightarrow> if out = Running then run_upto step ok n s' else Stopped out s')
      else Undecided)"

lemma run_upto_numeral:
  "run_upto step ok (numeral k) s =
     (if ok s then
        (case step s of
           None \<Rightarrow> Stuck
         | Some (out, s') \<Rightarrow> if out = Running then run_upto step ok (pred_numeral k) s' else Stopped out s')
      else Undecided)"
  by (simp add: numeral_eq_Suc)

subsection \<open>Abstraction\<close>

definition opt_of :: "'e + 'a \<Rightarrow> 'a option" where
  "opt_of r = (case r of Inr x \<Rightarrow> Some x | Inl _ \<Rightarrow> None)"

lemma opt_of_simps [simp]: "opt_of (Inr x) = Some x" "opt_of (Inl e) = None" "opt_of (fail p) = None"
  by (simp_all add: opt_of_def)

lemma opt_of_rbind [simp]: "opt_of (rbind r f) = Option.bind (opt_of r) (\<lambda>x. opt_of (f x))"
  by (cases r) simp_all

lemma opt_of_Some: "opt_of r = Some x \<longleftrightarrow> r = Inr x"
  by (cases r) simp_all

lemma opt_of_None: "opt_of r = None \<longleftrightarrow> (\<exists>e. r = Inl e)"
  by (cases r) simp_all

lemma opt_of_traverse: "opt_of (traverse f xs) = those (map (\<lambda>x. opt_of (f x)) xs)"
proof (induction xs)
  case (Cons x xs)
  show ?case by (cases "f x"; cases "traverse f xs") (simp_all add: Cons.IH [symmetric])
qed simp

text \<open>The executor, the tape, the storage and the event manager as one abstract state.\<close>

definition isa_rel ::
    "'c ext \<Rightarrow> OlaContractExecutor \<Rightarrow> OlaTape \<Rightarrow> TxEventManager \<Rightarrow> 'c OlaCachedStorage \<Rightarrow> isa_state \<Rightarrow> bool" where
  "isa_rel E e tape em st s \<longleftrightarrow>
     i_pc s = pc e \<and> i_reg s = get_reg e \<and> i_mem s = mem_peek (memory e) \<and>
     i_psp s = mem_psp (memory e) \<and> i_psp_start s = psp_start e \<and> tape_rep tape (i_tape s) \<and>
     i_out s = exe_output e \<and> i_store s = storage_view E st \<and>
     i_events s = map (\<lambda>ev. (ev_topics ev, ev_data ev)) (em_events em) \<and>
     length (registers e) = NUM_GENERAL_PURPOSE_REGISTER"

text \<open>The abstract state of an executor, with the cells of its tape given.\<close>

definition isa_of ::
    "'c ext \<Rightarrow> OlaContractExecutor \<Rightarrow> u64 list \<Rightarrow> TxEventManager \<Rightarrow> 'c OlaCachedStorage \<Rightarrow> isa_state" where
  "isa_of E e cells em st =
     \<lparr>i_pc = pc e, i_reg = get_reg e, i_mem = mem_peek (memory e), i_psp = mem_psp (memory e),
      i_psp_start = psp_start e, i_tape = cells, i_out = exe_output e, i_store = storage_view E st,
      i_events = map (\<lambda>ev. (ev_topics ev, ev_data ev)) (em_events em)\<rparr>"

lemma isa_rel_of:
  "tape_rep tape cells \<Longrightarrow> length (registers e) = NUM_GENERAL_PURPOSE_REGISTER \<Longrightarrow>
     isa_rel E e tape em st (isa_of E e cells em st)"
  by (simp add: isa_rel_def isa_of_def)

lemma canonical_ops:
  "to_canonical_u64 (gf_add (from_canonical_u64 a) (from_canonical_u64 b)) = fadd a b"
  "to_canonical_u64 (gf_mul (from_canonical_u64 a) (from_canonical_u64 b)) = fmul a b"
  "to_canonical_u64 (gf_sub NEG_ONE (from_canonical_u64 a)) = fnot a"
proof -
  have w: "to_canonical_u64 x = word_of_int (gf_val x)" for x
    using uint_to_canonical_u64 [of x] by (metis word_of_int_uint)
  have "uint NEG_ONE = gf_p - 1" by (simp add: NEG_ONE_def ORDER_def gf_p_def)
  then have n: "gf_val NEG_ONE = gf_p - 1" by (simp add: gf_val_def gf_p_def)
  have "gf_p - 1 - uint a = (- 1 - uint a) + gf_p" by simp
  then have "(gf_p - 1 - uint a) mod gf_p = (- 1 - uint a) mod gf_p" by (simp only: mod_add_self2)
  then have m: "(gf_val a + gf_val b) mod gf_p = (uint a + uint b) mod gf_p"
    "gf_val a * gf_val b mod gf_p = uint a * uint b mod gf_p"
    "(gf_p - 1 - gf_val a) mod gf_p = (- 1 - uint a) mod gf_p"
    by (simp_all add: gf_val_def mod_simps)
  show "to_canonical_u64 (gf_add (from_canonical_u64 a) (from_canonical_u64 b)) = fadd a b"
    "to_canonical_u64 (gf_mul (from_canonical_u64 a) (from_canonical_u64 b)) = fmul a b"
    "to_canonical_u64 (gf_sub NEG_ONE (from_canonical_u64 a)) = fnot a"
    by (simp_all add: w gf_val_ops fadd_def fmul_def fnot_def from_canonical_u64_def m n)
qed

lemma isa_rel_operand:
  assumes "isa_rel E e tape em st s"
  shows "opt_of (get_operand_value e x) = isa_operand s x"
  using assms
  by (cases "(e, x)" rule: get_operand_value.cases)
    (auto simp: isa_rel_def imm_value_def canonical_ops split: sum.splits)

lemma isa_rel_opt:
  assumes "isa_rel E e tape em st s"
  shows "opt_of (operand_or_fail e nm i x) = isa_opt s x"
  using isa_rel_operand [OF assms] by (cases x) (simp_all add: operand_or_fail_def isa_opt_def)

lemma isa_dst_reg: "opt_of (dst_reg_or_fail i) = isa_dst i"
  by (auto simp: dst_reg_or_fail_def isa_dst_def split: option.splits OlaOperand.splits)

lemma opt_mem_read: "opt_of (mem_read m a) = mem_peek m a"
  by (auto simp: mem_read_peek split: option.splits)

lemma region_uint:
  "a < MEM_STACK_END \<longleftrightarrow> uint a < 18446744060824649731"
  "a < MEM_HEAP_END \<longleftrightarrow> uint a < 18446744065119617026"
  "a < MEM_PROPHET_END \<longleftrightarrow> uint a < 18446744069414584321"
  by (simp_all add: region_bounds word_less_def)

lemma in_region_uint:
  "in_stack_region a \<longleftrightarrow> uint a < 18446744060824649731"
  "in_heap_region a \<longleftrightarrow> 18446744060824649731 \<le> uint a \<and> uint a < 18446744065119617026"
  "in_prophet_region a \<longleftrightarrow> 18446744065119617026 \<le> uint a \<and> uint a < 18446744069414584321"
  by (simp_all add: in_stack_region_def in_heap_region_def in_prophet_region_def region_uint not_less [symmetric])

lemma region_end_uint:
  "uint (region_end a) =
     (if uint a < 18446744060824649731 then 18446744060824649731
      else if uint a < 18446744065119617026 then 18446744065119617026 else 18446744069414584321)"
  unfolding region_end_def region_uint by (simp add: region_bounds)

lemma uint_add_short:
  "uint n < 2 ^ 32 \<Longrightarrow> uint a < 18446744069414584321 \<Longrightarrow> uint (a + n :: u64) = uint a + uint n"
  by (simp add: uint_word_ariths)

lemma uint_of_nat_small: "int k < 2 ^ 64 \<Longrightarrow> uint (of_nat k :: u64) = int k"
  by (simp only: uint_nat unat_of_nat_u64 of_nat_less_numeral_power_cancel_iff)

lemma block_regions:
  assumes "uint a + uint n < uint (region_end a)" "int k < uint n"
  obtains "uint a < 18446744060824649731" "uint a + int k < 18446744060824649731"
  | "18446744060824649731 \<le> uint a" "uint a < 18446744065119617026" "uint a + int k < 18446744065119617026"
  | "18446744065119617026 \<le> uint a" "uint a + int k < 18446744069414584321"
  using assms unfolding region_end_uint by (simp split: if_splits)

lemma region_end_le: "uint (region_end a) \<le> 18446744069414584321"
  unfolding region_end_uint by simp

lemma peek_block:
  assumes "uint a + uint n < uint (region_end a)" "k < unat n" "uint n < 2 ^ 32"
  shows "mem_peek m (a + of_nat k) =
    (if a < MEM_STACK_END then stack_region m else if a < MEM_HEAP_END then heap_region m
     else prophet_region m) (a + of_nat k)"
proof -
  have k: "int k < uint n" using assms(2) by (simp only: uint_nat of_nat_less_iff)
  then have "int k < 2 ^ 64" using assms(3) by simp
  then have wk: "uint (of_nat k :: u64) = int k" by (rule uint_of_nat_small)
  have a: "uint a < 18446744069414584321"
    using assms(1) uint_ge_0 [of n] region_end_le [of a] by linarith
  have "uint (of_nat k :: u64) < 2 ^ 32" unfolding wk using k assms(3) by (rule less_trans)
  from uint_add_short [OF this a] have u: "uint (a + of_nat k) = uint a + int k" unfolding wk .
  from assms(1) k show ?thesis
    by (rule block_regions) (simp_all add: mem_peek_def in_region_uint region_uint u)
qed

lemma batch_check:
  assumes "uint n < 2 ^ 32"
  shows "opt_of (mem_batch_read m a n) =
    (if uint a + uint n < uint (region_end a)
     then opt_of (region_batch_read (if a < MEM_STACK_END then stack_region m
       else if a < MEM_HEAP_END then heap_region m else prophet_region m) a n) else None)"
proof (cases "uint a < 18446744069414584321")
  case True
  then have "uint (a + n) = uint a + uint n" using assms by (intro uint_add_short)
  then show ?thesis using True
    by (simp add: mem_batch_read_def region_uint region_end_uint not_less [symmetric])
next
  case False
  then have "\<not> uint a + uint n < uint (region_end a)"
    using uint_ge_0 [of n] region_end_le [of a] by linarith
  with False show ?thesis by (simp add: mem_batch_read_def region_uint)
qed

lemma opt_batch_read:
  assumes "uint n < 2 ^ 32"
  shows "opt_of (mem_batch_read m a n) =
    (if uint a + uint n < uint (region_end a)
     then those (map (\<lambda>k. mem_peek m (a + of_nat k)) [0..<unat n]) else None)"
proof -
  have "unat n < 2 ^ 32" using assms by (simp only: uint_nat of_nat_less_numeral_power_cancel_iff)
  then have cap: "vec_with_capacity n = Inr ()" by (simp add: vec_with_capacity_def guard_def)
  have one: "opt_of (region_read r x) = r x" for r x
    by (simp add: region_read_def split: option.split)
  have read: "opt_of (region_batch_read r a n) = those (map (\<lambda>k. r (a + of_nat k)) [0..<unat n])" for r
    by (simp add: region_batch_read_def cap opt_of_traverse addr_run_def one comp_def)
  have cells: "map (\<lambda>k. mem_peek m (a + of_nat k)) [0..<unat n] =
      map (\<lambda>k. (if a < MEM_STACK_END then stack_region m else if a < MEM_HEAP_END then heap_region m
       else prophet_region m) (a + of_nat k)) [0..<unat n]" if "uint a + uint n < uint (region_end a)"
    using peek_block [OF that _ assms] by (intro map_cong) auto
  show ?thesis by (simp only: batch_check [OF assms] read cells cong: if_cong)
qed

lemma isa_rel_block:
  assumes "isa_rel E e tape em st s" "uint n < 2 ^ 32"
  shows "opt_of (mem_batch_read (memory e) a n) = isa_block s a n"
  using assms by (simp add: opt_batch_read isa_block_def isa_rel_def)

lemma get_reg_updates [simp]:
  "get_reg (e\<lparr>memory := m\<rparr>) = get_reg e" "get_reg (e\<lparr>pc := v\<rparr>) = get_reg e"
  "get_reg (e\<lparr>exe_output := os\<rparr>) = get_reg e" "get_reg (e\<lparr>clk := v\<rparr>) = get_reg e"
  "get_reg (e\<lparr>exe_state := x\<rparr>) = get_reg e"
  by (simp_all add: get_reg_def fun_eq_iff)

lemma peek_updates:
  "in_stack_region a \<Longrightarrow> mem_peek (m\<lparr>stack_region := (stack_region m)(a \<mapsto> v)\<rparr>) = (mem_peek m)(a \<mapsto> v)"
  "in_heap_region a \<Longrightarrow> mem_peek (m\<lparr>heap_region := (heap_region m)(a \<mapsto> v)\<rparr>) = (mem_peek m)(a \<mapsto> v)"
  "mem_peek (m\<lparr>prophet_region := (prophet_region m)(a \<mapsto> v), mem_psp := w\<rparr>) =
     (if in_prophet_region a then (mem_peek m)(a \<mapsto> v) else mem_peek m)"
  using regions_disjoint [of a] by (auto simp: mem_peek_def fun_eq_iff)

lemma isa_put_write:
  assumes "isa_rel E e tape em st s"
  shows "case isa_put s (a, v) of
      None \<Rightarrow> \<exists>err. mem_write (memory e) a v = Inl err
    | Some s' \<Rightarrow> \<exists>m. mem_write (memory e) a v = Inr m \<and> isa_rel E (e\<lparr>memory := m\<rparr>) tape em st s'"
proof -
  have v: "MAX_VALUE < v \<longleftrightarrow> gf_p < uint v" by (simp add: MAX_VALUE_def gf_p_def word_less_def)
  consider "gf_p < uint v" | "\<not> gf_p < uint v" "in_stack_region a"
    | "\<not> gf_p < uint v" "\<not> in_stack_region a" "in_heap_region a"
    | "\<not> gf_p < uint v" "\<not> in_stack_region a" "\<not> in_heap_region a" "in_prophet_region a"
    | "\<not> gf_p < uint v" "\<not> in_stack_region a" "\<not> in_heap_region a" "\<not> in_prophet_region a" by blast
  then show ?thesis
    using assms by cases
      (simp_all add: isa_put_def mem_write_def mem_write_prophet_def v isa_rel_def peek_updates)
qed

lemma isa_puts_writes:
  assumes "isa_rel E e tape em st s"
  shows "case isa_puts s avs of
      None \<Rightarrow> \<exists>err. rfold (\<lambda>m d. mem_write m (md_addr d) (md_value d)) (memory e)
                (map (\<lambda>(a, v). \<lparr>md_addr = a, md_value = v\<rparr>) avs) = Inl err
    | Some s' \<Rightarrow> \<exists>m. rfold (\<lambda>m d. mem_write m (md_addr d) (md_value d)) (memory e)
                (map (\<lambda>(a, v). \<lparr>md_addr = a, md_value = v\<rparr>) avs) = Inr m \<and>
                isa_rel E (e\<lparr>memory := m\<rparr>) tape em st s'"
  using assms
proof (induction avs arbitrary: e s)
  case (Cons av avs)
  obtain a v where av: "av = (a, v)" by (cases av)
  show ?case
  proof (cases "isa_put s (a, v)")
    case None
    with isa_put_write [OF Cons.prems, of a v] av show ?thesis by auto
  next
    case (Some s1)
    with isa_put_write [OF Cons.prems, of a v] obtain m where
      m: "mem_write (memory e) a v = Inr m" "isa_rel E (e\<lparr>memory := m\<rparr>) tape em st s1" by auto
    from Cons.IH [OF m(2)] Some m(1) av show ?thesis by (simp split: option.splits)
  qed
qed simp

subsection \<open>Applying differences\<close>

fun isa_stores :: "'c ext \<Rightarrow> ContractAddress \<Rightarrow> isa_state \<Rightarrow> StorageDiff list \<Rightarrow> isa_state option" where
  "isa_stores E self_addr s [] = Some s"
| "isa_stores E self_addr s (d # ds) =
     (let t = get_tree_key self_addr (sd_storage_key d) in
      if writable E t (i_store s)
      then isa_stores E self_addr (s\<lparr>i_store := (i_store s)(t \<mapsto> sd_value d)\<rparr>) ds else None)"

fun isa_diff :: "'c ext \<Rightarrow> ContractAddress \<Rightarrow> isa_state \<Rightarrow> OlaStateDiff \<Rightarrow> isa_state option" where
  "isa_diff E self_addr s (SpecReg d) = Some (case sr_pc d of Some v \<Rightarrow> s\<lparr>i_pc := v\<rparr> | None \<Rightarrow> s)"
| "isa_diff E self_addr s (RegisterD ds) =
     Some (s\<lparr>i_reg := foldl (\<lambda>r d. r(rd_register d := rd_value d)) (i_reg s) ds\<rparr>)"
| "isa_diff E self_addr s (MemoryD ds) = isa_puts s (map (\<lambda>d. (md_addr d, md_value d)) ds)"
| "isa_diff E self_addr s (StorageD ds) = isa_stores E self_addr s ds"
| "isa_diff E self_addr s (TapeD ds) =
     Some (s\<lparr>i_tape := i_tape s @ map td_value ds, i_out := i_out s @ map td_value ds\<rparr>)"

fun isa_diffs :: "'c ext \<Rightarrow> ContractAddress \<Rightarrow> isa_state \<Rightarrow> OlaStateDiff list \<Rightarrow> isa_state option" where
  "isa_diffs E self_addr s [] = Some s"
| "isa_diffs E self_addr s (d # ds) = Option.bind (isa_diff E self_addr s d) (\<lambda>s'. isa_diffs E self_addr s' ds)"

fun tape_room :: "OlaStateDiff list \<Rightarrow> nat" where
  "tape_room [] = 0"
| "tape_room (TapeD ds # rest) = length ds + tape_room rest"
| "tape_room (_ # rest) = tape_room rest"

lemma get_reg_set:
  assumes "length (registers e) = NUM_GENERAL_PURPOSE_REGISTER"
  shows "get_reg (e\<lparr>registers := (registers e)[reg_index r := v]\<rparr>) = (get_reg e)(r := v)"
  using assms reg_index_less by (auto simp: get_reg_def fun_eq_iff reg_index_inject)

lemma registers_fold:
  assumes "isa_rel E e tape em st s"
  shows "isa_rel E (e\<lparr>registers := foldl (\<lambda>rs d. rs[reg_index (rd_register d) := rd_value d]) (registers e) ds\<rparr>)
    tape em st (s\<lparr>i_reg := foldl (\<lambda>r d. r(rd_register d := rd_value d)) (i_reg s) ds\<rparr>)"
  using assms
proof (induction ds arbitrary: e s)
  case (Cons d ds)
  have "isa_rel E (e\<lparr>registers := (registers e)[reg_index (rd_register d) := rd_value d]\<rparr>) tape em st
      (s\<lparr>i_reg := (i_reg s)(rd_register d := rd_value d)\<rparr>)"
    using Cons.prems get_reg_set [of e] by (simp add: isa_rel_def)
  from Cons.IH [OF this] show ?case by simp
qed simp

lemma isa_stores_apply:
  assumes "isa_rel E e tape em st s"
  shows "case isa_stores E a s ds of
      None \<Rightarrow> \<exists>st' err. sfold (\<lambda>et d. sbind (sstore E a (sd_storage_key d) (sd_value d)) (\<lambda>_. slift (Inr et)))
                (e, tape) ds st = (st', Inl err)
    | Some s' \<Rightarrow> \<exists>st'. sfold (\<lambda>et d. sbind (sstore E a (sd_storage_key d) (sd_value d)) (\<lambda>_. slift (Inr et)))
                (e, tape) ds st = (st', Inr (e, tape)) \<and> isa_rel E e tape em st' s'"
  using assms
proof (induction ds arbitrary: st s)
  case (Cons d ds)
  let ?t = "get_tree_key a (sd_storage_key d)"
  obtain st1 r where s1: "sstore E a (sd_storage_key d) (sd_value d) st = (st1, r)"
    by (cases "sstore E a (sd_storage_key d) (sd_value d) st")
  have V: "i_store s = storage_view E st" using Cons.prems by (simp add: isa_rel_def)
  show ?case
  proof (cases "writable E ?t (storage_view E st)")
    case True
    then have r: "r = Inr ()"
      using s1 by (cases rule: get_pre_value_cases [of E a "sd_storage_key d" st])
        (auto simp: sstore_def storage_write_def sbind_def Let_def)
    have "isa_rel E e tape em st1 (s\<lparr>i_store := (i_store s)(?t \<mapsto> sd_value d)\<rparr>)"
      using Cons.prems sstore_views(1) [of E a "sd_storage_key d" "sd_value d" st] True s1
      by (simp add: isa_rel_def)
    from Cons.IH [OF this] show ?thesis
      using s1 r True V by (simp add: sbind_def Let_def split: option.splits)
  next
    case False
    then have "\<exists>err. r = Inl err" using s1 by (cases r) (auto dest: sstore_Inr(1))
    then show ?thesis using s1 False V by (auto simp: sbind_def)
  qed
qed simp

lemma isa_diff_apply:
  assumes rel: "isa_rel E e tape em st s" and room: "length (i_tape s) + tape_room [d] < 2 ^ 64"
  shows "case isa_diff E (storage_addr (exe_context e)) s d of
      None \<Rightarrow> \<exists>st' err. apply_diff E (e, tape) d st = (st', Inl err)
    | Some s' \<Rightarrow> \<exists>st' e' tape'. apply_diff E (e, tape) d st = (st', Inr (e', tape')) \<and>
        isa_rel E e' tape' em st' s' \<and> exe_context e' = exe_context e"
proof (cases d)
  case (SpecReg x)
  then show ?thesis using rel by (auto simp: apply_diff_def isa_rel_def split: option.splits)
next
  case (RegisterD ds)
  then show ?thesis using registers_fold [OF rel] by (simp add: apply_diff_def)
next
  case (MemoryD ds)
  have "map (\<lambda>(a, v). \<lparr>md_addr = a, md_value = v\<rparr>) (map (\<lambda>d. (md_addr d, md_value d)) ds) = ds"
    by (induction ds) simp_all
  with isa_puts_writes [OF rel, of "map (\<lambda>d. (md_addr d, md_value d)) ds"] MemoryD show ?thesis
    by (auto simp: apply_diff_def split: option.splits)
next
  case (StorageD ds)
  then show ?thesis using isa_stores_apply [OF rel, of "storage_addr (exe_context e)" ds]
    by (auto simp: apply_diff_def split: option.splits)
next
  case (TapeD ds)
  have "tape_rep (tape_batch_write tape (map td_value ds)) (i_tape s @ map td_value ds)"
    using rel room TapeD by (intro tape_rep_batch_write) (simp_all add: isa_rel_def)
  then show ?thesis using rel TapeD by (simp add: apply_diff_def isa_rel_def tape_batch_write_def)
qed

lemma isa_diffs_apply:
  assumes "isa_rel E e tape em st s" "length (i_tape s) + tape_room ds < 2 ^ 64"
  shows "case isa_diffs E (storage_addr (exe_context e)) s ds of
      None \<Rightarrow> \<exists>st' err. apply_state_diff E e tape ds st = (st', Inl err)
    | Some s' \<Rightarrow> \<exists>st' e' tape'. apply_state_diff E e tape ds st = (st', Inr (e', tape')) \<and>
        isa_rel E e' tape' em st' s'"
  unfolding apply_state_diff_def using assms
proof (induction ds arbitrary: e tape st s)
  case (Cons d ds)
  let ?a = "storage_addr (exe_context e)"
  have room: "length (i_tape s) + tape_room [d] < 2 ^ 64" using Cons.prems(2) by (cases d) simp_all
  show ?case
  proof (cases "isa_diff E ?a s d")
    case None
    with isa_diff_apply [OF Cons.prems(1) room] show ?thesis by (auto simp: sbind_def)
  next
    case (Some s1)
    with isa_diff_apply [OF Cons.prems(1) room] obtain st1 e1 tape1 where
      a: "apply_diff E (e, tape) d st = (st1, Inr (e1, tape1))" "isa_rel E e1 tape1 em st1 s1"
      "exe_context e1 = exe_context e" by auto
    have "length (i_tape s1) + tape_room ds < 2 ^ 64"
    proof (cases d)
      case (MemoryD x)
      have "i_tape s' = i_tape s" if "isa_puts s avs = Some s'" for s s' avs
        using that by (induction avs arbitrary: s)
          (auto simp: isa_put_def bind_eq_Some_conv split: prod.splits if_splits)
      with MemoryD Some Cons.prems(2) show ?thesis by auto
    next
      case (StorageD x)
      have "i_tape s' = i_tape s" if "isa_stores E b s ds = Some s'" for s s' b ds
        using that by (induction ds arbitrary: s) (auto simp: Let_def split: if_splits)
      with StorageD Some Cons.prems(2) show ?thesis by auto
    qed (use Some Cons.prems(2) in \<open>auto split: option.splits\<close>)
    from Cons.IH [OF a(2) this] a Some show ?thesis by (simp add: sbind_def split: option.splits)
  qed
qed simp

subsection \<open>One step\<close>

definition step_refines ::
    "'c ext \<Rightarrow> BinaryInstruction \<Rightarrow> OlaContractExecutor \<Rightarrow> TxWorld \<Rightarrow> 'c OlaCachedStorage \<Rightarrow> isa_state \<Rightarrow> bool" where
  "step_refines E i e w st s \<longleftrightarrow>
     (case isa_step E (storage_addr (exe_context e)) (mode e = Call) (is_trace_needed e) i s of
        None \<Rightarrow> \<exists>st' err. run_one_step E i e w st = (st', Inl err)
      | Some (out, s') \<Rightarrow> \<exists>st' e' w'. run_one_step E i e w st = (st', Inr (out, e', w')) \<and>
          isa_rel E e' (w_tape w') (w_events w') st' s')"

lemma dispatch_fails:
  assumes "dispatch E e i (w_tape w) (w_events w) st = (st', Inl err)"
  shows "\<exists>st' err. run_one_step E i e w st = (st', Inl err)"
  using assms by (cases "sccall_params e i") (auto simp: run_one_step_def process_step_def sbind_def)

lemma dispatch_runs:
  assumes "dispatch E e i (w_tape w) (w_events w) st = (st1, Inr (em, ds, td))" "prophet i = None"
    "opcode i \<noteq> SCCALL" "opcode i \<noteq> END" "isa_rel E e (w_tape w) em st1 s1"
    "length (i_tape s1) + tape_room ds < 2 ^ 64"
  shows "case isa_diffs E (storage_addr (exe_context e)) s1 ds of
      None \<Rightarrow> \<exists>st' err. run_one_step E i e w st = (st', Inl err)
    | Some s' \<Rightarrow> \<exists>st' e' w'. run_one_step E i e w st = (st', Inr (Running, e', w')) \<and>
        isa_rel E e' (w_tape w') (w_events w') st' s'"
proof -
  have p: "sccall_params e i = Inr None" using assms(3) by (simp add: sccall_params_def)
  have o: "step_outcome x i ps = Inr (Running, x)" for x ps
    using assms(3,4) by (auto simp: step_outcome_def split: OlaOpcode.splits)
  have clk: "isa_rel E (x\<lparr>clk := v\<rparr>) tape em st s = isa_rel E x tape em st s" for x v tape em st s
    by (simp add: isa_rel_def)
  show ?thesis
    using isa_diffs_apply [OF assms(5,6)] assms(1,2)
    by (auto simp: run_one_step_def process_step_def sbind_def p o clk Let_def split: option.splits)
qed

text \<open>The handlers that only compute differences, by the differences they compute.\<close>

lemma pure_refines:
  assumes disp: "dispatch E e i (w_tape w) (w_events w) = slift (rbind r (\<lambda>d. Inr (w_events w, d)))"
    and diffs: "map_option fst (opt_of r) = D"
    and rel: "isa_rel E e (w_tape w) (w_events w) st s"
    and i: "prophet i = None" "opcode i \<noteq> SCCALL" "opcode i \<noteq> END"
    and room: "\<And>ds. D = Some ds \<Longrightarrow> length (i_tape s) + tape_room ds < 2 ^ 64"
    and spec: "isa_step E (storage_addr (exe_context e)) (mode e = Call) (is_trace_needed e) i s =
      map_option (Pair Running) (Option.bind D (isa_diffs E (storage_addr (exe_context e)) s))"
  shows "step_refines E i e w st s"
proof (cases r)
  case (Inl err)
  then have "D = None" using diffs by simp
  moreover have "\<exists>st' err. run_one_step E i e w st = (st', Inl err)"
    using Inl disp by (intro dispatch_fails) simp
  ultimately show ?thesis by (simp add: step_refines_def spec)
next
  case (Inr x)
  obtain ds td where x: "x = (ds, td)" by (cases x)
  with Inr diffs have D: "D = Some ds" by simp
  have "dispatch E e i (w_tape w) (w_events w) st = (st, Inr (w_events w, ds, td))"
    using Inr x disp by simp
  from dispatch_runs [OF this i rel room [OF D]] show ?thesis
    by (auto simp: step_refines_def spec D split: option.splits)
qed

lemma traced_Inr: "traced e (Inr x) = Inr (if is_trace_needed e then Some x else None)"
  by (simp add: traced_def)

lemma opt_of_guard: "opt_of (guard e b) = (if b then Some () else None)"
  by (simp add: guard_def)

lemma rel_spec_pc [simp]:
  "isa_diff E a s (spec_pc v) = Some (s\<lparr>i_pc := v\<rparr>)"
  "isa_diff E a s (mem_diff_of avs) = isa_puts s avs"
  "isa_diff E a s (tape_diff_of vs) = Some (s\<lparr>i_tape := i_tape s @ vs, i_out := i_out s @ vs\<rparr>)"
  by (simp_all add: spec_pc_def mem_diff_of_def tape_diff_of_def comp_def case_prod_beta)

lemma room_simps [simp]:
  "tape_room (spec_pc v # ds) = tape_room ds" "tape_room (mem_diff_of avs # ds) = tape_room ds"
  "tape_room (tape_diff_of vs # ds) = length vs + tape_room ds"
  "tape_room (get_state_diff_only_dst_reg e i r v) = 0"
  by (simp_all add: spec_pc_def mem_diff_of_def tape_diff_of_def get_state_diff_only_dst_reg_def)

lemma traced_const: "\<exists>d. T = Inr d \<Longrightarrow> Option.bind (opt_of (traced e T)) (\<lambda>_. x) = x"
  by (auto simp: traced_Inr)

lemmas trace_simps = traced_Inr get_trace_diff_with_cpu_def get_common_cpu_exe_pieces_def get_inst_imm_u64_wf

lemmas operand_simps = get_op1_def get_op0_op1_and_dst_reg_def get_op1_and_dst_reg_def get_op0_op1_def
  get_op0_op1_and_dst_def rbind_assoc

lemma map_option_bind: "map_option f (Option.bind m g) = Option.bind m (\<lambda>x. map_option f (g x))"
  by (cases m) simp_all

definition pure_handler :: "'c ext \<Rightarrow> OlaContractExecutor \<Rightarrow> BinaryInstruction \<Rightarrow> OlaTape \<Rightarrow> step_diffs result" where
  "pure_handler E e i tape =
     (let tp = tape_tp tape in
      case opcode i of
        ASSERT \<Rightarrow> process_assert e tp i
      | MOV \<Rightarrow> process_mov e tp i
      | JMP \<Rightarrow> process_jmp e tp i
      | CJMP \<Rightarrow> process_jmp e tp i
      | CALL \<Rightarrow> process_call e tp i
      | RET \<Rightarrow> process_ret e tp i
      | MLOAD \<Rightarrow> process_mload e tp i
      | MSTORE \<Rightarrow> process_mstore e tp i
      | END \<Rightarrow> process_end e tp i
      | RC \<Rightarrow> process_rc e tp i
      | NOT_OP \<Rightarrow> process_not e tp i
      | POSEIDON \<Rightarrow> process_poseidon e tp i
      | TLOAD \<Rightarrow> process_tload e i tape
      | TSTORE \<Rightarrow> process_tstore e i tape
      | SCCALL \<Rightarrow> process_sccall e i tape
      | SIGCHECK \<Rightarrow> process_sigcheck E e tp i
      | _ \<Rightarrow> process_two_operands_arithmetic_op e tp i)"

lemma dispatch_pure:
  assumes "opcode i \<noteq> SLOAD" "opcode i \<noteq> SSTORE" "opcode i \<noteq> EVENT"
  shows "dispatch E e i tape em = slift (rbind (pure_handler E e i tape) (\<lambda>d. Inr (em, d)))"
  using assms by (cases "opcode i") (simp_all add: dispatch_def pure_handler_def Let_def)

lemma bind_Some_map: "Option.bind m (\<lambda>x. Some (c, x)) = map_option (Pair c) m"
  by (cases m) simp_all

text \<open>What the handlers of each group compute, in terms of the specification.\<close>

lemma diffs_arith:
  assumes rel: "isa_rel E e tape em st s" and wf: "wf_inst i"
    and opc: "opcode i \<in> {ADD, MUL, EQ, NEQ, AND_OP, OR_OP, XOR_OP, GTE}"
  shows "map_option fst (opt_of (process_two_operands_arithmetic_op e tp i)) =
      do { a \<leftarrow> isa_opt s (op0 i); b \<leftarrow> isa_opt s (op1 i); r \<leftarrow> isa_dst i; v \<leftarrow> isa_arith (opcode i) a b;
           Some (get_state_diff_only_dst_reg e i r v) }"
  using opc
  by (auto simp: process_two_operands_arithmetic_op_def operand_simps isa_rel_opt [OF rel] isa_dst_reg
      trace_simps wf map_option_bind opt_of_guard arith_result_def isa_arith_def canonical_ops
      not_less [symmetric] intro!: Option.bind_cong)

lemma diffs_moves:
  assumes rel: "isa_rel E e tape em st s" and wf: "wf_inst i"
  shows "map_option fst (opt_of (process_mov e tp i)) =
      do { v \<leftarrow> isa_opt s (op1 i); r \<leftarrow> isa_dst i; Some (get_state_diff_only_dst_reg e i r v) }"
    "map_option fst (opt_of (process_not e tp i)) =
      do { v \<leftarrow> isa_opt s (op1 i); r \<leftarrow> isa_dst i; Some (get_state_diff_only_dst_reg e i r (fnot v)) }"
    "map_option fst (opt_of (process_rc e tp i)) =
      do { v \<leftarrow> isa_opt s (op1 i); if uint v < 2 ^ 32 then Some [spec_pc (next_pc e i)] else None }"
    "map_option fst (opt_of (process_assert e tp i)) =
      (case op1 i of Some (RegisterOperand r) \<Rightarrow> if i_reg s r = 1 then Some [spec_pc (next_pc e i)] else None
       | _ \<Rightarrow> None)"
proof -
  have rc: "\<not> 0xFFFFFFFF < v \<longleftrightarrow> uint v < 2 ^ 32" for v :: u64 by (auto simp: word_less_def)
  have reg: "get_reg e = i_reg s" using rel by (simp add: isa_rel_def)
  note simps = operand_simps isa_rel_opt [OF rel] isa_dst_reg trace_simps wf map_option_bind opt_of_guard
    canonical_ops Let_def
  show "map_option fst (opt_of (process_mov e tp i)) =
      do { v \<leftarrow> isa_opt s (op1 i); r \<leftarrow> isa_dst i; Some (get_state_diff_only_dst_reg e i r v) }"
    by (simp add: process_mov_def simps get_state_diff_only_dst_reg_def)
  show "map_option fst (opt_of (process_not e tp i)) =
      do { v \<leftarrow> isa_opt s (op1 i); r \<leftarrow> isa_dst i; Some (get_state_diff_only_dst_reg e i r (fnot v)) }"
    by (simp add: process_not_def simps)
  show "map_option fst (opt_of (process_rc e tp i)) =
      do { v \<leftarrow> isa_opt s (op1 i); if uint v < 2 ^ 32 then Some [spec_pc (next_pc e i)] else None }"
    by (auto simp: process_rc_def simps rc intro!: Option.bind_cong)
  show "map_option fst (opt_of (process_assert e tp i)) =
      (case op1 i of Some (RegisterOperand r) \<Rightarrow> if i_reg s r = 1 then Some [spec_pc (next_pc e i)] else None
       | _ \<Rightarrow> None)"
    by (auto simp: process_assert_def simps reg split: option.split OlaOperand.split)
qed

lemma diffs_jumps:
  assumes rel: "isa_rel E e tape em st s" and wf: "wf_inst i"
  shows "opcode i = JMP \<Longrightarrow> map_option fst (opt_of (process_jmp e tp i)) =
      do { v \<leftarrow> isa_opt s (op1 i); if op0 i = None then Some [spec_pc v] else None }"
    "opcode i = CJMP \<Longrightarrow> map_option fst (opt_of (process_jmp e tp i)) =
      do { c \<leftarrow> isa_opt s (op0 i); v \<leftarrow> isa_opt s (op1 i);
           if c = 1 then Some [spec_pc v] else if c = 0 then Some [spec_pc (next_pc e i)] else None }"
    "map_option fst (opt_of (process_call e tp i)) =
      do { v \<leftarrow> isa_opt s (op1 i);
           if is_trace_needed e \<and> i_mem s (i_reg s R9 - 2) = None then None
           else Some [spec_pc v, mem_diff_of [(i_reg s R9 - 1, next_pc e i)]] }"
    "map_option fst (opt_of (process_ret e tp i)) =
      do { ret_pc \<leftarrow> i_mem s (i_reg s R9 - 1); ret_fp \<leftarrow> i_mem s (i_reg s R9 - 2);
           Some [spec_pc ret_pc, RegisterD [\<lparr>rd_register = R9, rd_value = ret_fp\<rparr>]] }"
proof -
  have reg: "get_reg e = i_reg s" "get_fp e = i_reg s R9" and mem: "mem_peek (memory e) = i_mem s"
    using rel by (simp_all add: isa_rel_def get_fp_def)
  note simps = operand_simps isa_rel_opt [OF rel] isa_rel_operand [OF rel] trace_simps wf map_option_bind
    opt_of_guard Let_def reg mem opt_mem_read
  show "map_option fst (opt_of (process_jmp e tp i)) =
      do { v \<leftarrow> isa_opt s (op1 i); if op0 i = None then Some [spec_pc v] else None }" if "opcode i = JMP"
    using that by (cases "op0 i") (simp_all add: process_jmp_def jmp_condition_def simps)
  show "map_option fst (opt_of (process_jmp e tp i)) =
      do { c \<leftarrow> isa_opt s (op0 i); v \<leftarrow> isa_opt s (op1 i);
           if c = 1 then Some [spec_pc v] else if c = 0 then Some [spec_pc (next_pc e i)] else None }"
    if "opcode i = CJMP"
    using that by (cases "op0 i")
      (auto simp: process_jmp_def jmp_condition_def simps isa_opt_def intro!: Option.bind_cong)
  show "map_option fst (opt_of (process_call e tp i)) =
      do { v \<leftarrow> isa_opt s (op1 i);
           if is_trace_needed e \<and> i_mem s (i_reg s R9 - 2) = None then None
           else Some [spec_pc v, mem_diff_of [(i_reg s R9 - 1, next_pc e i)]] }"
    by (cases "mem_read (memory e) (i_reg s R9 - 2)")
      (auto simp: process_call_def simps traced_def opt_of_None simp flip: mem opt_mem_read intro!: Option.bind_cong)
  show "map_option fst (opt_of (process_ret e tp i)) =
      do { ret_pc \<leftarrow> i_mem s (i_reg s R9 - 1); ret_fp \<leftarrow> i_mem s (i_reg s R9 - 2);
           Some [spec_pc ret_pc, RegisterD [\<lparr>rd_register = R9, rd_value = ret_fp\<rparr>]] }"
    by (simp add: process_ret_def simps)
qed

lemma diffs_memory:
  assumes rel: "isa_rel E e tape em st s" and wf: "wf_inst i"
  shows "opcode i = MLOAD \<Longrightarrow> map_option fst (opt_of (process_mload e tp i)) =
      do { a \<leftarrow> isa_opt s (op0 i); b \<leftarrow> isa_opt s (op1 i); r \<leftarrow> isa_dst i; v \<leftarrow> i_mem s (fadd a b);
           Some (get_state_diff_only_dst_reg e i r v) }"
    "opcode i = MSTORE \<Longrightarrow> map_option fst (opt_of (process_mstore e tp i)) =
      do { a \<leftarrow> isa_opt s (op0 i); b \<leftarrow> isa_opt s (op1 i); r \<leftarrow> isa_dst i;
           Some [spec_pc (next_pc e i), mem_diff_of [(fadd a b, i_reg s r)]] }"
proof -
  have reg: "get_reg e = i_reg s" and mem: "mem_peek (memory e) = i_mem s"
    using rel by (simp_all add: isa_rel_def)
  have tr: "\<exists>d. mem_access_trace e tp i a b c v wr = Inr d" if "opcode i = MLOAD \<or> opcode i = MSTORE" for a b c v wr
  proof -
    from wf that have "wf_mem_op1 (op1 i)" by (auto simp: wf_inst_def)
    then obtain o1 where "op1 i = Some o1" by (cases "op1 i") simp_all
    then show ?thesis by (simp add: mem_access_trace_def trace_simps wf Let_def)
  qed
  show "map_option fst (opt_of (process_mload e tp i)) =
      do { a \<leftarrow> isa_opt s (op0 i); b \<leftarrow> isa_opt s (op1 i); r \<leftarrow> isa_dst i; v \<leftarrow> i_mem s (fadd a b);
           Some (get_state_diff_only_dst_reg e i r v) }" if "opcode i = MLOAD"
    using tr that
    by (simp add: process_mload_def operand_simps isa_rel_opt [OF rel] isa_dst_reg map_option_bind Let_def
        field_addr_def canonical_ops opt_mem_read mem traced_const)
  show "map_option fst (opt_of (process_mstore e tp i)) =
      do { a \<leftarrow> isa_opt s (op0 i); b \<leftarrow> isa_opt s (op1 i); r \<leftarrow> isa_dst i;
           Some [spec_pc (next_pc e i), mem_diff_of [(fadd a b, i_reg s r)]] }" if "opcode i = MSTORE"
    using tr that
    by (simp add: process_mstore_def operand_simps isa_rel_opt [OF rel] isa_dst_reg map_option_bind Let_def
        field_addr_def canonical_ops reg traced_const)
qed

lemma opt_tape_stack:
  assumes "tape_rep tape xs" "length xs < 2 ^ 60"
  shows "opt_of (tape_read_stack tape n) = (if unat n \<le> length xs then Some (drop (length xs - unat n) xs) else None)"
proof (cases "unat n \<le> length xs")
  case True
  then have "unat n * 8 \<le> 2 ^ 63 - 1" using assms(2) by simp
  with True show ?thesis by (simp add: tape_read_stack_rep [OF assms(1)])
next
  case False
  moreover have "unat (tape_tp tape) = length xs" using assms by (simp add: tape_rep_def unat_of_nat_u64)
  ultimately have "tape_tp tape < n" by (simp add: word_less_nat_alt)
  with False show ?thesis by (simp add: tape_read_stack_def)
qed

lemma diffs_blocks:
  assumes rel: "isa_rel E e tape em st s" and wf: "wf_inst i" and short: "isa_short i s"
    and room: "length (i_tape s) < 2 ^ 60"
  shows "opcode i = POSEIDON \<Longrightarrow> map_option fst (opt_of (process_poseidon e tp i)) =
      do { a \<leftarrow> isa_opt s (op0 i); n \<leftarrow> isa_opt s (op1 i); d \<leftarrow> isa_opt s (dst i); vs \<leftarrow> isa_block s a n;
           Some [spec_pc (next_pc e i), mem_diff_of (zip (four_from d) (calculate_arbitrary_poseidon_u64s vs))] }"
    "opcode i = TSTORE \<Longrightarrow> map_option fst (opt_of (process_tstore e i tape)) =
      do { a \<leftarrow> isa_opt s (op0 i); n \<leftarrow> isa_opt s (op1 i); vs \<leftarrow> isa_block s a n;
           Some [spec_pc (next_pc e i), tape_diff_of vs] }"
    "map_option fst (opt_of (process_tload e i tape)) =
      do { sel \<leftarrow> isa_opt s (op0 i); n \<leftarrow> isa_opt s (op1 i); d \<leftarrow> isa_opt s (dst i);
           vs \<leftarrow> isa_tape_values s sel n;
           Some [spec_pc (next_pc e i), mem_diff_of (zip (u64_range d (d + of_nat (length vs))) vs)] }"
    "map_option fst (opt_of (process_sigcheck E e tp i)) =
      do { a \<leftarrow> isa_opt s (op1 i); r \<leftarrow> isa_dst i; ps \<leftarrow> isa_block s a 20; v \<leftarrow> isa_verify E ps;
           Some (get_state_diff_only_dst_reg e i r v) }"
proof -
  have tape: "tape_rep tape (i_tape s)" using rel by (simp add: isa_rel_def)
  have n: "uint n < 2 ^ 32" if "isa_opt s (op1 i) = Some n" "opcode i = POSEIDON \<or> opcode i = TSTORE" for n
    using short that by (auto simp: isa_short_def isa_lengths_def)
  note simps = operand_simps isa_rel_opt [OF rel] isa_dst_reg map_option_bind Let_def trace_simps wf
  show "map_option fst (opt_of (process_poseidon e tp i)) =
      do { a \<leftarrow> isa_opt s (op0 i); n \<leftarrow> isa_opt s (op1 i); d \<leftarrow> isa_opt s (dst i); vs \<leftarrow> isa_block s a n;
           Some [spec_pc (next_pc e i), mem_diff_of (zip (four_from d) (calculate_arbitrary_poseidon_u64s vs))] }"
    if "opcode i = POSEIDON"
    using n that by (auto simp: process_poseidon_def simps isa_rel_block [OF rel] intro!: Option.bind_cong)
  show "map_option fst (opt_of (process_tstore e i tape)) =
      do { a \<leftarrow> isa_opt s (op0 i); n \<leftarrow> isa_opt s (op1 i); vs \<leftarrow> isa_block s a n;
           Some [spec_pc (next_pc e i), tape_diff_of vs] }" if "opcode i = TSTORE"
    using n that by (auto simp: process_tstore_def simps isa_rel_block [OF rel] intro!: Option.bind_cong)
  have top: "opt_of (tape_read_top tape x) = (if unat x < length (i_tape s) then Some (i_tape s ! unat x) else None)" for x
    by (simp add: tape_read_top_rep [OF tape])
  have vals: "opt_of (if v0 = 0 then rbind (tape_read_top tape v1) (\<lambda>v. Inr [v])
        else if v0 = 1 then tape_read_stack tape v1 else fail er) = isa_tape_values s v0 v1" for v0 v1 er
    by (simp add: isa_tape_values_def opt_tape_stack [OF tape room] top)
  show "map_option fst (opt_of (process_tload e i tape)) =
      do { sel \<leftarrow> isa_opt s (op0 i); n \<leftarrow> isa_opt s (op1 i); d \<leftarrow> isa_opt s (dst i);
           vs \<leftarrow> isa_tape_values s sel n;
           Some [spec_pc (next_pc e i), mem_diff_of (zip (u64_range d (d + of_nat (length vs))) vs)] }"
    by (simp add: process_tload_def simps vals)
  show "map_option fst (opt_of (process_sigcheck E e tp i)) =
      do { a \<leftarrow> isa_opt s (op1 i); r \<leftarrow> isa_dst i; ps \<leftarrow> isa_block s a 20; v \<leftarrow> isa_verify E ps;
           Some (get_state_diff_only_dst_reg e i r v) }"
    by (auto simp: process_sigcheck_def simps isa_rel_block [OF rel] isa_verify_def intro!: Option.bind_cong
        split: sum.split)
qed

lemma pure_spec:
  assumes rel: "isa_rel E e tape em st s" and wf: "wf_inst i" and short: "isa_short i s"
    and room: "length (i_tape s) < 2 ^ 60"
    and opc: "opcode i \<noteq> SLOAD" "opcode i \<noteq> SSTORE" "opcode i \<noteq> EVENT" "opcode i \<noteq> SCCALL" "opcode i \<noteq> END"
  shows "isa_step E a ro (is_trace_needed e) i s =
    map_option (Pair Running) (Option.bind (map_option fst (opt_of (pure_handler E e i tape))) (isa_diffs E a s))"
proof -
  have st: "i_pc s = pc e" using rel by (simp add: isa_rel_def)
  note simps = isa_step_def pure_handler_def Let_def diffs_arith [OF rel wf] diffs_moves [OF rel wf]
    diffs_jumps [OF rel wf] diffs_memory [OF rel wf] diffs_blocks [OF rel wf short room] map_option_bind
    get_state_diff_only_dst_reg_def next_pc_def st
  show ?thesis
    using opc by (cases "opcode i")
      (auto simp: simps bind_Some_map intro!: Option.bind_cong split: option.split OlaOperand.split)
qed

lemma opt_read_four:
  assumes "isa_rel E e tape em st s"
  shows "opt_of (read_four e a) = isa_block s a 4"
proof -
  have len: "length vs = 4" if "isa_block s a 4 = Some vs" for vs
  proof -
    have "length xs = length ys" if "those ys = Some xs" for ys :: "'d option list" and xs
      using that by (induction ys arbitrary: xs) (auto split: option.splits)
    then show ?thesis using that by (fastforce simp: isa_block_def split: if_splits)
  qed
  show ?thesis
    using isa_rel_block [OF assms, of 4 a] len
    by (cases "isa_block s a 4") (auto simp: read_four_def try_into_array_def opt_of_None opt_of_Some guard_def)
qed

lemma op0_op1_cases:
  assumes "isa_rel E e tape em st s"
  obtains err where "get_op0_op1 e i = Inl err" "isa_opt s (op0 i) = None \<or> isa_opt s (op1 i) = None"
  | a b where "get_op0_op1 e i = Inr (a, b)" "isa_opt s (op0 i) = Some a" "isa_opt s (op1 i) = Some b"
proof -
  have "opt_of (get_op0_op1 e i) = do { a \<leftarrow> isa_opt s (op0 i); b \<leftarrow> isa_opt s (op1 i); Some (a, b) }"
    by (simp add: operand_simps isa_rel_opt [OF assms])
  with that show thesis
    by (cases "isa_opt s (op0 i)"; cases "isa_opt s (op1 i)") (auto simp: opt_of_None opt_of_Some)
qed

lemma read_four_cases:
  assumes "isa_rel E e tape em st s"
  obtains err where "read_four e a = Inl err" "isa_block s a 4 = None"
  | k where "read_four e a = Inr k" "isa_block s a 4 = Some k"
  using opt_read_four [OF assms, of a] that by (cases "isa_block s a 4") (auto simp: opt_of_None opt_of_Some)

lemma sload_cases:
  assumes "isa_rel E e tape em st s"
  obtains st' err where "sload E a k st = (st', Inl err)" "\<not> writable E (get_tree_key a k) (i_store s)"
  | st' where "sload E a k st = (st', Inr (i_store s (get_tree_key a k)))"
      "writable E (get_tree_key a k) (i_store s)" "isa_rel E e tape em st' s"
proof -
  have view: "i_store s = storage_view E st" using assms by (simp add: isa_rel_def)
  obtain st' r where l: "sload E a k st = (st', r)" by (cases "sload E a k st")
  have rel: "isa_rel E e tape em st' s"
    using sload_views(1) [of E a k st] l assms by (simp add: isa_rel_def)
  show thesis
  proof (cases rule: get_pre_value_cases [of E a k st])
    case (1 st1)
    then have "r = Inr (storage_view E st (get_tree_key a k))" using l sload_reads_view by fastforce
    with that(2) l rel 1 view show ?thesis by simp
  next
    case (2 st1 err)
    then have "sload E a k st = (st1, Inl err)" by (simp add: sload_def sbind_def)
    with that(1) 2 view show ?thesis by simp
  qed
qed

lemma read_cases:
  assumes "isa_rel E e tape em st s"
  obtains st' err where "storage_read E a k st = (st', Inl err)" "\<not> writable E (get_tree_key a k) (i_store s)"
  | st' where "storage_read E a k st = (st', Inr (i_store s (get_tree_key a k)))"
      "writable E (get_tree_key a k) (i_store s)" "isa_rel E e tape em st' s"
proof -
  have view: "i_store s = storage_view E st" using assms by (simp add: isa_rel_def)
  show thesis
  proof (cases rule: get_pre_value_cases [of E a k st])
    case (1 st1)
    moreover have "isa_rel E e tape em st1 s"
      using get_pre_value_views(1) [OF 1(1)] assms by (simp add: isa_rel_def)
    ultimately show ?thesis using that(2) view by (simp add: storage_read_def)
  next
    case (2 st1 err)
    with that(1) view show ?thesis by (simp add: storage_read_def)
  qed
qed

lemma storage_lines_total: "wf_inst i \<Longrightarrow> \<exists>d. storage_lines e i tp a b k v t = Inr d"
  by (simp add: storage_lines_def trace_simps)

lemma refine_sload:
  assumes rel: "isa_rel E e (w_tape w) (w_events w) st s" and wf: "wf_inst i" and p: "prophet i = None"
    and room: "length (i_tape s) < 2 ^ 60" and opc: "opcode i = SLOAD"
  shows "step_refines E i e w st s"
proof -
  let ?a = "storage_addr (exe_context e)"
  have pc: "i_pc s = pc e" using rel by (simp add: isa_rel_def)
  have fails: "step_refines E i e w st s"
    if "process_sload E e (tape_tp (w_tape w)) i st = (st', Inl err)"
      "isa_step E ?a (mode e = Call) (is_trace_needed e) i s = None" for st' err
    using that dispatch_fails [of E e i w st st' err] opc
    by (simp add: step_refines_def dispatch_def sbind_def)
  note eval = process_sload_def sbind_def isa_step_def opc Let_def
  from rel show ?thesis
  proof (cases rule: op0_op1_cases [of _ _ _ _ _ _ i])
    case (1 err)
    then show ?thesis by (intro fails) (auto simp: eval)
  next
    case ops: (2 a b)
    from rel show ?thesis
    proof (cases rule: read_four_cases [of _ _ _ _ _ _ a])
      case (1 err)
      with ops show ?thesis by (intro fails) (auto simp: eval)
    next
      case k: (2 k)
      from rel show ?thesis
      proof (cases rule: sload_cases [of _ _ _ _ _ _ ?a k])
        case (1 st' err)
        with ops k show ?thesis by (intro fails) (auto simp: eval)
      next
        case (2 st')
        define v where "v = (case i_store s (get_tree_key ?a k) of Some x \<Rightarrow> x | None \<Rightarrow> [0, 0, 0, 0])"
        obtain lines where "storage_lines e i (tape_tp (w_tape w)) a b k v (get_tree_key ?a k) = Inr lines"
          using storage_lines_total [OF wf] by blast
        then obtain td where "dispatch E e i (w_tape w) (w_events w) st =
            (st', Inr (w_events w, [spec_pc (next_pc e i), mem_diff_of (zip (four_from b) v)], td))"
          using ops k 2 opc by (simp add: dispatch_def eval traced_Inr flip: v_def)
        from dispatch_runs [OF this p _ _ 2(3)] room show ?thesis
          using ops k 2 by (auto simp: step_refines_def eval next_pc_def pc bind_Some_map split: option.splits simp flip: v_def)
      qed
    qed
  qed
qed

lemma refine_sstore:
  assumes rel: "isa_rel E e (w_tape w) (w_events w) st s" and wf: "wf_inst i" and p: "prophet i = None"
    and room: "length (i_tape s) < 2 ^ 60" and opc: "opcode i = SSTORE"
  shows "step_refines E i e w st s"
proof -
  let ?a = "storage_addr (exe_context e)"
  have pc: "i_pc s = pc e" using rel by (simp add: isa_rel_def)
  have fails: "step_refines E i e w st s"
    if "process_sstore E e (tape_tp (w_tape w)) i st = (st', Inl err)"
      "isa_step E ?a (mode e = Call) (is_trace_needed e) i s = None" for st' err
    using that dispatch_fails [of E e i w st st' err] opc
    by (simp add: step_refines_def dispatch_def sbind_def)
  note eval = process_sstore_def sbind_def isa_step_def opc Let_def
  show ?thesis
  proof (cases "mode e = Call")
    case True
    then show ?thesis by (intro fails) (auto simp: eval bind_eq_None_conv split: if_splits)
  next
    case ro: False
    from rel show ?thesis
    proof (cases rule: op0_op1_cases [of _ _ _ _ _ _ i])
      case (1 err)
      with ro show ?thesis by (intro fails) (auto simp: eval)
    next
      case ops: (2 a b)
      from rel show ?thesis
      proof (cases rule: read_four_cases [of _ _ _ _ _ _ a])
        case (1 err)
        with ops ro show ?thesis by (intro fails) (auto simp: eval)
      next
        case k: (2 k)
        from rel show ?thesis
        proof (cases rule: read_four_cases [of _ _ _ _ _ _ b])
          case (1 err)
          with ops k ro show ?thesis by (intro fails) (auto simp: eval)
        next
          case v: (2 v)
          from rel show ?thesis
          proof (cases rule: read_cases [of _ _ _ _ _ _ ?a k])
            case (1 st' err)
            with ops k v ro show ?thesis by (intro fails) (auto simp: eval)
          next
            case (2 st')
            obtain lines where "storage_lines e i (tape_tp (w_tape w)) a b k v (get_tree_key ?a k) = Inr lines"
              using storage_lines_total [OF wf] by blast
            then obtain td d where "dispatch E e i (w_tape w) (w_events w) st =
                (st', Inr (w_events w, [spec_pc (next_pc e i), StorageD [d]], td))"
                "sd_storage_key d = k" "sd_value d = v"
              using ops k v 2 opc ro by (simp add: dispatch_def eval traced_Inr)
            with dispatch_runs [OF this(1) p _ _ 2(3)] room show ?thesis
              using ops k v 2 ro by (auto simp: step_refines_def eval next_pc_def pc split: option.splits)
          qed
        qed
      qed
    qed
  qed
qed

lemma events_pc: "s\<lparr>i_events := x, i_pc := y\<rparr> = s\<lparr>i_pc := y, i_events := x\<rparr>"
  by simp

lemma length_those: "those xs = Some ys \<Longrightarrow> length ys = length xs"
  by (induction xs arbitrary: ys) (auto split: option.splits)

lemma isa_block_length: "isa_block s a n = Some vs \<Longrightarrow> length vs = unat n"
  by (auto simp: isa_block_def dest!: length_those split: if_splits)

lemma refine_event:
  assumes rel: "isa_rel E e (w_tape w) (w_events w) st s" and wf: "wf_inst i" and p: "prophet i = None"
    and short: "isa_short i s" and room: "length (i_tape s) < 2 ^ 60" and opc: "opcode i = EVENT"
  shows "step_refines E i e w st s"
proof -
  let ?a = "storage_addr (exe_context e)"
  define T where "T = do { a \<leftarrow> isa_opt s (op0 i); b \<leftarrow> isa_opt s (op1 i);
                 n \<leftarrow> i_mem s a; addrs \<leftarrow> isa_block s (a + 1) n;
                 topics \<leftarrow> those (map (\<lambda>x. isa_block s x 4) addrs);
                 m \<leftarrow> i_mem s b; data \<leftarrow> isa_block s (b + 1) m; Some (topics, data) }"
  have pc: "i_pc s = pc e" and mem: "mem_peek (memory e) = i_mem s" using rel by (simp_all add: isa_rel_def)
  have n: "isa_opt s (op0 i) = Some a \<Longrightarrow> i_mem s a = Some n \<Longrightarrow> opt_of (mem_batch_read (memory e) x n) = isa_block s x n"
    "isa_opt s (op1 i) = Some a \<Longrightarrow> i_mem s a = Some n \<Longrightarrow> opt_of (mem_batch_read (memory e) x n) = isa_block s x n"
    for a n x
    using short opc by (auto simp: isa_short_def isa_lengths_def isa_rel_block [OF rel])
  have ev: "map_option (\<lambda>(em, ds, td). (em, ds)) (opt_of (process_event e (tape_tp (w_tape w)) i (w_events w))) =
      (if mode e = Call then None
       else map_option (\<lambda>(ts, d). (on_event (w_events w) ts d, [spec_pc (next_pc e i)])) T)"
    by (auto simp: T_def process_event_def operand_simps isa_rel_opt [OF rel] opt_mem_read mem
        opt_of_traverse opt_read_four [OF rel] n trace_simps wf map_option_bind
        intro!: Option.bind_cong)
  have spec: "isa_step E ?a (mode e = Call) (is_trace_needed e) i s =
      (if mode e = Call then None else map_option (\<lambda>(ts, d). (Running,
         s\<lparr>i_pc := next_pc e i, i_events := i_events s @ [(ts, d)]\<rparr>)) T)"
    by (auto simp: T_def isa_step_def opc Let_def map_option_bind next_pc_def pc bind_eq_None_conv)
  show ?thesis
  proof (cases "process_event e (tape_tp (w_tape w)) i (w_events w)")
    case (Inl err)
    then have "isa_step E ?a (mode e = Call) (is_trace_needed e) i s = None"
      using ev unfolding spec by (auto split: if_splits)
    then show ?thesis
      using Inl opc dispatch_fails [of E e i w st st err] by (simp add: step_refines_def dispatch_def)
  next
    case (Inr x)
    obtain em ds td where x: "x = (em, ds, td)" by (metis prod.exhaust)
    with Inr ev obtain ts d where T: "T = Some (ts, d)" "mode e \<noteq> Call" "em = on_event (w_events w) ts d"
        "ds = [spec_pc (next_pc e i)]"
      by (cases T) (auto split: if_splits)
    have "isa_rel E e (w_tape w) em st (s\<lparr>i_events := i_events s @ [(ts, d)]\<rparr>)"
      using rel by (simp add: isa_rel_def T on_event_def)
    moreover have "dispatch E e i (w_tape w) (w_events w) st = (st, Inr (em, ds, td))"
      using Inr x opc by (simp add: dispatch_def)
    ultimately show ?thesis
      using dispatch_runs [of E e i w st st em ds td "s\<lparr>i_events := i_events s @ [(ts, d)]\<rparr>"] p opc room T
      unfolding step_refines_def spec by (simp add: events_pc)
  qed
qed

text \<open>The two instructions that stop the loop apply their differences and then report the outcome.\<close>

lemma dispatch_stops:
  assumes "dispatch E e i (w_tape w) (w_events w) st = (st, Inr (w_events w, ds, td))" "prophet i = None"
    "sccall_params e i = Inr ps" "isa_rel E e (w_tape w) (w_events w) st s"
    "length (i_tape s) + tape_room ds < 2 ^ 64" "isa_diffs E (storage_addr (exe_context e)) s ds = Some s'"
  obtains st' e' w' where "isa_rel E e' (w_tape w') (w_events w') st' s'"
    "run_one_step E i e w st = (st', rbind (step_outcome e' i ps) (\<lambda>(state, e3). Inr (state, e3, w')))"
proof -
  have clk: "isa_rel E (x\<lparr>clk := v\<rparr>) tape em st s = isa_rel E x tape em st s" for x v tape em st s
    by (simp add: isa_rel_def)
  obtain st' e' tape' where
    a: "apply_state_diff E e (w_tape w) ds st = (st', Inr (e', tape'))" "isa_rel E e' tape' (w_events w) st' s'"
    using isa_diffs_apply [OF assms(4,5)] assms(6) by auto
  define tm where "tm = (case td of Some d \<Rightarrow> on_step (w_trace w) d | None \<Rightarrow> w_trace w)"
  show ?thesis
    by (rule that [of "e'\<lparr>clk := clk e' + 1\<rparr>" "w\<lparr>w_tape := tape', w_trace := tm\<rparr>" st'])
      (use a assms(1-3) in \<open>simp_all add: run_one_step_def process_step_def sbind_def clk Let_def tm_def\<close>)
qed

lemma refine_end:
  assumes rel: "isa_rel E e (w_tape w) (w_events w) st s" and wf: "wf_inst i" and p: "prophet i = None"
    and room: "length (i_tape s) < 2 ^ 60" and opc: "opcode i = END"
  shows "step_refines E i e w st s"
proof -
  have "map_option fst (opt_of (process_end e (tape_tp (w_tape w)) i)) = Some [spec_pc (next_pc e i)]"
    by (simp add: process_end_def trace_simps wf)
  then obtain td where "process_end e (tape_tp (w_tape w)) i = Inr ([spec_pc (next_pc e i)], td)"
    by (auto simp: opt_of_Some)
  then have "dispatch E e i (w_tape w) (w_events w) st = (st, Inr (w_events w, [spec_pc (next_pc e i)], td))"
    using opc by (simp add: dispatch_def)
  from this p _ rel obtain st' e' w' where
    r: "isa_rel E e' (w_tape w') (w_events w') st' (s\<lparr>i_pc := next_pc e i\<rparr>)"
      "run_one_step E i e w st = (st', rbind (step_outcome e' i None) (\<lambda>(state, e3). Inr (state, e3, w')))"
    by (rule dispatch_stops) (use opc room in \<open>auto simp: sccall_params_def\<close>)
  have "i_pc s = pc e" "exe_output e' = i_out s" using rel r(1) by (simp_all add: isa_rel_def)
  moreover have "isa_rel E (e'\<lparr>exe_state := x\<rparr>) (w_tape w') (w_events w') st' (s\<lparr>i_pc := next_pc e i\<rparr>)" for x
    using r(1) by (simp add: isa_rel_def)
  ultimately show ?thesis
    using r(2) by (simp add: step_refines_def isa_step_def opc step_outcome_def next_pc_def Let_def)
qed

lemma refine_sccall:
  assumes rel: "isa_rel E e (w_tape w) (w_events w) st s" and wf: "wf_inst i" and p: "prophet i = None"
    and room: "length (i_tape s) < 2 ^ 60" and opc: "opcode i = SCCALL"
    and self: "length (storage_addr (exe_context e)) = 4"
  shows "step_refines E i e w st s"
proof -
  let ?a = "storage_addr (exe_context e)"
  have pc: "i_pc s = pc e" using rel by (simp add: isa_rel_def)
  have fails: "step_refines E i e w st s"
    if "process_sccall e i (w_tape w) = Inl err" "isa_step E ?a (mode e = Call) (is_trace_needed e) i s = None" for err
    using that dispatch_fails [of E e i w st st err] opc by (simp add: step_refines_def dispatch_def)
  note eval = process_sccall_def isa_step_def opc Let_def
  from rel show ?thesis
  proof (cases rule: op0_op1_cases [of _ _ _ _ _ _ i])
    case (1 err)
    then show ?thesis by (intro fails) (auto simp: eval)
  next
    case ops: (2 a b)
    from rel show ?thesis
    proof (cases rule: read_four_cases [of _ _ _ _ _ _ a])
      case (1 err)
      with ops show ?thesis by (intro fails) (auto simp: eval)
    next
      case k: (2 k)
      define vs where "vs = ?a @ k @ (if b = 1 then ?a else k)"
      have "map_option fst (opt_of (process_sccall e i (w_tape w))) = Some [spec_pc (next_pc e i), tape_diff_of vs]"
        using ops k by (simp add: process_sccall_def Let_def trace_simps wf vs_def)
      then obtain td where "process_sccall e i (w_tape w) = Inr ([spec_pc (next_pc e i), tape_diff_of vs], td)"
        by (auto simp: opt_of_Some)
      then have "dispatch E e i (w_tape w) (w_events w) st =
          (st, Inr (w_events w, [spec_pc (next_pc e i), tape_diff_of vs], td))"
        using opc by (simp add: dispatch_def)
      from this p _ rel obtain st' e' w' where
        r: "isa_rel E e' (w_tape w') (w_events w') st' (s\<lparr>i_pc := next_pc e i, i_tape := i_tape s @ vs, i_out := i_out s @ vs\<rparr>)"
          "run_one_step E i e w st = (st', rbind (step_outcome e' i (Some (b, k))) (\<lambda>(state, e3). Inr (state, e3, w')))"
        by (rule dispatch_stops) (use opc ops k room self isa_block_length [OF k(2)] in \<open>auto simp: sccall_params_def vs_def\<close>)
      have "isa_rel E (e'\<lparr>exe_output := [], exe_state := x\<rparr>) (w_tape w') (w_events w') st'
          (s\<lparr>i_pc := next_pc e i, i_tape := i_tape s @ vs, i_out := []\<rparr>)" for x
        using r(1) by (simp add: isa_rel_def)
      with r(2) ops k show ?thesis
        by (simp add: step_refines_def isa_step_def opc step_outcome_def next_pc_def Let_def pc vs_def)
    qed
  qed
qed

lemma pure_room:
  assumes rel: "isa_rel E e tape em st s" and wf: "wf_inst i" and short: "isa_short i s"
    and room: "length (i_tape s) < 2 ^ 60"
    and opc: "opcode i \<noteq> SLOAD" "opcode i \<noteq> SSTORE" "opcode i \<noteq> EVENT" "opcode i \<noteq> SCCALL" "opcode i \<noteq> END"
    and ds: "map_option fst (opt_of (pure_handler E e i tape)) = Some ds"
  shows "tape_room ds < 2 ^ 32"
proof -
  have n: "unat n < 2 ^ 32" if "isa_opt s (op1 i) = Some n" "opcode i = TSTORE" for n
  proof -
    have "uint n < 2 ^ 32" using short that by (simp add: isa_short_def isa_lengths_def)
    then show ?thesis by (simp only: uint_nat of_nat_less_numeral_power_cancel_iff)
  qed
  note simps = pure_handler_def Let_def diffs_arith [OF rel wf] diffs_moves [OF rel wf]
    diffs_jumps [OF rel wf] diffs_memory [OF rel wf] diffs_blocks [OF rel wf short room]
    get_state_diff_only_dst_reg_def
  show ?thesis
    using opc ds by (cases "opcode i")
      (auto simp: simps bind_eq_Some_conv dest!: isa_block_length n split: if_splits option.splits OlaOperand.splits)
qed

lemma refine_pure:
  assumes rel: "isa_rel E e (w_tape w) (w_events w) st s" and wf: "wf_inst i" and p: "prophet i = None"
    and short: "isa_short i s" and room: "length (i_tape s) < 2 ^ 60"
    and opc: "opcode i \<noteq> SLOAD" "opcode i \<noteq> SSTORE" "opcode i \<noteq> EVENT" "opcode i \<noteq> SCCALL" "opcode i \<noteq> END"
  shows "step_refines E i e w st s"
proof (rule pure_refines [OF dispatch_pure [OF opc(1-3)] refl rel p opc(4,5)])
  show "isa_step E (storage_addr (exe_context e)) (mode e = Call) (is_trace_needed e) i s =
      map_option (Pair Running) (Option.bind (map_option fst (opt_of (pure_handler E e i (w_tape w))))
        (isa_diffs E (storage_addr (exe_context e)) s))"
    by (rule pure_spec [OF rel wf short room opc])
  fix ds assume "map_option fst (opt_of (pure_handler E e i (w_tape w))) = Some ds"
  from pure_room [OF rel wf short room opc this] room
  show "length (i_tape s) + tape_room ds < 2 ^ 64" by simp
qed

lemma refine_step:
  assumes "isa_rel E e (w_tape w) (w_events w) st s" "wf_inst i" "prophet i = None" "isa_short i s"
    "length (i_tape s) < 2 ^ 60" "length (storage_addr (exe_context e)) = 4"
  shows "step_refines E i e w st s"
proof -
  consider "opcode i = SLOAD" | "opcode i = SSTORE" | "opcode i = EVENT" | "opcode i = SCCALL" | "opcode i = END"
    | "opcode i \<noteq> SLOAD" "opcode i \<noteq> SSTORE" "opcode i \<noteq> EVENT" "opcode i \<noteq> SCCALL" "opcode i \<noteq> END"
    by blast
  then show ?thesis
  proof cases
    case 1 from refine_sload [OF assms(1-3,5) this] show ?thesis .
  next
    case 2 from refine_sstore [OF assms(1-3,5) this] show ?thesis .
  next
    case 3 from refine_event [OF assms(1-5) this] show ?thesis .
  next
    case 4 from refine_sccall [OF assms(1-3,5) this assms(6)] show ?thesis .
  next
    case 5 from refine_end [OF assms(1-3,5) this] show ?thesis .
  next
    case 6 from refine_pure [OF assms(1-5) this] show ?thesis .
  qed
qed

subsection \<open>Runs\<close>

text \<open>
  Step functions in lockstep: where the specification takes a step, the implementation takes one with
  the same outcome to a related state, and where the specification is stuck so is the implementation.
  Then so are bounded runs.
\<close>

locale lockstep =
  fixes spec_next :: "'a \<Rightarrow> (OlaContractExecutorState \<times> 'a) option"
    and spec_ok :: "'a \<Rightarrow> bool"
    and impl_next :: "'b \<Rightarrow> (OlaContractExecutorState \<times> 'b) option"
    and related :: "'b \<Rightarrow> 'a \<Rightarrow> bool"
  assumes stuck: "related c s \<Longrightarrow> spec_ok s \<Longrightarrow> spec_next s = None \<Longrightarrow> impl_next c = None"
    and moves: "related c s \<Longrightarrow> spec_ok s \<Longrightarrow> spec_next s = Some (out, s') \<Longrightarrow>
      \<exists>c'. impl_next c = Some (out, c') \<and> related c' s'"
begin

lemma runs:
  assumes "related c s"
  shows "case run_upto spec_next spec_ok n s of
      Stopped out s' \<Rightarrow> \<exists>c'. run_upto impl_next (\<lambda>_. True) n c = Stopped out c' \<and> related c' s'
    | Stuck \<Rightarrow> run_upto impl_next (\<lambda>_. True) n c = Stuck
    | Undecided \<Rightarrow> True"
  using assms
proof (induction n arbitrary: c s)
  case (Suc n)
  show ?case
  proof (cases "spec_ok s")
    case ok: True
    show ?thesis
    proof (cases "spec_next s")
      case None
      with ok stuck [OF Suc.prems ok] show ?thesis by simp
    next
      case (Some x)
      obtain out s' where x: "x = (out, s')" by (cases x)
      with moves [OF Suc.prems ok] Some obtain c' where
        c': "impl_next c = Some (out, c')" "related c' s'" by auto
      with ok Some x Suc.IH [OF c'(2)] show ?thesis
        by (cases "out = Running") (simp_all split: run_result.splits)
    qed
  qed simp
qed simp

end

text \<open>The step of the executor with its fetch, on the state the main loop carries.\<close>

definition exec_next ::
    "'c ext \<Rightarrow> OlaContractExecutor \<times> TxWorld \<times> 'c OlaCachedStorage
      \<Rightarrow> (OlaContractExecutorState \<times> OlaContractExecutor \<times> TxWorld \<times> 'c OlaCachedStorage) option" where
  "exec_next E = (\<lambda>(e, w, st).
     Option.bind (instructions e (pc e)) (\<lambda>i.
       case run_one_step E i e w st of (st', Inr (out, e', w')) \<Rightarrow> Some (out, e', w', st') | (_, Inl _) \<Rightarrow> None))"

definition plain_program :: "(u64 \<rightharpoonup> BinaryInstruction) \<Rightarrow> bool" where
  "plain_program program \<longleftrightarrow> (\<forall>i \<in> ran program. wf_inst i \<and> prophet i = None)"

text \<open>The executor runs \<open>program\<close> at address \<open>a\<close> in the given mode and is in the state \<open>s\<close>.\<close>

definition runs_program ::
    "'c ext \<Rightarrow> ContractAddress \<Rightarrow> ExecuteMode \<Rightarrow> (u64 \<rightharpoonup> BinaryInstruction)
      \<Rightarrow> OlaContractExecutor \<times> TxWorld \<times> 'c OlaCachedStorage \<Rightarrow> isa_state \<Rightarrow> bool" where
  "runs_program E a m program = (\<lambda>(e, w, st) s.
     isa_rel E e (w_tape w) (w_events w) st s \<and> storage_addr (exe_context e) = a \<and> mode e = m \<and>
     instructions e = program \<and> plain_program program \<and> length a = 4)"

lemma refine_next:
  assumes rel: "runs_program E a m program (e, w, st) s" and ok: "isa_small program s"
  shows "case isa_next E a (m = Call) (m = Invoke \<or> m = Debug) program s of
      None \<Rightarrow> exec_next E (e, w, st) = None
    | Some (out, s') \<Rightarrow> \<exists>c'. exec_next E (e, w, st) = Some (out, c') \<and> runs_program E a m program c' s'"
proof (cases "program (i_pc s)")
  case None
  with rel show ?thesis by (auto simp: isa_next_def exec_next_def runs_program_def isa_rel_def)
next
  case (Some i)
  then have i: "wf_inst i" "prophet i = None" "isa_short i s" "length (i_tape s) < 2 ^ 60"
    using rel ok by (auto simp: runs_program_def plain_program_def isa_small_def ranI)
  have fetch: "instructions e (pc e) = Some i" using rel Some by (simp add: runs_program_def isa_rel_def)
  have e: "storage_addr (exe_context e) = a" "mode e = m" "instructions e = program"
    "isa_rel E e (w_tape w) (w_events w) st s" "length a = 4" "plain_program program"
    using rel by (simp_all add: runs_program_def)
  from refine_step [OF e(4) i] e have "step_refines E i e w st s" by simp
  moreover have "mode e' = mode e \<and> exe_context e' = exe_context e \<and> instructions e' = instructions e"
    if "run_one_step E i e w st = (st', Inr (out, e', w'))" for st' out e' w'
    using run_one_step_clk [OF that] by simp
  ultimately show ?thesis using Some fetch e
    by (fastforce simp: step_refines_def isa_next_def exec_next_def runs_program_def is_trace_needed_def
        split: option.splits)
qed

interpretation isa_exec: lockstep "isa_next E a (m = Call) (m = Invoke \<or> m = Debug) program" "isa_small program"
    "exec_next E" "runs_program E a m program" for E a m program
proof
  fix c s assume c: "runs_program E a m program c s" "isa_small program s"
  obtain e w st where x: "c = (e, w, st)" by (metis prod.exhaust)
  note step = refine_next [OF c(1) [unfolded x] c(2)]
  show "exec_next E c = None" if "isa_next E a (m = Call) (m = Invoke \<or> m = Debug) program s = None"
    using step that by (simp add: x)
  show "\<exists>c'. exec_next E c = Some (out, c') \<and> runs_program E a m program c' s'"
    if "isa_next E a (m = Call) (m = Invoke \<or> m = Debug) program s = Some (out, s')" for out s'
    using step that by (simp add: x)
qed

text \<open>The main loop runs the step function until it stops, as long as the clock allows.\<close>

lemma resume_run:
  assumes "unat (clk e) + n \<le> unat MAX_CLK"
  shows "case run_upto (exec_next E) (\<lambda>_. True) n (e, w, st) of
      Stopped out (e', w', st') \<Rightarrow> resume E e w st = (st', Inr (out, e', w'))
    | Stuck \<Rightarrow> \<exists>st' err. resume E e w st = (st', Inl err)
    | Undecided \<Rightarrow> True"
  using assms
proof (induction n arbitrary: e w st)
  case (Suc n)
  show ?case
  proof (cases "exec_next E (e, w, st)")
    case None
    then show ?thesis
      by (subst resume.simps) (auto simp: exec_next_def bind_eq_None_conv split: option.splits prod.splits sum.splits)
  next
    case (Some x)
    then obtain i where i: "instructions e (pc e) = Some i" by (auto simp: exec_next_def bind_eq_Some_conv)
    with Some obtain out e' w' st' where x: "x = (out, e', w', st')"
      and r: "run_one_step E i e w st = (st', Inr (out, e', w'))"
      by (cases "run_one_step E i e w st") (auto simp: exec_next_def split: sum.splits)
    have "unat (clk e) < unat MAX_CLK" using Suc.prems by simp
    then have "unat (clk e') = unat (clk e) + 1"
      using run_one_step_clk(1) [OF r] by (simp add: MAX_CLK_def unat_word_ariths)
    then have c: "unat (clk e') + n \<le> unat MAX_CLK" using Suc.prems by simp
    show ?thesis
    proof (cases "out = Running \<and> n \<noteq> 0")
      case True
      then have "\<not> MAX_CLK \<le> clk e'" using c by (simp add: word_le_nat_alt)
      then have "resume E e w st = resume E e' w' st'"
        using True i r by (simp add: resume.simps [of E e w st])
      moreover have "run_upto (exec_next E) (\<lambda>_. True) (Suc n) (e, w, st) =
          run_upto (exec_next E) (\<lambda>_. True) n (e', w', st')"
        using True Some x by simp
      ultimately show ?thesis using Suc.IH [OF c, of w' st'] by (simp only:)
    next
      case False
      then show ?thesis using Some x i r by (cases n) (auto simp: resume.simps [of E e w st])
    qed
  qed
qed simp

subsection \<open>Properties\<close>

text \<open>
  C3. One step of the executor implements one instruction of the specification, on all 27 opcodes: on a
  related state, for a well-formed instruction without prophet code, \<open>run_one_step\<close> fails exactly when
  the specification has no successor, and otherwise it has the same outcome (go on, a call, the end with
  its output) and ends in a related state: registers, memory, tape, output, storage and events.
\<close>

theorem run_one_step_implements_isa:
  assumes "isa_rel E e (w_tape w) (w_events w) st s" "wf_inst i" "prophet i = None" "isa_short i s"
    "length (i_tape s) < 2 ^ 60" "length (storage_addr (exe_context e)) = 4"
  shows "case isa_step E (storage_addr (exe_context e)) (mode e = Call) (is_trace_needed e) i s of
      None \<Rightarrow> \<exists>st' err. run_one_step E i e w st = (st', Inl err)
    | Some (out, s') \<Rightarrow> \<exists>st' e' w'. run_one_step E i e w st = (st', Inr (out, e', w')) \<and>
        isa_rel E e' (w_tape w') (w_events w') st' s'"
  using refine_step [OF assms] by (simp add: step_refines_def)

text \<open>
  C4. The main loop implements runs of the specification. Where at most \<open>n\<close> steps of the specification
  end in a call or the end of the program, \<open>resume\<close> returns that outcome in a related state; where they
  get stuck (no instruction at the program counter, or a step without successor), \<open>resume\<close> returns an
  error. The clock must have room for the \<open>n\<close> steps.
\<close>

theorem resume_implements_isa:
  assumes rel: "runs_program E a m program (e, w, st) s" and clk: "unat (clk e) + n \<le> unat MAX_CLK"
  shows "case run_upto (isa_next E a (m = Call) (m = Invoke \<or> m = Debug) program) (isa_small program) n s of
      Stopped out s' \<Rightarrow> \<exists>st' e' w'. resume E e w st = (st', Inr (out, e', w')) \<and>
        isa_rel E e' (w_tape w') (w_events w') st' s'
    | Stuck \<Rightarrow> \<exists>st' err. resume E e w st = (st', Inl err)
    | Undecided \<Rightarrow> True"
  using isa_exec.runs [OF rel, of n] resume_run [OF clk, of E w st]
  by (auto simp: runs_program_def split: run_result.splits)

end
