(* ===== verification/IsaDemo.thy ===== *)
theory IsaDemo
  imports Demo Isa
begin

text \<open>
  The contract of \<open>Demo\<close> run by the specification of the instruction set, and the refinement theorems
  applied to its executor.
\<close>

definition demo_world :: TxWorld where
  "demo_world = tx_world (tx_manager_new Invoke demo_info (demo_tx 0) ADDR_U64_ENTRYPOINT 0)"

definition demo_cells :: "u64 list" where
  "demo_cells = tape_init_values demo_info (demo_tx 0) ADDR_U64_ENTRYPOINT"

definition demo_isa :: isa_state where
  "demo_isa = isa_of demo_ext demo_start demo_cells (w_events demo_world) (storage demo_block)"

lemma demo_cells_eq:
  "demo_cells = [7, 9, 5, 6, 7, 8, 0, 1, 1, 2, 3, 4, 0, 0, 0, 0, 0, 0, 0, 0, 0, 0, 0, 0, 0,
     1, 2, 3, 4, 0, 0, 0, 32769, 0, 0, 0, 32769]"
  by (simp add: demo_cells_def tape_init_values_def demo_info_def demo_tx_def ADDR_U64_ENTRYPOINT_def
      numeral_eq_Suc)

definition demo_next :: "isa_state \<Rightarrow> (OlaContractExecutorState \<times> isa_state) option" where
  "demo_next = isa_next demo_ext ADDR_U64_ENTRYPOINT False True demo_code"

lemmas eval_isa = demo_next_def isa_next_def demo_code_at isa_step_def inst_defs isa_opt_def isa_dst_def
  binary_length_def Let_def

lemma demo_block_cells: "i_mem s 0 = Some a \<Longrightarrow> i_mem s 1 = Some b \<Longrightarrow> i_mem s 2 = Some c \<Longrightarrow>
    i_mem s 3 = Some d \<Longrightarrow> isa_block s 0 4 = Some [a, b, c, d]"
  by (simp add: isa_block_def region_end_def region_bounds upt_rec)

lemma demo_next_steps:
  "i_pc s = 0 \<Longrightarrow> demo_next s = Some (Running, s\<lparr>i_pc := 2, i_reg := (i_reg s)(R1 := 1)\<rparr>)"
  "i_pc s = 2 \<Longrightarrow> i_reg s R1 = 1 \<Longrightarrow> i_reg s R0 = 0 \<Longrightarrow> i_tape s = demo_cells \<Longrightarrow>
     demo_next s = Some (Running, s\<lparr>i_pc := 4, i_mem := (i_mem s)(0 \<mapsto> 0, 1 \<mapsto> 0, 2 \<mapsto> 0, 3 \<mapsto> 32769)\<rparr>)"
  "i_pc s = 4 \<Longrightarrow> i_reg s R0 = 0 \<Longrightarrow> i_tape s = demo_cells \<Longrightarrow>
     demo_next s = Some (Running, s\<lparr>i_pc := 6, i_mem := (i_mem s)(0 \<mapsto> 0)\<rparr>)"
  "i_pc s = 6 \<Longrightarrow> i_reg s R0 = 0 \<Longrightarrow> i_mem s 0 = Some 0 \<Longrightarrow> i_mem s 1 = Some 0 \<Longrightarrow> i_mem s 2 = Some 0 \<Longrightarrow>
     i_mem s 3 = Some 32769 \<Longrightarrow> demo_next s = Some (Running, s\<lparr>i_pc := 7, i_store := (i_store s)
       (get_tree_key ADDR_U64_ENTRYPOINT ADDR_U64_ENTRYPOINT \<mapsto> ADDR_U64_ENTRYPOINT)\<rparr>)"
  "i_pc s = 7 \<Longrightarrow> i_reg s R0 = 0 \<Longrightarrow> i_mem s 0 = Some 0 \<Longrightarrow>
     demo_next s = Some (Running, s\<lparr>i_pc := 9, i_reg := (i_reg s)(R3 := 0)\<rparr>)"
  "i_pc s = 9 \<Longrightarrow> i_reg s R0 = 0 \<Longrightarrow> i_reg s R3 = 0 \<Longrightarrow>
     demo_next s = Some (Running, s\<lparr>i_pc := 10, i_reg := (i_reg s)(R4 := 1)\<rparr>)"
  "i_pc s = 10 \<Longrightarrow> i_reg s R4 = 1 \<Longrightarrow> demo_next s = Some (Running, s\<lparr>i_pc := 11\<rparr>)"
  "i_pc s = 11 \<Longrightarrow> demo_next s = Some (End (i_out s), s\<lparr>i_pc := 12\<rparr>)"
  by (simp_all add: eval_isa isa_tape_values_def demo_cells_eq isa_put_def u64_range_def addr_runs
      region_bounds in_stack_region_def gf_p_def fadd_def isa_arith_def writable_def disk_load_def demo_ext_def empty_ext_def demo_block_cells ADDR_U64_ENTRYPOINT_def)

lemma demo_small:
  "i_tape s = demo_cells \<Longrightarrow> i_pc s \<in> {0, 2, 4, 6, 7, 9, 10, 11} \<Longrightarrow> isa_small demo_code s"
  by (auto simp: isa_small_def demo_code_at inst_def isa_short_def isa_lengths_def demo_cells_eq)

lemma ran_load_instructions: "ran (load_instructions p m is) \<subseteq> ran m \<union> set is"
proof (induction "is" arbitrary: p m)
  case (Cons i "is")
  have "ran (m(p \<mapsto> i)) \<subseteq> insert i (ran m)" by (auto simp: ran_def)
  with Cons show ?case by fastforce
qed simp

lemma demo_code_plain: "plain_program demo_code"
  using ran_load_instructions [of 0 Map.empty demo_insts] demo_insts_wf
  by (auto simp: plain_program_def demo_code_def list_all_iff)


lemma demo_isa_run:
  "\<exists>s'. run_upto demo_next (isa_small demo_code) 8 demo_isa = Stopped (End []) s' \<and>
     i_store s' (get_tree_key ADDR_U64_ENTRYPOINT ADDR_U64_ENTRYPOINT) = Some ADDR_U64_ENTRYPOINT"
  by (simp add: demo_small run_upto_numeral demo_next_steps demo_isa_def isa_of_def demo_start_def
      demo_exec_def get_reg_def)

lemma demo_tape_rep: "tape_rep (w_tape demo_world) demo_cells"
  using tape_rep_batch_write [OF tape_rep_default, of demo_cells]
  by (simp add: demo_world_def tx_manager_new_def Let_def demo_cells_def [symmetric] demo_cells_eq)

lemma demo_rel: "isa_rel demo_ext demo_start (w_tape demo_world) (w_events demo_world) (storage demo_block) demo_isa"
  unfolding demo_isa_def
  by (rule isa_rel_of [OF demo_tape_rep]) (simp add: demo_start_def demo_exec_def NUM_GENERAL_PURPOSE_REGISTER_def)

theorem run_one_step_implements_isa_witness:
  "\<exists>st' e' w'. run_one_step demo_ext (inst MOV None (imm_op 1) (reg_op R1)) demo_start demo_world (storage demo_block) =
      (st', Inr (Running, e', w')) \<and>
    isa_rel demo_ext e' (w_tape w') (w_events w') st' (demo_isa\<lparr>i_pc := 2, i_reg := (i_reg demo_isa)(R1 := 1)\<rparr>)"
proof -
  let ?i = "inst MOV None (imm_op 1) (reg_op R1)"
  have "wf_inst ?i" "prophet ?i = None" "isa_short ?i demo_isa"
    by (simp_all add: inst_defs wf_inst_def ORDER_def isa_short_def isa_lengths_def)
  moreover have "length (i_tape demo_isa) < 2 ^ 60" "i_pc demo_isa = 0"
    by (simp_all add: demo_isa_def isa_of_def demo_cells_eq demo_start_def demo_exec_def)
  moreover have "length (storage_addr (exe_context demo_start)) = 4"
    by (simp add: demo_start_def demo_exec_def ADDR_U64_ENTRYPOINT_def)
  ultimately show ?thesis
    using run_one_step_implements_isa [OF demo_rel, of ?i] by (simp add: eval_isa)
qed

theorem resume_implements_isa_witness:
  "\<exists>st' e' w' s'. resume demo_ext demo_start demo_world (storage demo_block) = (st', Inr (End [], e', w')) \<and>
     isa_rel demo_ext e' (w_tape w') (w_events w') st' s' \<and>
     i_store s' (get_tree_key ADDR_U64_ENTRYPOINT ADDR_U64_ENTRYPOINT) = Some ADDR_U64_ENTRYPOINT"
proof -
  have "runs_program demo_ext ADDR_U64_ENTRYPOINT Invoke demo_code (demo_start, demo_world, storage demo_block) demo_isa"
    using demo_rel demo_code_plain
    by (simp add: runs_program_def demo_start_def demo_exec_def ADDR_U64_ENTRYPOINT_def)
  moreover have "unat (clk demo_start) + 8 \<le> unat MAX_CLK" by (simp add: demo_start_def demo_exec_def MAX_CLK_def)
  ultimately show ?thesis
    using resume_implements_isa [of demo_ext ADDR_U64_ENTRYPOINT Invoke demo_code demo_start demo_world
        "storage demo_block" demo_isa 8] demo_isa_run by (fastforce simp: demo_next_def)
qed

end
