(* ===== verification/GField.thy ===== *)
theory GField
  imports Goldilocks
begin

text \<open>
  The Goldilocks field as a type. The residues modulo p form a commutative ring by construction; that
  they form a field is Lucas' argument: the powers of the generator 7 that
  \<open>plonky2/field/src/goldilocks_field.rs\<close> names are pairwise different, so every residue but 0 is one of
  them and has an inverse. The circuits are modelled over this type.
\<close>

subsection \<open>The ring\<close>

typedef gf = "{0..<gf_p}"
  morphisms gf_int Abs_gf
  by (rule exI [of _ 0]) (simp add: gf_p_def)

setup_lifting type_definition_gf

instantiation gf :: comm_ring_1
begin

lift_definition zero_gf :: gf is 0
  by (simp add: gf_p_def)

lift_definition one_gf :: gf is 1
  by (simp add: gf_p_def)

lift_definition uminus_gf :: "gf \<Rightarrow> gf" is "\<lambda>x. (- x) mod gf_p"
  by (simp add: gf_p_def)

lift_definition plus_gf :: "gf \<Rightarrow> gf \<Rightarrow> gf" is "\<lambda>x y. (x + y) mod gf_p"
  by (simp add: gf_p_def)

lift_definition minus_gf :: "gf \<Rightarrow> gf \<Rightarrow> gf" is "\<lambda>x y. (x - y) mod gf_p"
  by (simp add: gf_p_def)

lift_definition times_gf :: "gf \<Rightarrow> gf \<Rightarrow> gf" is "\<lambda>x y. (x * y) mod gf_p"
  by (simp add: gf_p_def)

instance
  by (standard; transfer) (simp_all add: algebra_simps mod_simps gf_p_def)

end

instantiation gf :: equal
begin

definition equal_gf :: "gf \<Rightarrow> gf \<Rightarrow> bool" where
  "equal_gf x y \<longleftrightarrow> gf_int x = gf_int y"

instance
  by standard (simp add: equal_gf_def gf_int_inject)

end

lemma gf_int_range: "0 \<le> gf_int x" "gf_int x < gf_p"
  using gf_int [of x] by simp_all

lemma gf_int_of_int: "gf_int (of_int n) = n mod gf_p"
proof -
  have nat: "gf_int (of_nat k) = int k mod gf_p" for k
    by (induction k) (simp_all add: zero_gf.rep_eq plus_gf.rep_eq one_gf.rep_eq mod_simps algebra_simps)
  show ?thesis
    by (cases n rule: int_cases2) (simp_all add: nat uminus_gf.rep_eq mod_simps)
qed

lemma gf_int_numeral: "gf_int (numeral n) = numeral n mod gf_p"
  using gf_int_of_int [of "numeral n"] by simp

lemma of_int_gf_int [simp]: "of_int (gf_int x) = x"
  by (rule iffD1 [OF gf_int_inject]) (simp add: gf_int_of_int mod_pos_pos_trivial gf_int_range)

lemma of_int_gf_eq_iff: "(of_int a :: gf) = of_int b \<longleftrightarrow> a mod gf_p = b mod gf_p"
  by (simp add: gf_int_inject [symmetric] gf_int_of_int)

lemma gf_int_power: "gf_int (x ^ n) = gf_int x ^ n mod gf_p"
  by (induction n) (simp_all add: one_gf.rep_eq times_gf.rep_eq mod_simps gf_p_def)

instance gf :: finite
proof
  have "inj_on gf_int UNIV" by (simp add: inj_on_def gf_int_inject)
  moreover have "gf_int ` UNIV \<subseteq> {0..<gf_p}" using gf_int_range by auto
  ultimately show "finite (UNIV :: gf set)" using finite_subset finite_imageD by blast
qed

lemma card_gf: "card (UNIV :: gf set) = nat gf_p"
proof -
  have "x \<in> range gf_int" if "x \<in> {0..<gf_p}" for x
    using that by (intro image_eqI [of _ _ "of_int x"]) (simp_all add: gf_int_of_int)
  then have "range gf_int = {0..<gf_p}" using gf_int_range by auto
  then show ?thesis using card_image [of gf_int UNIV] by (simp add: inj_on_def gf_int_inject)
qed

subsection \<open>The generator\<close>

text \<open>Powers modulo p by squaring, for numerals.\<close>

fun gpow :: "int \<Rightarrow> int \<Rightarrow> num \<Rightarrow> int" where
  "gpow a x num.One = a * x mod gf_p"
| "gpow a x (num.Bit0 k) = gpow a (x * x mod gf_p) k"
| "gpow a x (num.Bit1 k) = gpow (a * x mod gf_p) (x * x mod gf_p) k"

lemma mod_mult_power: "a * (y mod m) ^ n mod m = a * y ^ n mod (m :: int)"
  by (metis mod_mult_right_eq power_mod)

lemma gpow_power: "gpow a x k = a * x ^ numeral k mod gf_p"
proof (induction a x k rule: gpow.induct)
  case (2 a x k)
  have "x ^ numeral (num.Bit0 k) = (x * x) ^ numeral k"
    by (simp only: numeral_Bit0 power_add power_mult_distrib)
  then show ?case by (simp only: gpow.simps 2 mod_mult_power)
next
  case (3 a x k)
  have "x ^ numeral (num.Bit1 k) = x * (x * x) ^ numeral k"
    by (simp only: numeral_Bit1 power_add power_mult_distrib power_one_right ac_simps)
  then show ?case by (simp only: gpow.simps 3 mod_mult_power mod_mult_left_eq mult.assoc)
qed simp

lemma gf_power_eq_1_iff: "(numeral b :: gf) ^ numeral k = 1 \<longleftrightarrow> gpow 1 (numeral b) k = 1"
  unfolding gpow_power mult_1
  by (simp add: gf_int_inject [symmetric] gf_int_power gf_int_numeral power_mod one_gf.rep_eq
      del: power_numeral)

abbreviation gf_units :: nat where
  "gf_units \<equiv> 18446744069414584320"

lemma generator_order: "(7 :: gf) ^ gf_units = 1"
  unfolding gf_power_eq_1_iff by code_simp

lemma generator_cofactor_2: "(7 :: gf) ^ 9223372034707292160 \<noteq> 1"
  unfolding gf_power_eq_1_iff by code_simp

lemma generator_cofactor_3: "(7 :: gf) ^ 6148914689804861440 \<noteq> 1"
  unfolding gf_power_eq_1_iff by code_simp

lemma generator_cofactor_5: "(7 :: gf) ^ 3689348813882916864 \<noteq> 1"
  unfolding gf_power_eq_1_iff by code_simp

lemma generator_cofactor_17: "(7 :: gf) ^ 1085102592318504960 \<noteq> 1"
  unfolding gf_power_eq_1_iff by code_simp

lemma generator_cofactor_257: "(7 :: gf) ^ 71777214277877760 \<noteq> 1"
  unfolding gf_power_eq_1_iff by code_simp

lemma generator_cofactor_65537: "(7 :: gf) ^ 281470681743360 \<noteq> 1"
  unfolding gf_power_eq_1_iff by code_simp

text \<open>
  The order of the generator. A number without divisors below its root is coprime to every number it
  does not divide; a proper divisor of the group order divides the quotient by one of its prime factors.
\<close>

lemma coprime_of_no_divisor:
  assumes small: "\<forall>d \<in> {2..k}. int q mod d \<noteq> 0" and q: "int q < (k + 1) * (k + 1)" "0 < q" "\<not> q dvd m" and "0 \<le> k"
  shows "coprime m q"
proof (rule coprimeI)
  fix d assume d: "d dvd m" "d dvd q"
  then obtain e where e: "q = d * e" by (elim dvdE)
  have "d \<noteq> q" using d(1) q(3) by blast
  then have nz: "d \<noteq> 0" "e \<noteq> 0" "e \<noteq> 1" using e q(2) by auto
  have "int d \<le> k \<or> int e \<le> k"
  proof (rule ccontr)
    assume "\<not> ?thesis"
    then have "(k + 1) * (k + 1) \<le> int d * int e" using assms(5) by (intro mult_mono) auto
    with q(1) e show False by simp
  qed
  moreover have "\<not> (2 \<le> int x \<and> int x \<le> k)" if "x dvd q" for x
  proof
    assume "2 \<le> int x \<and> int x \<le> k"
    then have "int q mod int x \<noteq> 0" using small by simp
    with that show False by (simp add: dvd_imp_mod_0)
  qed
  ultimately have "int d < 2" using e nz by (metis dvd_triv_left dvd_triv_right less_2_cases_iff not_less of_nat_less_iff of_nat_numeral One_nat_def)
  then show "is_unit d" using nz by simp
qed

lemma no_divisors:
  "\<forall>d \<in> {2..1}. (2 :: int) mod d \<noteq> 0" "\<forall>d \<in> {2..1}. (3 :: int) mod d \<noteq> 0"
  "\<forall>d \<in> {2..2}. (5 :: int) mod d \<noteq> 0" "\<forall>d \<in> {2..4}. (17 :: int) mod d \<noteq> 0"
  "\<forall>d \<in> {2..16}. (257 :: int) mod d \<noteq> 0" "\<forall>d \<in> {2..256}. (65537 :: int) mod d \<noteq> 0"
  unfolding set_upto [symmetric] list_all_iff [symmetric] by code_simp+

lemma prime_factors_coprime:
  "\<not> 2 dvd m \<Longrightarrow> coprime m (2 :: nat)" "\<not> 3 dvd m \<Longrightarrow> coprime m (3 :: nat)"
  "\<not> 5 dvd m \<Longrightarrow> coprime m (5 :: nat)" "\<not> 17 dvd m \<Longrightarrow> coprime m (17 :: nat)"
  "\<not> 257 dvd m \<Longrightarrow> coprime m (257 :: nat)" "\<not> 65537 dvd m \<Longrightarrow> coprime m (65537 :: nat)"
  using no_divisors coprime_of_no_divisor [of 1 2 m] coprime_of_no_divisor [of 1 3 m]
    coprime_of_no_divisor [of 2 5 m] coprime_of_no_divisor [of 4 17 m]
    coprime_of_no_divisor [of 16 257 m] coprime_of_no_divisor [of 256 65537 m]
  by simp_all

lemma gf_units_factors: "gf_units = 2 ^ 32 * (3 * (5 * (17 * (257 * 65537))))"
  by simp

lemma proper_divisor:
  assumes "e dvd gf_units" "e \<noteq> gf_units"
  obtains q where "q \<in> {2, 3, 5, 17, 257, 65537}" "e dvd gf_units div q"
proof -
  obtain m where m: "gf_units = e * m" using assms(1) by (elim dvdE)
  have "\<exists>q \<in> {2, 3, 5, 17, 257, 65537}. q dvd m"
  proof (rule ccontr)
    assume "\<not> ?thesis"
    then have "coprime m 2" "coprime m 3" "coprime m 5" "coprime m 17" "coprime m 257" "coprime m 65537"
      by (simp_all add: prime_factors_coprime)
    then have "coprime m (2 ^ 32 * (3 * (5 * (17 * (257 * 65537)))))"
      by (simp only: coprime_mult_right_iff coprime_power_right_iff) simp
    then have "coprime m gf_units" by (simp only: gf_units_factors)
    moreover have "m dvd gf_units" using m by (metis dvd_triv_right)
    ultimately have "m = 1" by (metis coprime_absorb_left nat_dvd_1_iff_1)
    with m assms(2) show False by simp
  qed
  then obtain q m' where q: "q \<in> {2, 3, 5, 17, 257, 65537}" and "m = q * m'" by (elim bexE dvdE)
  then have "gf_units = e * m' * q" using m by (simp only: ac_simps)
  moreover have "q \<noteq> 0" using q by auto
  ultimately have "gf_units div q = e * m'" by (simp only: nonzero_mult_div_cancel_right not_False_eq_True)
  then have "e dvd gf_units div q" by (rule dvdI)
  with q show ?thesis by (rule that)
qed

lemma power_gcd_eq_1:
  fixes x :: "'a :: comm_monoid_mult"
  shows "x ^ a = 1 \<Longrightarrow> x ^ b = 1 \<Longrightarrow> x ^ gcd a b = 1"
proof (induction a b rule: gcd_nat_induct)
  case (step a b)
  have "x ^ a = x ^ (b * (a div b)) * x ^ (a mod b)" by (simp flip: power_add)
  then have "x ^ (a mod b) = 1" using step.prems by (simp add: power_mult)
  then show ?case using step by (simp add: gcd_red_nat [of a b])
qed simp

lemma generator_period: "(7 :: gf) ^ d = 1 \<longleftrightarrow> gf_units dvd d"
proof
  assume "(7 :: gf) ^ d = 1"
  then have e: "(7 :: gf) ^ gcd d gf_units = 1" by (rule power_gcd_eq_1 [OF _ generator_order])
  have "gcd d gf_units = gf_units"
  proof (rule ccontr)
    assume "gcd d gf_units \<noteq> gf_units"
    with gcd_dvd2 obtain q where q: "q \<in> {2, 3, 5, 17, 257, 65537}" "gcd d gf_units dvd gf_units div q"
      by (rule proper_divisor)
    then obtain k where "gf_units div q = gcd d gf_units * k" by (elim dvdE)
    then have "(7 :: gf) ^ (gf_units div q) = 1" using e by (simp only: power_mult power_one)
    with q(1) generator_cofactor_2 generator_cofactor_3 generator_cofactor_5 generator_cofactor_17
      generator_cofactor_257 generator_cofactor_65537
    show False by (elim insertE emptyE) (simp_all del: power_numeral)
  qed
  then show "gf_units dvd d" by (metis gcd_dvd1)
next
  assume "gf_units dvd d"
  then obtain k where "d = gf_units * k" by (elim dvdE)
  then show "(7 :: gf) ^ d = 1" by (simp only: power_mult generator_order power_one)
qed

lemma generator_powers_inj: "inj_on (\<lambda>k. (7 :: gf) ^ k) {..<gf_units}"
proof -
  have "i = j" if "i \<le> j" "j < gf_units" "(7 :: gf) ^ i = 7 ^ j" for i j
  proof -
    have "(7 :: gf) ^ (gf_units - i) * 7 ^ i = 7 ^ (gf_units - i) * 7 ^ j" using that(3) by (simp only:)
    then have "(7 :: gf) ^ gf_units = 7 ^ (gf_units + (j - i))"
      using that(1,2) by (simp only: power_add [symmetric]) (simp del: power_numeral)
    then have "(7 :: gf) ^ (j - i) = 1" by (simp only: power_add generator_order mult_1)
    then have "gf_units dvd j - i" by (simp only: generator_period)
    with that show "i = j" using nat_dvd_not_less [of "j - i" gf_units] by linarith
  qed
  then show ?thesis by (auto simp only: inj_on_def lessThan_iff) (metis nle_le)
qed

lemma generator_generates:
  assumes "x \<noteq> (0 :: gf)"
  obtains k where "k < gf_units" "x = 7 ^ k"
proof -
  have unit: "(7 :: gf) ^ (gf_units - k) * 7 ^ k = 1" if "k < gf_units" for k
  proof -
    have "gf_units - k + k = gf_units" using that by linarith
    then show ?thesis by (simp only: power_add [symmetric] generator_order)
  qed
  let ?P = "(\<lambda>k. (7 :: gf) ^ k) ` {..<gf_units}"
  have "0 \<notin> ?P"
  proof
    assume "0 \<in> ?P"
    then obtain k where "k < gf_units" "(7 :: gf) ^ k = 0" by (auto simp del: power_numeral)
    with unit [of k] show False by (simp del: power_numeral)
  qed
  then have "?P \<subseteq> UNIV - {0}" by blast
  moreover have "card ?P = card (UNIV - {0 :: gf})"
    using card_image [OF generator_powers_inj] by (simp add: card_Diff_singleton card_gf gf_p_def)
  ultimately have "?P = UNIV - {0}" by (intro card_subset_eq) simp_all
  then have "x \<in> ?P" using assms by blast
  then show ?thesis using that by blast
qed

lemma fermat: "x \<noteq> (0 :: gf) \<Longrightarrow> x ^ gf_units = 1"
  by (erule generator_generates) (simp only: power_mult [symmetric] mult.commute [of _ gf_units],
      simp only: power_mult generator_order power_one)

subsection \<open>The field\<close>

instantiation gf :: field
begin

definition inverse_gf :: "gf \<Rightarrow> gf" where
  "inverse_gf x = (if x = 0 then 0 else x ^ (gf_units - 1))"

definition divide_gf :: "gf \<Rightarrow> gf \<Rightarrow> gf" where
  "divide_gf x y = x * inverse y"

instance
proof
  fix x y :: gf
  show "x \<noteq> 0 \<Longrightarrow> inverse x * x = 1"
    using fermat [of x] power_add [of x "gf_units - 1" 1] by (simp add: inverse_gf_def)
qed (simp_all add: divide_gf_def inverse_gf_def)

end

subsection \<open>Representatives\<close>

text \<open>The element a 64-bit representative stands for; the word operations are the field operations.\<close>

definition gf_of :: "felt \<Rightarrow> gf" where
  "gf_of x = of_int (uint x)"

lemma gf_int_gf_of: "gf_int (gf_of x) = gf_val x"
  unfolding gf_of_def gf_int_of_int gf_val_def ..

lemma gf_of_eq_iff: "gf_of x = gf_of y \<longleftrightarrow> gf_eq x y"
  by (simp add: gf_int_inject [symmetric] gf_int_gf_of gf_eq_iff)

lemma gf_of_ops:
  "gf_of 0 = 0" "gf_of 1 = 1" "gf_of (gf_add x y) = gf_of x + gf_of y" "gf_of (gf_sub x y) = gf_of x - gf_of y"
  "gf_of (gf_mul x y) = gf_of x * gf_of y" "gf_of (gf_neg x) = - gf_of x"
  "gf_of (to_canonical_u64 x) = gf_of x" "gf_of (from_canonical_u64 x) = gf_of x"
  by (simp_all add: gf_int_inject [symmetric] gf_int_gf_of zero_gf.rep_eq one_gf.rep_eq plus_gf.rep_eq
      minus_gf.rep_eq times_gf.rep_eq uminus_gf.rep_eq gf_val_ops from_canonical_u64_def)

text \<open>Numerals of the field are equal when their residues are.\<close>

lemma gf_numeral_eq [simp]:
  "(numeral m :: gf) = numeral n \<longleftrightarrow> (numeral m :: int) mod gf_p = numeral n mod gf_p"
  "(numeral m :: gf) = 0 \<longleftrightarrow> (numeral m :: int) mod gf_p = 0"
  "(0 :: gf) = numeral m \<longleftrightarrow> (numeral m :: int) mod gf_p = 0"
  "(numeral m :: gf) = 1 \<longleftrightarrow> (numeral m :: int) mod gf_p = 1"
  "(1 :: gf) = numeral m \<longleftrightarrow> (numeral m :: int) mod gf_p = 1"
  by (auto simp: gf_int_inject [symmetric] gf_int_numeral zero_gf.rep_eq one_gf.rep_eq)

subsection \<open>Generic field methods\<close>

text \<open>Exponentiation and roots of unity of \<open>plonky2/field/src/types.rs\<close>.\<close>

fun bits_nat :: "nat \<Rightarrow> nat" where
  "bits_nat n = (if n = 0 then 0 else Suc (bits_nat (n div 2)))"

declare bits_nat.simps [simp del]

definition bits_u64 :: "u64 \<Rightarrow> nat" where
  "bits_u64 n = bits_nat (unat n)"

definition exp_power_of_2 :: "felt \<Rightarrow> nat \<Rightarrow> felt" where
  "exp_power_of_2 x power_log = ((\<lambda>res. gf_mul res res) ^^ power_log) x"

definition exp_u64 :: "felt \<Rightarrow> u64 \<Rightarrow> felt" where
  "exp_u64 x pw =
     snd (foldl (\<lambda>(current, product) j.
              (gf_mul current current, if drop_bit j pw AND 1 \<noteq> 0 then gf_mul product current else product))
            (x, 1) [0..<bits_u64 pw])"

definition MULTIPLICATIVE_GROUP_GENERATOR :: felt where
  "MULTIPLICATIVE_GROUP_GENERATOR = 7"

definition POWER_OF_TWO_GENERATOR :: felt where
  "POWER_OF_TWO_GENERATOR = 1753635133440165772"

definition TWO_ADICITY :: nat where
  "TWO_ADICITY = 32"

definition primitive_root_of_unity :: "nat \<Rightarrow> felt option" where
  "primitive_root_of_unity n_log =
     (if n_log \<le> TWO_ADICITY then Some (exp_power_of_2 POWER_OF_TWO_GENERATOR (TWO_ADICITY - n_log)) else None)"

text \<open>\<open>p - ((p - 1) >> e)\<close>, the inverse of 2^e for e up to the two-adicity.\<close>

definition inverse_2exp_small :: "nat \<Rightarrow> felt" where
  "inverse_2exp_small e = from_canonical_u64 (ORDER - drop_bit e (ORDER - 1))"

function inverse_2exp_loop :: "felt \<Rightarrow> nat \<Rightarrow> felt \<times> nat" where
  "inverse_2exp_loop res e =
     (if TWO_ADICITY < e
      then inverse_2exp_loop (gf_mul res (inverse_2exp_small TWO_ADICITY)) (e - TWO_ADICITY)
      else (res, e))"
  by pat_completeness auto

termination inverse_2exp_loop
  by (relation "measure snd") (simp_all add: TWO_ADICITY_def)

declare inverse_2exp_loop.simps [simp del]

definition inverse_2exp :: "nat \<Rightarrow> felt" where
  "inverse_2exp e =
     (if TWO_ADICITY < e
      then let (res, e') = inverse_2exp_loop (inverse_2exp_small TWO_ADICITY) (e - TWO_ADICITY)
           in gf_mul res (inverse_2exp_small e')
      else inverse_2exp_small e)"

lemma gf_of_exp_power_of_2: "gf_of (exp_power_of_2 x n) = gf_of x ^ (2 ^ n)"
  by (induction n) (simp_all add: exp_power_of_2_def gf_of_ops power_add [symmetric] mult_2)

lemma bits_nat_bound: "n < 2 ^ bits_nat n"
proof (induction n rule: bits_nat.induct)
  case (1 n)
  show ?case
  proof (cases "n = 0")
    case False
    with 1 have "n div 2 < 2 ^ bits_nat (n div 2)" by simp
    with False show ?thesis by (subst bits_nat.simps) (simp add: div_less_iff_less_mult mult.commute)
  qed (simp add: bits_nat.simps)
qed

lemma exp_u64_loop:
  "foldl (\<lambda>(current, product) j.
      (gf_mul current current, if drop_bit j (pw :: u64) AND 1 \<noteq> 0 then gf_mul product current else product))
    (x, 1) [0..<k] = (c, r) \<Longrightarrow> gf_of c = gf_of x ^ (2 ^ k) \<and> gf_of r = gf_of x ^ (unat pw mod 2 ^ k)"
proof (induction k arbitrary: c r)
  case (Suc k)
  obtain c0 r0 where IH: "foldl (\<lambda>(current, product) j.
      (gf_mul current current, if drop_bit j pw AND 1 \<noteq> 0 then gf_mul product current else product))
    (x, 1) [0..<k] = (c0, r0)" by fastforce
  note v = Suc.IH [OF IH]
  have bit: "drop_bit k pw AND 1 \<noteq> 0 \<longleftrightarrow> odd (unat pw div 2 ^ k)"
  proof -
    have "drop_bit k pw AND 1 \<noteq> 0 \<longleftrightarrow> bit pw k"
      by (simp add: and_one_eq bit_iff_odd_drop_bit odd_iff_mod_2_eq_one)
    also have "\<dots> \<longleftrightarrow> bit (unat pw) k" by (simp add: bit_unsigned_iff)
    finally show ?thesis by (simp add: bit_iff_odd)
  qed
  have "unat pw mod 2 ^ Suc k = unat pw mod 2 ^ k + 2 ^ k * (unat pw div 2 ^ k mod 2)"
    by (simp add: mod_mult2_eq mult.commute [of 2])
  then show ?case
    using Suc.prems v bit IH by (auto simp: gf_of_ops power_add power2_eq_square mult_2 odd_iff_mod_2_eq_one)
qed (simp add: gf_of_ops)

lemma gf_of_exp_u64: "gf_of (exp_u64 x pw) = gf_of x ^ unat pw"
  using exp_u64_loop [of pw x "bits_u64 pw", OF prod.collapse [symmetric]] bits_nat_bound [of "unat pw"]
  by (simp add: exp_u64_def bits_u64_def)

lemma gf_of_int_p [simp]: "(of_int gf_p :: gf) = 0"
  by (simp add: gf_int_inject [symmetric] gf_int_of_int zero_gf.rep_eq)

lemma gf_of_inverse_2exp_small:
  assumes "e \<le> TWO_ADICITY"
  shows "gf_of (inverse_2exp_small e) * 2 ^ e = 1"
proof -
  define k :: int where "k = 2 ^ (32 - e) * 4294967295"
  have "(2 :: int) ^ e * 2 ^ (32 - e) = 2 ^ 32"
    using assms by (simp add: TWO_ADICITY_def flip: power_add)
  then have k: "gf_p - 1 = 2 ^ e * k" by (simp add: k_def gf_p_def)
  have "(2 :: int) ^ (32 - e) \<le> 2 ^ 32" by (rule power_increasing) simp_all
  then have pos: "0 \<le> k" "k < gf_p" by (simp_all add: k_def gf_p_def)
  have "uint (drop_bit e (ORDER - 1)) = (gf_p - 1) div 2 ^ e"
    unfolding unsigned_drop_bit_eq by (simp add: drop_bit_eq_div [where 'a = int] ORDER_def gf_p_def)
  then have "uint (drop_bit e (ORDER - 1)) = k" using k by simp
  then have "uint (ORDER - drop_bit e (ORDER - 1)) = gf_p - k"
    using pos by (simp add: uint_sub_if' word_le_def ORDER_def gf_p_def)
  then have "gf_of (inverse_2exp_small e) = - of_int k"
    unfolding gf_of_def inverse_2exp_small_def from_canonical_u64_def by simp
  also have "\<dots> * 2 ^ e = - of_int (gf_p - 1)" by (simp add: k)
  finally show ?thesis by simp
qed

lemma gf_of_inverse_2exp_loop:
  "inverse_2exp_loop r e = (r', e') \<Longrightarrow> e' \<le> TWO_ADICITY \<and> gf_of r' * 2 ^ e = gf_of r * 2 ^ e'"
proof (induction r e arbitrary: r' e' rule: inverse_2exp_loop.induct)
  case (1 r e)
  show ?case
  proof (cases "TWO_ADICITY < e")
    case True
    let ?r = "gf_mul r (inverse_2exp_small TWO_ADICITY)"
    have IH: "e' \<le> TWO_ADICITY" "gf_of r' * 2 ^ (e - TWO_ADICITY) = gf_of ?r * 2 ^ e'"
      using 1 True by (simp_all add: inverse_2exp_loop.simps [of r e])
    have "(2 :: gf) ^ e = 2 ^ (e - TWO_ADICITY) * 2 ^ TWO_ADICITY" using True by (simp flip: power_add)
    then have "gf_of r' * 2 ^ e = gf_of ?r * 2 ^ e' * 2 ^ TWO_ADICITY" using IH(2) by (simp add: mult.assoc [symmetric])
    also have "\<dots> = gf_of r * 2 ^ e' * (gf_of (inverse_2exp_small TWO_ADICITY) * 2 ^ TWO_ADICITY)"
      by (simp add: gf_of_ops ac_simps)
    finally show ?thesis using IH(1) by (simp add: gf_of_inverse_2exp_small)
  qed (use 1 in \<open>simp add: inverse_2exp_loop.simps [of r e]\<close>)
qed

lemma gf_of_inverse_2exp: "gf_of (inverse_2exp e) * 2 ^ e = 1"
proof (cases "TWO_ADICITY < e")
  case True
  obtain r e' where l: "inverse_2exp_loop (inverse_2exp_small TWO_ADICITY) (e - TWO_ADICITY) = (r, e')"
    by (cases "inverse_2exp_loop (inverse_2exp_small TWO_ADICITY) (e - TWO_ADICITY)")
  note v = gf_of_inverse_2exp_loop [OF l]
  have "(2 :: gf) ^ e = 2 ^ (e - TWO_ADICITY) * 2 ^ TWO_ADICITY" using True by (simp flip: power_add)
  then have "gf_of (inverse_2exp e) * 2 ^ e =
      gf_of r * 2 ^ (e - TWO_ADICITY) * 2 ^ TWO_ADICITY * gf_of (inverse_2exp_small e')"
    using True l by (simp add: inverse_2exp_def gf_of_ops ac_simps)
  also have "\<dots> = (gf_of (inverse_2exp_small TWO_ADICITY) * 2 ^ TWO_ADICITY) * (gf_of (inverse_2exp_small e') * 2 ^ e')"
    using v by (simp add: ac_simps)
  finally show ?thesis using v by (simp add: gf_of_inverse_2exp_small)
qed (simp add: inverse_2exp_def gf_of_inverse_2exp_small)

lemma power_of_two_generator: "gf_of POWER_OF_TWO_GENERATOR ^ (2 ^ 31) = - 1"
proof -
  have "gpow 1 1753635133440165772 (num.Bit0 (num.Bit0 (num.Bit0 (num.Bit0 (num.Bit0 (num.Bit0 (num.Bit0
    (num.Bit0 (num.Bit0 (num.Bit0 (num.Bit0 (num.Bit0 (num.Bit0 (num.Bit0 (num.Bit0 (num.Bit0 (num.Bit0
    (num.Bit0 (num.Bit0 (num.Bit0 (num.Bit0 (num.Bit0 (num.Bit0 (num.Bit0 (num.Bit0 (num.Bit0 (num.Bit0
    (num.Bit0 (num.Bit0 (num.Bit0 (num.Bit0 num.One))))))))))))))))))))))))))))))) = gf_p - 1"
    by code_simp
  then have "gf_int (gf_of POWER_OF_TWO_GENERATOR ^ 2147483648) = gf_p - 1"
    unfolding gpow_power gf_int_power gf_int_gf_of gf_val_def POWER_OF_TWO_GENERATOR_def power_mod
    by (simp del: power_numeral)
  then have "gf_of POWER_OF_TWO_GENERATOR ^ 2147483648 = - 1"
    by (simp add: gf_int_inject [symmetric] uminus_gf.rep_eq one_gf.rep_eq gf_p_def del: power_numeral)
  then show ?thesis by simp
qed

lemma two_power_odd: "0 < k \<Longrightarrow> \<exists>j m. k = 2 ^ j * m \<and> odd (m :: nat)"
proof (induction k rule: less_induct)
  case (less k)
  show ?case
  proof (cases "even k")
    case True
    then obtain h where h: "k = 2 * h" by (elim evenE)
    with less.prems have "0 < h" "h < k" by simp_all
    then obtain j m where "h = 2 ^ j * m" "odd m" using less.IH by blast
    with h show ?thesis by (intro exI [of _ "Suc j"] exI [of _ m]) simp
  qed (intro exI [of _ 0] exI [of _ k], simp)
qed

lemma minus_one_neq_one: "(- 1 :: gf) \<noteq> 1"
  by (simp add: gf_int_inject [symmetric] uminus_gf.rep_eq one_gf.rep_eq gf_p_def)

lemma root_order:
  fixes w :: gf
  assumes "w ^ (2 ^ N) = - 1" "n \<le> Suc N"
  shows "(w ^ (2 ^ (Suc N - n))) ^ k = 1 \<longleftrightarrow> 2 ^ n dvd k"
proof
  let ?r = "w ^ (2 ^ (Suc N - n))"
  have one: "w ^ (2 ^ Suc N) = 1" using assms(1) by (simp add: power_add mult_2)
  assume r: "?r ^ k = 1"
  show "2 ^ n dvd k"
  proof (rule ccontr)
    assume nd: "\<not> 2 ^ n dvd k"
    then have "0 < k" by (auto intro: gr0I)
    then obtain j m where k: "k = 2 ^ j * m" "odd m" using two_power_odd by blast
    have j: "j < n" using nd k(1) by (meson dvd_trans dvd_triv_left le_imp_power_dvd not_less)
    have "2 ^ (Suc N - n) * (k * 2 ^ (n - 1 - j)) = 2 ^ (Suc N - n + j + (n - 1 - j)) * m"
      unfolding k(1) power_add by (simp only: ac_simps)
    also have "Suc N - n + j + (n - 1 - j) = N" using j assms(2) by simp
    finally have "?r ^ (k * 2 ^ (n - 1 - j)) = (w ^ (2 ^ N)) ^ m" by (simp only: power_mult [symmetric])
    then have "1 = (- 1 :: gf) ^ m" using r assms(1) by (simp add: power_mult)
    with k(2) minus_one_neq_one show False by simp
  qed
next
  assume "2 ^ n dvd k"
  then obtain c where c: "k = 2 ^ n * c" by (elim dvdE)
  have "2 ^ (Suc N - n) * (2 ^ n * c) = 2 ^ Suc N * c"
    using assms(2) by (simp only: mult.assoc [symmetric] power_add [symmetric]) simp
  then have "(w ^ (2 ^ (Suc N - n))) ^ k = (w ^ (2 ^ Suc N)) ^ c" unfolding c by (simp only: power_mult [symmetric])
  also have "w ^ (2 ^ Suc N) = 1" using assms(1) by (simp add: power_add mult_2)
  finally show "(w ^ (2 ^ (Suc N - n))) ^ k = 1" by simp
qed

lemma gf_eq_1: "gf_eq x 1 \<longleftrightarrow> gf_of x = 1" "gf_eq x 0 \<longleftrightarrow> gf_of x = 0"
  using gf_of_eq_iff [of x 1] gf_of_eq_iff [of x 0] by (simp_all add: gf_of_ops)

subsection \<open>Properties\<close>

text \<open>
  The exponentiation methods of the field are exponentiation modulo p, and \<open>inverse_2exp e\<close> is the
  inverse of 2^e for every e, beyond the two-adicity too.
\<close>

theorem field_powers_correct:
  "gf_val (exp_u64 x k) = gf_val x ^ unat k mod gf_p \<and>
   gf_val (exp_power_of_2 x n) = gf_val x ^ (2 ^ n) mod gf_p \<and>
   gf_val (inverse_2exp n) * 2 ^ n mod gf_p = 1"
proof -
  have "gf_int (gf_of (inverse_2exp n) * 2 ^ n) = gf_val (inverse_2exp n) * 2 ^ n mod gf_p"
    by (simp only: times_gf.rep_eq gf_int_gf_of gf_int_power gf_int_numeral power_mod mod_mult_right_eq)
  then have "gf_val (inverse_2exp n) * 2 ^ n mod gf_p = 1" by (simp add: gf_of_inverse_2exp one_gf.rep_eq)
  then show ?thesis
    using gf_int_gf_of [of "exp_u64 x k"] gf_int_gf_of [of "exp_power_of_2 x n"]
    by (simp add: gf_of_exp_u64 gf_of_exp_power_of_2 gf_int_power gf_int_gf_of)
qed

lemma primitive_root_order:
  assumes "primitive_root_of_unity n = Some r"
  shows "gf_of r ^ k = 1 \<longleftrightarrow> 2 ^ n dvd k"
proof -
  have r: "n \<le> 32" "r = exp_power_of_2 POWER_OF_TWO_GENERATOR (Suc 31 - n)"
    using assms by (simp_all add: primitive_root_of_unity_def TWO_ADICITY_def split: if_splits)
  then have "gf_of r ^ k = (gf_of POWER_OF_TWO_GENERATOR ^ (2 ^ (Suc 31 - n))) ^ k"
    by (simp only: gf_of_exp_power_of_2)
  then show ?thesis using root_order [OF power_of_two_generator, of n k] r(1) by simp
qed

text \<open>
  C0 The constants of the field are what their comments say, so p is prime and the type is a field:
  every element but zero is a power of \<open>MULTIPLICATIVE_GROUP_GENERATOR\<close> and is inverted by its power
  p - 2, and \<open>primitive_root_of_unity n\<close> has order exactly 2^n, up to the two-adicity.
\<close>

theorem field_generators:
  "(gf_eq x 0 \<or>
     (\<exists>k < ORDER - 1. gf_eq x (exp_u64 MULTIPLICATIVE_GROUP_GENERATOR k)) \<and>
     gf_eq (gf_mul x (exp_u64 x (ORDER - 2))) 1) \<and>
   (case primitive_root_of_unity n of
      None \<Rightarrow> TWO_ADICITY < n
    | Some r \<Rightarrow> n \<le> TWO_ADICITY \<and> (\<forall>k. gf_eq (exp_u64 r k) 1 \<longleftrightarrow> 2 ^ n dvd unat k))"
proof -
  have gen: "\<exists>k < ORDER - 1. gf_eq x (exp_u64 MULTIPLICATIVE_GROUP_GENERATOR k)" if "\<not> gf_eq x 0"
  proof -
    have "gf_of x \<noteq> 0" using that by (simp add: gf_eq_1)
    then obtain k where k: "k < gf_units" "gf_of x = 7 ^ k" by (rule generator_generates)
    have u: "unat (of_nat k :: u64) = k" using k(1) by (simp add: unat_of_nat)
    then have "of_nat k < ORDER - 1" using k(1) by (simp add: word_less_nat_alt ORDER_def)
    moreover have "gf_of MULTIPLICATIVE_GROUP_GENERATOR = 7"
      by (simp add: gf_of_def MULTIPLICATIVE_GROUP_GENERATOR_def)
    then have "gf_eq x (exp_u64 MULTIPLICATIVE_GROUP_GENERATOR (of_nat k))"
      by (simp add: gf_of_eq_iff [symmetric] gf_of_exp_u64 u k(2))
    ultimately show ?thesis by blast
  qed
  have inv: "gf_eq (gf_mul x (exp_u64 x (ORDER - 2))) 1" if "\<not> gf_eq x 0"
  proof -
    have "unat (ORDER - 2) = gf_units - 1" by (simp add: ORDER_def)
    then have "gf_of (gf_mul x (exp_u64 x (ORDER - 2))) = gf_of x * gf_of x ^ (gf_units - 1)"
      by (simp only: gf_of_ops gf_of_exp_u64)
    also have "\<dots> = gf_of x ^ gf_units"
      unfolding mult.commute [of "gf_of x"] by (rule power_minus_mult) simp
    finally show ?thesis using that by (simp only: gf_eq_1 fermat not_False_eq_True)
  qed
  have root: "gf_eq (exp_u64 r k) 1 \<longleftrightarrow> 2 ^ n dvd unat k" if "primitive_root_of_unity n = Some r" for r k
  proof -
    show ?thesis using primitive_root_order [OF that, of "unat k"] by (simp only: gf_eq_1 gf_of_exp_u64)
  qed
  show ?thesis
  proof
    show "gf_eq x 0 \<or> (\<exists>k < ORDER - 1. gf_eq x (exp_u64 MULTIPLICATIVE_GROUP_GENERATOR k)) \<and>
       gf_eq (gf_mul x (exp_u64 x (ORDER - 2))) 1" using gen inv by blast
    show "case primitive_root_of_unity n of None \<Rightarrow> TWO_ADICITY < n
      | Some r \<Rightarrow> n \<le> TWO_ADICITY \<and> (\<forall>k. gf_eq (exp_u64 r k) 1 \<longleftrightarrow> 2 ^ n dvd unat k)"
    proof (cases "n \<le> TWO_ADICITY")
      case True
      then obtain r where "primitive_root_of_unity n = Some r" by (simp add: primitive_root_of_unity_def)
      with True root show ?thesis by simp
    qed (simp add: primitive_root_of_unity_def)
  qed
qed

end
