(* ===== verification/Stark.thy ===== *)
theory Stark
  imports GField "HOL-Library.Multiset"
begin

text \<open>
  The frame of the circuits (\<open>circuits/src/stark\<close>): the consumer that combines the constraints a table
  emits (\<open>constraint_consumer.rs\<close>), and what it means for a trace to satisfy them. A table is a list of
  columns; constraints are evaluated on a row and the next one, the last row being followed by the first.
  The proof system that checks these values on committed polynomials is not part of the model; the
  values themselves are.
\<close>

unbundle bit_operations_syntax

subsection \<open>The consumer\<close>

record ConstraintConsumer =
  alphas :: "gf list"
  constraint_accs :: "gf list"
  z_last :: gf
  lagrange_basis_first :: gf
  lagrange_basis_last :: gf

definition consumer_new :: "gf list \<Rightarrow> gf \<Rightarrow> gf \<Rightarrow> gf \<Rightarrow> ConstraintConsumer" where
  "consumer_new as z f l =
     \<lparr>alphas = as, constraint_accs = map (\<lambda>_. 0) as, z_last = z, lagrange_basis_first = f, lagrange_basis_last = l\<rparr>"

definition constraint :: "gf \<Rightarrow> ConstraintConsumer \<Rightarrow> ConstraintConsumer" where
  "constraint c cc =
     cc\<lparr>constraint_accs := map (\<lambda>(alpha, acc). acc * alpha + c) (zip (alphas cc) (constraint_accs cc))\<rparr>"

definition constraint_transition :: "gf \<Rightarrow> ConstraintConsumer \<Rightarrow> ConstraintConsumer" where
  "constraint_transition c cc = constraint (c * z_last cc) cc"

definition constraint_first_row :: "gf \<Rightarrow> ConstraintConsumer \<Rightarrow> ConstraintConsumer" where
  "constraint_first_row c cc = constraint (c * lagrange_basis_first cc) cc"

definition constraint_last_row :: "gf \<Rightarrow> ConstraintConsumer \<Rightarrow> ConstraintConsumer" where
  "constraint_last_row c cc = constraint (c * lagrange_basis_last cc) cc"

text \<open>The calls a table makes to the consumer, in order.\<close>

datatype emit = Always gf | Transition gf | First_row gf | Last_row gf

fun consume :: "emit \<Rightarrow> ConstraintConsumer \<Rightarrow> ConstraintConsumer" where
  "consume (Always c) = constraint c"
| "consume (Transition c) = constraint_transition c"
| "consume (First_row c) = constraint_first_row c"
| "consume (Last_row c) = constraint_last_row c"

definition consume_all :: "emit list \<Rightarrow> ConstraintConsumer \<Rightarrow> ConstraintConsumer" where
  "consume_all es cc = fold consume es cc"

subsection \<open>Satisfied constraints\<close>

text \<open>What a call asks for at row \<open>i\<close> of a trace of \<open>n\<close> rows.\<close>

fun emit_holds :: "nat \<Rightarrow> nat \<Rightarrow> emit \<Rightarrow> bool" where
  "emit_holds n i (Always c) \<longleftrightarrow> c = 0"
| "emit_holds n i (Transition c) \<longleftrightarrow> Suc i = n \<or> c = 0"
| "emit_holds n i (First_row c) \<longleftrightarrow> i \<noteq> 0 \<or> c = 0"
| "emit_holds n i (Last_row c) \<longleftrightarrow> Suc i \<noteq> n \<or> c = 0"

type_synonym row = "nat \<Rightarrow> gf"
type_synonym trace = "gf list list"

definition trace_row :: "trace \<Rightarrow> nat \<Rightarrow> row" where
  "trace_row t i = (\<lambda>c. t ! c ! i)"

definition trace_length :: "trace \<Rightarrow> nat" where
  "trace_length t = length (t ! 0)"

definition satisfies :: "(row \<Rightarrow> row \<Rightarrow> emit list) \<Rightarrow> trace \<Rightarrow> bool" where
  "satisfies eval t \<longleftrightarrow>
     (let n = trace_length t
      in list_all (\<lambda>i. list_all (emit_holds n i) (eval (trace_row t i) (trace_row t (Suc i mod n)))) [0..<n])"

lemma satisfiesD:
  assumes "satisfies eval t" "i < trace_length t" "e \<in> set (eval (trace_row t i) (trace_row t (Suc i mod trace_length t)))"
  shows "emit_holds (trace_length t) i e"
  using assms by (auto simp: satisfies_def list_all_iff Let_def)

lemma satisfiesI:
  assumes "\<And>i e. i < trace_length t \<Longrightarrow> e \<in> set (eval (trace_row t i) (trace_row t (Suc i mod trace_length t))) \<Longrightarrow>
      emit_holds (trace_length t) i e"
  shows "satisfies eval t"
  using assms by (auto simp: satisfies_def list_all_iff Let_def)

lemma satisfies_all:
  "satisfies eval t \<longleftrightarrow>
     (\<forall>i < trace_length t. list_all (emit_holds (trace_length t) i)
        (eval (trace_row t i) (trace_row t (Suc i mod trace_length t))))"
  by (simp add: satisfies_def Let_def list_all_iff Ball_def)

text \<open>Two columns lists that are permutations of one another, row by row.\<close>

type_synonym permutation_pair = "(nat \<times> nat) list"

definition singletons :: "nat \<Rightarrow> nat \<Rightarrow> permutation_pair" where
  "singletons lhs rhs = [(lhs, rhs)]"

definition permuted_columns :: "trace \<Rightarrow> permutation_pair \<Rightarrow> bool" where
  "permuted_columns t pair \<longleftrightarrow>
     mset (map (\<lambda>i. map (\<lambda>(l, r). t ! l ! i) pair) [0..<trace_length t]) =
     mset (map (\<lambda>i. map (\<lambda>(l, r). t ! r ! i) pair) [0..<trace_length t])"

definition permutations_hold :: "permutation_pair list \<Rightarrow> trace \<Rightarrow> bool" where
  "permutations_hold pairs t \<longleftrightarrow> list_all (permuted_columns t) pairs"

definition rectangular :: "trace \<Rightarrow> bool" where
  "rectangular t \<longleftrightarrow> list_all (\<lambda>col. length col = trace_length t) t"

lemma permuted_columns_singletons:
  assumes "rectangular t" "l < length t" "r < length t"
  shows "permuted_columns t (singletons l r) \<longleftrightarrow> mset (t ! l) = mset (t ! r)"
proof -
  have "mset (map (\<lambda>i. [t ! c ! i]) [0..<trace_length t]) = image_mset (\<lambda>x. [x]) (mset (t ! c))" if "c < length t" for c
  proof -
    have "length (t ! c) = trace_length t" using assms(1) that by (simp add: rectangular_def list_all_length)
    then have "map (\<lambda>i. [t ! c ! i]) [0..<trace_length t] = map (\<lambda>x. [x]) (t ! c)"
      by (intro nth_equalityI) simp_all
    then show ?thesis by (simp only: mset_map)
  qed
  then show ?thesis
    using assms(2,3) multiset.inj_map [of "\<lambda>x. [x :: gf]"]
    by (simp add: permuted_columns_def singletons_def inj_eq inj_def [of "\<lambda>x. [x]"])
qed

subsection \<open>Polynomials in a challenge\<close>

text \<open>\<open>reduce_with_powers\<close> of \<open>plonky2/plonky2/src/plonk/plonk_common.rs\<close>, a polynomial given by its coefficients.\<close>

definition reduce_with_powers :: "gf list \<Rightarrow> gf \<Rightarrow> gf" where
  "reduce_with_powers terms alpha = foldr (\<lambda>term sum. sum * alpha + term) terms 0"

lemma reduce_with_powers_simps [simp]:
  "reduce_with_powers [] x = 0" "reduce_with_powers (c # cs) x = reduce_with_powers cs x * x + c"
  by (simp_all add: reduce_with_powers_def)

lemma reduce_with_powers_zero: "set cs \<subseteq> {0} \<Longrightarrow> reduce_with_powers cs x = 0"
  by (induction cs) simp_all

text \<open>The quotient by a linear factor.\<close>

fun quotient_at :: "gf \<Rightarrow> gf list \<Rightarrow> gf list" where
  "quotient_at a [] = []"
| "quotient_at a [c] = []"
| "quotient_at a (c # d # cs) = reduce_with_powers (d # cs) a # quotient_at a (d # cs)"

lemma length_quotient_at [simp]: "length (quotient_at a cs) = length cs - 1"
  by (induction a cs rule: quotient_at.induct) simp_all

lemma quotient_at: "reduce_with_powers cs x - reduce_with_powers cs a = (x - a) * reduce_with_powers (quotient_at a cs) x"
proof (induction a cs rule: quotient_at.induct)
  case (3 a c d cs)
  let ?g = "d # cs"
  have "reduce_with_powers (c # ?g) x - reduce_with_powers (c # ?g) a =
      (reduce_with_powers ?g x - reduce_with_powers ?g a) * x + (x - a) * reduce_with_powers ?g a"
    by (simp add: algebra_simps)
  with 3 show ?case by (simp only: quotient_at.simps reduce_with_powers_simps) (simp add: algebra_simps)
qed simp_all

lemma quotient_at_zero:
  "set (quotient_at a cs) \<subseteq> {0} \<Longrightarrow> reduce_with_powers cs a = 0 \<Longrightarrow> set cs \<subseteq> {0}"
  by (induction a cs rule: quotient_at.induct) simp_all

lemma zero_polynomial:
  "\<lbrakk>\<forall>x \<in> S. reduce_with_powers cs x = 0; length cs \<le> card S\<rbrakk> \<Longrightarrow> set cs \<subseteq> {0}"
proof (induction "length cs" arbitrary: cs S)
  case (Suc n)
  then have "S \<noteq> {}" by auto
  then obtain a where a: "a \<in> S" by blast
  have "set (quotient_at a cs) \<subseteq> {0}"
  proof (rule Suc.hyps)
    show "\<forall>x \<in> S - {a}. reduce_with_powers (quotient_at a cs) x = 0"
      using Suc.prems(1) a quotient_at [of cs _ a] by auto
    show "length (quotient_at a cs) \<le> card (S - {a})"
      using Suc.prems(2) a by (simp add: card_Diff_singleton)
    show "n = length (quotient_at a cs)" using Suc.hyps(2) by simp
  qed
  then show ?case using Suc.prems(1) a quotient_at_zero by blast
qed simp

lemma equal_polynomials:
  assumes "\<forall>x \<in> S. reduce_with_powers cs x = reduce_with_powers ds x" "length cs = length ds" "length cs \<le> card S"
  shows "cs = ds"
proof -
  have diff: "reduce_with_powers (map2 (-) cs ds) x = reduce_with_powers cs x - reduce_with_powers ds x" for x
    using assms(2) by (induction cs ds rule: list_induct2) (simp_all add: left_diff_distrib)
  have "set (map2 (-) cs ds) \<subseteq> {0}"
    using assms by (intro zero_polynomial [of S]) (simp_all add: diff)
  with assms(2) show ?thesis by (induction cs ds rule: list_induct2) auto
qed

subsection \<open>Combined constraints\<close>

text \<open>The accumulator of one challenge is a polynomial in it, the constraints being the coefficients.\<close>

fun emit_value :: "ConstraintConsumer \<Rightarrow> emit \<Rightarrow> gf" where
  "emit_value cc (Always c) = c"
| "emit_value cc (Transition c) = c * z_last cc"
| "emit_value cc (First_row c) = c * lagrange_basis_first cc"
| "emit_value cc (Last_row c) = c * lagrange_basis_last cc"

lemma consume_value: "consume e cc = constraint (emit_value cc e) cc"
  by (cases e) (simp_all add: constraint_transition_def constraint_first_row_def constraint_last_row_def)

lemma consume_keeps [simp]:
  "emit_value (consume e cc) = emit_value cc" "alphas (consume e cc) = alphas cc"
proof -
  have "emit_value (consume e cc) e' = emit_value cc e'" for e'
    by (cases e') (simp_all add: consume_value constraint_def)
  then show "emit_value (consume e cc) = emit_value cc" ..
  show "alphas (consume e cc) = alphas cc" by (simp add: consume_value constraint_def)
qed

lemma reduce_with_powers_append [simp]:
  "reduce_with_powers (xs @ ys) x = reduce_with_powers xs x + reduce_with_powers ys x * x ^ length xs"
  by (induction xs) (simp_all add: algebra_simps)

lemma consume_all_single:
  assumes "alphas cc = [a]" "constraint_accs cc = [acc]"
  shows "constraint_accs (consume_all es cc) =
    [acc * a ^ length es + reduce_with_powers (rev (map (emit_value cc) es)) a]"
  using assms unfolding consume_all_def
proof (induction es arbitrary: cc acc)
  case (Cons e es)
  have "constraint_accs (consume e cc) = [acc * a + emit_value cc e]"
    using Cons.prems by (simp add: consume_value constraint_def mult.commute)
  with Cons.IH [of "consume e cc"] Cons.prems show ?case
    by (simp add: algebra_simps)
qed simp

text \<open>
  The consumer at row \<open>i\<close> of a trace of \<open>n\<close> rows, \<open>g\<close> generating the trace domain: \<open>z_last\<close> is
  \<open>g^i - g^(-1)\<close>, and the two Lagrange polynomials are one on their row and zero on the others.
\<close>

definition consumer_at :: "gf \<Rightarrow> nat \<Rightarrow> nat \<Rightarrow> gf \<Rightarrow> ConstraintConsumer" where
  "consumer_at g n i alpha =
     consumer_new [alpha] (g ^ i - inverse g) (if i = 0 then 1 else 0) (if Suc i = n then 1 else 0)"

lemma emit_value_at:
  assumes "\<And>k. g ^ k = 1 \<longleftrightarrow> n dvd k" "i < n"
  shows "emit_value (consumer_at g n i alpha) e = 0 \<longleftrightarrow> emit_holds n i e"
proof -
  have "g ^ n = 1" using assms(1) by simp
  then have "g \<noteq> 0" using assms(2) by (auto simp: power_0_left split: if_splits)
  then have "g ^ i = inverse g \<longleftrightarrow> g ^ Suc i = 1" by (auto simp: field_simps)
  also have "\<dots> \<longleftrightarrow> Suc i = n" using assms(1) [of "Suc i"] assms(2) by (auto dest: dvd_imp_le)
  finally show ?thesis by (cases e) (auto simp: consumer_at_def consumer_new_def)
qed

lemma accs_at:
  "constraint_accs (consume_all es (consumer_at g n i alpha)) =
     [reduce_with_powers (rev (map (emit_value (consumer_at g n i 0)) es)) alpha]"
proof -
  have "emit_value (consumer_at g n i alpha) e = emit_value (consumer_at g n i 0) e" for e
    by (cases e) (simp_all add: consumer_at_def consumer_new_def)
  then show ?thesis
    by (subst consume_all_single [where a = alpha and acc = 0])
      (simp_all add: consumer_at_def consumer_new_def cong: map_cong)
qed

text \<open>
  C0: folding the constraints with a challenge loses nothing: at row \<open>i\<close> of a trace of \<open>2^k\<close> rows, when
  every constraint asked for at that row holds the accumulator is zero for every challenge, and when
  one does not hold fewer challenges than there are constraints make it zero.
\<close>

theorem constraints_combine:
  assumes "primitive_root_of_unity k = Some r" "i < 2 ^ k"
  shows "if list_all (emit_holds (2 ^ k) i) es
    then \<forall>alpha. constraint_accs (consume_all es (consumer_at (gf_of r) (2 ^ k) i alpha)) = [0]
    else card {alpha. constraint_accs (consume_all es (consumer_at (gf_of r) (2 ^ k) i alpha)) = [0]} < length es"
proof -
  let ?v = "emit_value (consumer_at (gf_of r) (2 ^ k) i 0)"
  let ?Z = "{alpha. reduce_with_powers (rev (map ?v es)) alpha = 0}"
  have v: "?v e = 0 \<longleftrightarrow> emit_holds (2 ^ k) i e" for e
    by (rule emit_value_at [OF primitive_root_order [OF assms(1)] assms(2)])
  show ?thesis
  proof (cases "list_all (emit_holds (2 ^ k) i) es")
    case True
    then have "set (rev (map ?v es)) \<subseteq> {0}" by (auto simp: v list_all_iff)
    then have "reduce_with_powers (rev (map ?v es)) alpha = 0" for alpha by (rule reduce_with_powers_zero)
    with True show ?thesis by (simp add: accs_at)
  next
    case False
    then have "\<not> set (rev (map ?v es)) \<subseteq> {0}" by (auto simp: v list_all_iff)
    then have "\<not> length (rev (map ?v es)) \<le> card ?Z"
      using zero_polynomial [of ?Z "rev (map ?v es)"] by (intro notI) (simp only: mem_Collect_eq Ball_def simp_thms)
    then have "card ?Z < length es" by simp
    with False show ?thesis by (simp only: accs_at if_False list.inject simp_thms)
  qed
qed

subsection \<open>Lookups\<close>

text \<open>\<open>eval_lookups\<close> of \<open>circuits/src/stark/lookup.rs\<close>, on a permuted input and a permuted table column.\<close>

definition eval_lookups :: "row \<Rightarrow> row \<Rightarrow> nat \<Rightarrow> nat \<Rightarrow> emit list" where
  "eval_lookups local_values next_values col_permuted_input col_permuted_table =
     (let local_perm_input = local_values col_permuted_input;
          next_perm_table = next_values col_permuted_table;
          next_perm_input = next_values col_permuted_input;
          diff_input_prev = next_perm_input - local_perm_input;
          diff_input_table = next_perm_input - next_perm_table
      in [Always (diff_input_prev * diff_input_table), Last_row diff_input_table])"

definition lookup_columns :: "gf list \<Rightarrow> gf list \<Rightarrow> bool" where
  "lookup_columns inp tab \<longleftrightarrow> (\<forall>k < length inp. inp ! k = tab ! k \<or> 0 < k \<and> inp ! k = inp ! (k - 1))"

lemma lookup_columnsD:
  assumes "lookup_columns inp tab"
  shows "0 < length inp \<Longrightarrow> inp ! 0 = tab ! 0"
    "Suc k < length inp \<Longrightarrow> inp ! Suc k = tab ! Suc k \<or> inp ! Suc k = inp ! k"
proof -
  have L: "inp ! k = tab ! k \<or> 0 < k \<and> inp ! k = inp ! (k - 1)" if "k < length inp" for k
    using assms that unfolding lookup_columns_def by blast
  show "inp ! 0 = tab ! 0" if "0 < length inp" using L [OF that] by simp
  show "inp ! Suc k = tab ! Suc k \<or> inp ! Suc k = inp ! k" if "Suc k < length inp" using L [OF that] by simp
qed

lemma lookup_columns_subset:
  assumes "lookup_columns inp tab" "length inp \<le> length tab"
  shows "set inp \<subseteq> set tab"
proof -
  have "inp ! k \<in> set tab" if "k < length inp" for k
    using that
  proof (induction k)
    case 0
    then have "0 < length tab" using assms(2) by linarith
    then have "tab ! 0 \<in> set tab" by (rule nth_mem)
    then show ?case using lookup_columnsD(1) [OF assms(1)] 0 by (simp only:)
  next
    case (Suc k)
    then have "tab ! Suc k \<in> set tab" using assms(2) by (intro nth_mem) linarith
    moreover have "inp ! k \<in> set tab" using Suc by simp
    ultimately show ?case using lookup_columnsD(2) [OF assms(1) Suc.prems] by (auto simp only:)
  qed
  then show ?thesis by (auto simp: in_set_conv_nth)
qed

lemma eval_lookups_hold:
  assumes "i < n"
  shows "list_all (emit_holds n i) (eval_lookups loc nxt ci ct) \<longleftrightarrow>
    nxt ci = nxt ct \<or> Suc i \<noteq> n \<and> nxt ci = loc ci"
  by (auto simp: eval_lookups_def Let_def)

lemma lookup_columns_iff:
  assumes "length (t ! ci) = trace_length t"
  shows "(\<forall>i < trace_length t. list_all (emit_holds (trace_length t) i)
      (eval_lookups (trace_row t i) (trace_row t (Suc i mod trace_length t)) ci ct)) \<longleftrightarrow> lookup_columns (t ! ci) (t ! ct)"
    (is "?E \<longleftrightarrow> ?L")
proof -
  let ?n = "trace_length t"
  let ?c = "t ! ci" and ?d = "t ! ct"
  let ?R = "\<lambda>i. if Suc i = ?n then ?c ! 0 = ?d ! 0 else ?c ! Suc i = ?d ! Suc i \<or> ?c ! Suc i = ?c ! i"
  have E: "list_all (emit_holds ?n i) (eval_lookups (trace_row t i) (trace_row t (Suc i mod ?n)) ci ct) \<longleftrightarrow> ?R i"
    if "i < ?n" for i
  proof (cases "Suc i = ?n")
    case True
    then show ?thesis using that by (simp add: eval_lookups_hold trace_row_def)
  next
    case False
    then have "Suc i mod ?n = Suc i" using that by simp
    then show ?thesis using that False by (simp only: eval_lookups_hold trace_row_def if_False) simp
  qed
  show ?thesis
  proof
    assume e: ?E
    have A: "?R i" if "i < ?n" for i using e [rule_format, OF that] unfolding E [OF that] .
    have "?c ! k = ?d ! k \<or> 0 < k \<and> ?c ! k = ?c ! (k - 1)" if "k < ?n" for k
    proof (cases k)
      case 0
      then show ?thesis using A [of "?n - 1"] that by simp
    next
      case (Suc i)
      then show ?thesis using A [of i] that by simp
    qed
    then show ?L using assms by (simp add: lookup_columns_def)
  next
    assume L: ?L
    show ?E
    proof (intro allI impI, unfold E)
      fix i assume "i < ?n"
      then show "?R i"
        using lookup_columnsD(1) [OF L] lookup_columnsD(2) [OF L, of i] assms by (cases "Suc i = ?n") simp_all
    qed
  qed
qed

lemma lookup_included:
  assumes "rectangular t" "ci < length t" "cpi < length t" "ct < length t" "cpt < length t"
    "\<And>i. i < trace_length t \<Longrightarrow> list_all (emit_holds (trace_length t) i)
      (eval_lookups (trace_row t i) (trace_row t (Suc i mod trace_length t)) cpi cpt)"
    "permuted_columns t (singletons ci cpi)" "permuted_columns t (singletons ct cpt)"
  shows "set (t ! ci) \<subseteq> set (t ! ct)"
proof -
  have len: "length (t ! c) = trace_length t" if "c < length t" for c
    using assms(1) that by (simp add: rectangular_def list_all_length)
  have "lookup_columns (t ! cpi) (t ! cpt)"
    using assms(6) len [OF assms(3)] by (simp only: lookup_columns_iff [symmetric]) blast
  then have "set (t ! cpi) \<subseteq> set (t ! cpt)" using len assms(3,5) by (intro lookup_columns_subset) simp_all
  moreover have "mset (t ! ci) = mset (t ! cpi)" "mset (t ! ct) = mset (t ! cpt)"
    using assms(7,8) permuted_columns_singletons [OF assms(1)] assms(2-5) by simp_all
  ultimately show ?thesis by (metis set_mset_mset)
qed

text \<open>
  C0: a lookup is sound: when the permuted columns are permutations of the input and of the table
  and the lookup constraints hold on every row, every value of the input column is in the table column.
\<close>

theorem lookup_sound:
  assumes "rectangular t" "ci < length t" "cpi < length t" "ct < length t" "cpt < length t"
    "satisfies (\<lambda>local_values next_values. eval_lookups local_values next_values cpi cpt) t"
    "permutations_hold [singletons ci cpi, singletons ct cpt] t"
  shows "set (t ! ci) \<subseteq> set (t ! ct)"
  using assms(6,7) by (intro lookup_included [OF assms(1-5)]) (simp_all add: satisfies_all permutations_hold_def)

subsection \<open>Building the permuted columns\<close>

text \<open>
  \<open>permuted_cols\<close>. Values are sorted by their canonical representative. The loop walks the two sorted
  columns; table values no input asks for are kept on a stack, from which the repeated inputs are
  served, and the positions left without a value are filled at the end.
\<close>

function permute_loop ::
  "gf list \<Rightarrow> gf list \<Rightarrow> nat \<Rightarrow> nat \<Rightarrow> nat \<Rightarrow> nat list \<Rightarrow> gf list \<Rightarrow> gf list \<Rightarrow> nat \<times> nat \<times> nat list \<times> gf list \<times> gf list"
where
  "permute_loop sorted_inputs sorted_table n i j unused_table_inds unused_table_vals permuted_table =
     (if j < n \<and> i < n
      then (let input_val = gf_int (sorted_inputs ! i);
                table_val = gf_int (sorted_table ! j)
            in if input_val > table_val
               then permute_loop sorted_inputs sorted_table n i (Suc j)
                      unused_table_inds (unused_table_vals @ [sorted_table ! j]) permuted_table
               else if input_val < table_val
               then (if unused_table_vals \<noteq> []
                     then permute_loop sorted_inputs sorted_table n (Suc i) j
                            unused_table_inds (butlast unused_table_vals) (permuted_table[i := last unused_table_vals])
                     else permute_loop sorted_inputs sorted_table n (Suc i) j
                            (unused_table_inds @ [i]) unused_table_vals permuted_table)
               else permute_loop sorted_inputs sorted_table n (Suc i) (Suc j)
                      unused_table_inds unused_table_vals (permuted_table[i := sorted_table ! j]))
      else (i, j, unused_table_inds, unused_table_vals, permuted_table))"
  by pat_completeness auto
termination
  by (relation "measure (\<lambda>(xs, ts, n, i, j, inds, vals, P). (n - i) + (n - j))") auto

declare permute_loop.simps [simp del]

definition fill :: "nat list \<Rightarrow> gf list \<Rightarrow> gf list \<Rightarrow> gf list" where
  "fill inds vals P = fold (\<lambda>(ind, val) P. P[ind := val]) (zip inds vals) P"

text \<open>None is the panic: a table shorter than the inputs is indexed out of range; \<open>zip_eq\<close> on lists of different lengths.\<close>

definition permuted_cols :: "gf list \<Rightarrow> gf list \<Rightarrow> (gf list \<times> gf list) option" where
  "permuted_cols inputs table =
     (let n = length inputs;
          sorted_inputs = sort_key gf_int inputs;
          sorted_table = sort_key gf_int table
      in if length sorted_table < n then None
         else let (i, j, inds, vals, permuted_table) =
                    permute_loop sorted_inputs sorted_table n 0 0 [] [] (replicate n 0);
                  unused_table_vals = vals @ map (nth sorted_table) [j..<n];
                  unused_table_inds = inds @ [i..<n]
              in if length unused_table_inds = length unused_table_vals
                 then Some (sorted_inputs, fill unused_table_inds unused_table_vals permuted_table)
                 else None)"

text \<open>What is assigned so far, with the stack, is the part of the table that was walked.\<close>

definition assigned :: "gf list \<Rightarrow> nat \<Rightarrow> nat list \<Rightarrow> gf multiset" where
  "assigned P i inds = image_mset (nth P) (mset_set ({..<i} - set inds))"

definition permute_inv :: "gf list \<Rightarrow> nat \<Rightarrow> nat \<Rightarrow> nat \<Rightarrow> nat list \<Rightarrow> gf list \<Rightarrow> gf list \<Rightarrow> bool" where
  "permute_inv ts n i j inds vals P \<longleftrightarrow>
     i \<le> n \<and> j \<le> n \<and> length P = n \<and> distinct inds \<and> set inds \<subseteq> {..<i} \<and>
     assigned P i inds + mset vals = mset (take j ts)"

lemma assigned_update:
  assumes "i < length P" "set inds \<subseteq> {..<i}"
  shows "assigned (P[i := v]) (Suc i) inds = add_mset v (assigned P i inds)"
proof -
  have "{..<Suc i} - set inds = insert i ({..<i} - set inds)" using assms(2) by auto
  moreover have "image_mset (nth (P[i := v])) (mset_set ({..<i} - set inds)) =
      image_mset (nth P) (mset_set ({..<i} - set inds))"
    by (rule image_mset_cong) auto
  ultimately show ?thesis using assms(1) by (simp add: assigned_def)
qed

lemma assigned_skip:
  assumes "set inds \<subseteq> {..<i}"
  shows "assigned P (Suc i) (inds @ [i]) = assigned P i inds"
proof -
  have "{..<Suc i} - set (inds @ [i]) = {..<i} - set inds" using assms by auto
  then show ?thesis by (simp only: assigned_def)
qed

lemma permute_inv_steps:
  assumes "permute_inv ts n i j inds vals P" "n \<le> length ts"
  shows "j < n \<Longrightarrow> permute_inv ts n i (Suc j) inds (vals @ [ts ! j]) P"
    "i < n \<Longrightarrow> vals \<noteq> [] \<Longrightarrow> permute_inv ts n (Suc i) j inds (butlast vals) (P[i := last vals])"
    "i < n \<Longrightarrow> permute_inv ts n (Suc i) j (inds @ [i]) vals P"
    "i < n \<Longrightarrow> j < n \<Longrightarrow> permute_inv ts n (Suc i) (Suc j) inds vals (P[i := ts ! j])"
proof -
  have sub: "set inds \<subseteq> {..<i}" and m: "assigned P i inds + mset vals = mset (take j ts)" and l: "length P = n"
    using assms(1) by (simp_all add: permute_inv_def)
  have grow: "mset (take (Suc j) ts) = add_mset (ts ! j) (mset (take j ts))" if "j < n"
    using that assms(2) by (simp add: take_Suc_conv_app_nth)
  show "permute_inv ts n i (Suc j) inds (vals @ [ts ! j]) P" if "j < n"
    using assms(1) that grow m by (simp add: permute_inv_def)
  show "permute_inv ts n (Suc i) j inds (butlast vals) (P[i := last vals])" if "i < n" "vals \<noteq> []"
  proof -
    have "mset vals = add_mset (last vals) (mset (butlast vals))"
      using that(2) by (metis append_butlast_last_id mset_append mset_single_iff_right add_mset_add_single mset.simps)
    then show ?thesis
      using assms(1) that sub m l by (auto simp: permute_inv_def assigned_update)
  qed
  show "permute_inv ts n (Suc i) j (inds @ [i]) vals P" if "i < n"
    using assms(1) that sub m by (auto simp: permute_inv_def assigned_skip)
  show "permute_inv ts n (Suc i) (Suc j) inds vals (P[i := ts ! j])" if "i < n" "j < n"
    using assms(1) that sub m l grow by (auto simp: permute_inv_def assigned_update)
qed

text \<open>Every input walked so far repeats its predecessor or faces its own value.\<close>

definition served :: "gf list \<Rightarrow> gf list \<Rightarrow> nat \<Rightarrow> nat \<Rightarrow> nat list \<Rightarrow> gf list \<Rightarrow> bool" where
  "served xs ts i j inds P \<longleftrightarrow>
     (\<forall>y \<in> set (take j ts). \<forall>k. i \<le> k \<and> k < length xs \<and> xs ! k = y \<longrightarrow> 0 < i \<and> xs ! (i - 1) = y) \<and>
     (\<forall>k < i. 0 < k \<and> xs ! k = xs ! (k - 1) \<or> k \<notin> set inds \<and> P ! k = xs ! k)"

lemma sorted_sandwich:
  assumes "sorted (map gf_int xs)" "k \<le> l" "l \<le> m" "m < length xs" "xs ! k = xs ! m"
  shows "xs ! l = xs ! k"
proof -
  have "gf_int (xs ! k) \<le> gf_int (xs ! l)" "gf_int (xs ! l) \<le> gf_int (xs ! m)"
    using assms(1-4) sorted_nth_mono [OF assms(1)] by auto
  then show ?thesis using assms(5) by (simp add: gf_int_inject [symmetric])
qed

lemma served_next:
  assumes "served xs ts i j inds P" "sorted (map gf_int xs)" "y \<in> set (take j ts)" "i < k" "k < length xs" "xs ! k = y"
  shows "xs ! i = y"
proof -
  have "0 < i \<and> xs ! (i - 1) = y"
    using assms(1,3-6) unfolding served_def by (metis less_imp_le)
  then show ?thesis using sorted_sandwich [OF assms(2), of "i - 1" i k] assms(4-6) by simp
qed

lemma served_below:
  assumes "served xs ts i j inds P" "sorted (map gf_int ts)" "set xs \<subseteq> set ts"
    "i < length xs" "j < length ts" "gf_int (xs ! i) < gf_int (ts ! j)"
  shows "0 < i \<and> xs ! (i - 1) = xs ! i" "xs ! i \<in> set (take j ts)"
proof -
  obtain m where m: "m < length ts" "ts ! m = xs ! i"
    using assms(3,4) by (metis in_set_conv_nth nth_mem subsetD)
  have "m < j"
  proof (rule ccontr)
    assume "\<not> m < j"
    then have "gf_int (ts ! j) \<le> gf_int (ts ! m)" using sorted_nth_mono [OF assms(2), of j m] m(1) by simp
    then show False using m(2) assms(6) by simp
  qed
  then show t: "xs ! i \<in> set (take j ts)" using m assms(5) by (auto simp: in_set_conv_nth)
  then show "0 < i \<and> xs ! (i - 1) = xs ! i"
    using assms(1,4) unfolding served_def by blast
qed

lemma served_greater:
  assumes "served xs ts i j inds P" "sorted (map gf_int xs)" "j < length ts" "gf_int (ts ! j) < gf_int (xs ! i)"
  shows "served xs ts i (Suc j) inds P"
proof -
  have "xs ! k \<noteq> ts ! j" if "i \<le> k" "k < length xs" for k
    using sorted_nth_mono [OF assms(2), of i k] that assms(4) by auto
  then show ?thesis using assms(1,3) by (auto simp: served_def take_Suc_conv_app_nth)
qed

lemma served_skip:
  assumes "served xs ts i j inds P" "sorted (map gf_int xs)" "0 < i \<and> xs ! (i - 1) = xs ! i"
    "\<And>k. k < i \<Longrightarrow> P' ! k = P ! k" "set inds' - {i} \<subseteq> set inds"
  shows "served xs ts (Suc i) j inds' P'"
  unfolding served_def
proof (intro conjI ballI allI impI)
  fix y k assume "y \<in> set (take j ts)" "Suc i \<le> k \<and> k < length xs \<and> xs ! k = y"
  then show "xs ! (Suc i - 1) = y" using served_next [OF assms(1,2), of y k] by simp
next
  fix k assume "k < Suc i"
  then show "0 < k \<and> xs ! k = xs ! (k - 1) \<or> k \<notin> set inds' \<and> P' ! k = xs ! k"
    using assms(1,3-5) by (cases "k = i") (auto simp: served_def less_Suc_eq)
qed simp

lemma served_equal:
  assumes "served xs ts i j inds P" "sorted (map gf_int xs)" "j < length ts" "xs ! i = ts ! j"
    "i < length P" "set inds \<subseteq> {..<i}"
  shows "served xs ts (Suc i) (Suc j) inds (P[i := ts ! j])"
  unfolding served_def
proof (intro conjI ballI allI impI)
  fix y k assume "y \<in> set (take (Suc j) ts)" "Suc i \<le> k \<and> k < length xs \<and> xs ! k = y"
  then show "xs ! (Suc i - 1) = y"
    using served_next [OF assms(1,2), of y k] assms(3,4) by (auto simp: take_Suc_conv_app_nth)
next
  fix k assume "k < Suc i"
  then show "0 < k \<and> xs ! k = xs ! (k - 1) \<or> k \<notin> set inds \<and> P[i := ts ! j] ! k = xs ! k"
    using assms(1,4-6) by (cases "k = i") (auto simp: served_def less_Suc_eq)
qed simp

definition permute_good :: "gf list \<Rightarrow> gf list \<Rightarrow> nat \<Rightarrow> nat \<Rightarrow> nat \<Rightarrow> nat list \<Rightarrow> gf list \<Rightarrow> gf list \<Rightarrow> bool" where
  "permute_good xs ts n i j inds vals P \<longleftrightarrow>
     permute_inv ts n i j inds vals P \<and> length xs = n \<and> n \<le> length ts \<and>
     sorted (map gf_int xs) \<and> sorted (map gf_int ts) \<and>
     (set xs \<subseteq> set (take n ts) \<longrightarrow> served xs ts i j inds P)"

lemma permute_good_steps:
  assumes "permute_good xs ts n i j inds vals P" "i < n" "j < n"
  shows "gf_int (ts ! j) < gf_int (xs ! i) \<Longrightarrow> permute_good xs ts n i (Suc j) inds (vals @ [ts ! j]) P"
    "gf_int (xs ! i) < gf_int (ts ! j) \<Longrightarrow> vals \<noteq> [] \<Longrightarrow>
      permute_good xs ts n (Suc i) j inds (butlast vals) (P[i := last vals])"
    "gf_int (xs ! i) < gf_int (ts ! j) \<Longrightarrow> permute_good xs ts n (Suc i) j (inds @ [i]) vals P"
    "xs ! i = ts ! j \<Longrightarrow> permute_good xs ts n (Suc i) (Suc j) inds vals (P[i := ts ! j])"
proof -
  let ?all = "set xs \<subseteq> set (take n ts)"
  have g: "permute_inv ts n i j inds vals P" "length xs = n" "n \<le> length ts" "sorted (map gf_int xs)"
      "sorted (map gf_int ts)" and sv: "?all \<Longrightarrow> served xs ts i j inds P"
    using assms(1) by (simp_all add: permute_good_def)
  have P: "length P = n" and sub: "set inds \<subseteq> {..<i}" using g(1) by (simp_all add: permute_inv_def)
  note steps = permute_inv_steps [OF g(1,3)]
  have ts: "set (take n ts) \<subseteq> set ts" by (rule set_take_subset)
  have rep: "0 < i \<and> xs ! (i - 1) = xs ! i" if "gf_int (xs ! i) < gf_int (ts ! j)" ?all
    using served_below(1) [OF sv g(5), of] that ts g(2,3) assms(2,3) by auto
  show "permute_good xs ts n i (Suc j) inds (vals @ [ts ! j]) P" if "gf_int (ts ! j) < gf_int (xs ! i)"
    using steps(1) assms(3) g sv served_greater [OF sv g(4) _ that] by (auto simp: permute_good_def)
  show "permute_good xs ts n (Suc i) j inds (butlast vals) (P[i := last vals])"
    if "gf_int (xs ! i) < gf_int (ts ! j)" "vals \<noteq> []"
    using steps(2) that(2) assms(2) g served_skip [OF sv g(4) rep [OF that(1)], of "P[i := last vals]" inds]
    by (auto simp: permute_good_def)
  show "permute_good xs ts n (Suc i) j (inds @ [i]) vals P" if "gf_int (xs ! i) < gf_int (ts ! j)"
    using steps(3) assms(2) g served_skip [OF sv g(4) rep [OF that], of P "inds @ [i]"]
    by (auto simp: permute_good_def)
  show "permute_good xs ts n (Suc i) (Suc j) inds vals (P[i := ts ! j])" if "xs ! i = ts ! j"
    using steps(4) assms(2,3) g P sub served_equal [OF sv g(4) _ that]
    by (auto simp: permute_good_def)
qed

lemma permute_loop_good:
  assumes "permute_good xs ts n i j inds vals P"
    "permute_loop xs ts n i j inds vals P = (i', j', inds', vals', P')"
  shows "permute_good xs ts n i' j' inds' vals' P' \<and> (i' = n \<or> j' = n)"
  using assms
proof (induction xs ts n i j inds vals P rule: permute_loop.induct)
  case (1 xs ts n i j inds vals P)
  note steps = permute_good_steps [OF "1.prems"(1)]
  show ?case
  proof (cases "j < n \<and> i < n")
    case False
    then show ?thesis
      using "1.prems" [unfolded permute_loop.simps [of xs ts n i j inds vals P] if_not_P [OF False]]
      by (auto simp: permute_good_def permute_inv_def)
  next
    case True
    then have ij: "i < n" "j < n" by simp_all
    note loop = "1.prems"(2) [unfolded permute_loop.simps [of xs ts n i j inds vals P] Let_def if_P [OF True]]
    note IH = "1.IH" [OF True refl refl]
    consider (gr) "gf_int (ts ! j) < gf_int (xs ! i)" | (lp) "gf_int (xs ! i) < gf_int (ts ! j)" "vals \<noteq> []"
      | (ls) "gf_int (xs ! i) < gf_int (ts ! j)" "\<not> vals \<noteq> []" | (eq) "gf_int (xs ! i) = gf_int (ts ! j)"
      by fastforce
    then show ?thesis
    proof cases
      case gr
      show ?thesis by (rule IH(1) [OF gr steps(1) [OF ij gr] loop [unfolded if_P [OF gr]]])
    next
      case lp
      then have n: "\<not> gf_int (ts ! j) < gf_int (xs ! i)" by simp
      show ?thesis
        by (rule IH(2) [OF n lp steps(2) [OF ij lp] loop [unfolded if_not_P [OF n] if_P [OF lp(1)] if_P [OF lp(2)]]])
    next
      case ls
      then have n: "\<not> gf_int (ts ! j) < gf_int (xs ! i)" by simp
      show ?thesis
        by (rule IH(3) [OF n ls steps(3) [OF ij ls(1)] loop [unfolded if_not_P [OF n] if_P [OF ls(1)] if_not_P [OF ls(2)]]])
    next
      case eq
      then have n: "\<not> gf_int (ts ! j) < gf_int (xs ! i)" "\<not> gf_int (xs ! i) < gf_int (ts ! j)" by simp_all
      have "xs ! i = ts ! j" using eq by (simp only: gf_int_inject)
      show ?thesis
        by (rule IH(4) [OF n steps(4) [OF ij \<open>xs ! i = ts ! j\<close>] loop [unfolded if_not_P [OF n(1)] if_not_P [OF n(2)]]])
    qed
  qed
qed

lemma fill_keeps [simp]:
  "length (fill inds vals P) = length P" "k \<notin> set inds \<Longrightarrow> fill inds vals P ! k = P ! k"
  unfolding fill_def by (induction inds vals arbitrary: P rule: list_induct2') auto

lemma mset_assigned: "assigned P (length P) [] = mset P"
proof -
  have "mset P = mset (map (nth P) [0..<length P])" by (simp only: map_nth)
  also have "\<dots> = image_mset (nth P) (mset_set {0..<length P})" by (simp only: mset_map mset_upt)
  finally show ?thesis by (simp add: assigned_def lessThan_atLeast0)
qed

lemma mset_fill:
  assumes "length inds = length vals" "distinct inds" "set inds \<subseteq> {..<length P}"
  shows "mset (fill inds vals P) = assigned P (length P) inds + mset vals"
  using assms
proof (induction inds vals arbitrary: P rule: list_induct2)
  case Nil
  then show ?case by (simp add: fill_def mset_assigned)
next
  case (Cons ind inds val vals)
  let ?D = "{..<length P} - set (ind # inds)"
  have D: "{..<length P} - set inds = insert ind ?D" using Cons.prems by auto
  have "image_mset (nth (P[ind := val])) (mset_set ?D) = image_mset (nth P) (mset_set ?D)"
    by (rule image_mset_cong) auto
  moreover have "mset_set (insert ind ?D) = add_mset ind (mset_set ?D)" by (rule mset_set.insert) auto
  moreover have "P[ind := val] ! ind = val" using Cons.prems by simp
  ultimately have "assigned (P[ind := val]) (length P) inds = add_mset val (assigned P (length P) (ind # inds))"
    by (simp only: assigned_def D image_mset_add_mset)
  moreover have "mset (fill inds vals (P[ind := val])) = assigned (P[ind := val]) (length (P[ind := val])) inds + mset vals"
    using Cons.prems by (intro Cons.IH) simp_all
  ultimately show ?case by (simp add: fill_def)
qed

lemma permute_finish:
  assumes "permute_good xs ts n i j inds vals P" "i = n \<or> j = n"
  defines "inds' \<equiv> inds @ [i..<n]" and "vals' \<equiv> vals @ map (nth ts) [j..<n]"
  shows "length inds' = length vals'" "mset (fill inds' vals' P) = mset (take n ts)"
    "set xs \<subseteq> set (take n ts) \<Longrightarrow> lookup_columns xs (fill inds' vals' P)"
proof -
  have g: "permute_inv ts n i j inds vals P" "length xs = n" "n \<le> length ts" "sorted (map gf_int xs)"
    and sv: "set xs \<subseteq> set (take n ts) \<Longrightarrow> served xs ts i j inds P"
    using assms(1) by (simp_all add: permute_good_def)
  have inv: "i \<le> n" "j \<le> n" "length P = n" "distinct inds" "set inds \<subseteq> {..<i}"
      "assigned P i inds + mset vals = mset (take j ts)"
    using g(1) by (simp_all add: permute_inv_def)
  have "{..<n} - set inds' = {..<i} - set inds" using inv(1) by (auto simp: inds'_def)
  then have "assigned P n inds' = assigned P i inds" by (simp only: assigned_def)
  moreover have tk: "take m ts = map (nth ts) [0..<m]" if "m \<le> length ts" for m
    using that by (intro nth_equalityI) simp_all
  have "take n ts = take j ts @ map (nth ts) [j..<n]"
    using inv(2) g(3) upt_add_eq_append [of 0 j "n - j"] by (simp add: tk flip: map_append)
  ultimately have m: "assigned P n inds' + mset vals' = mset (take n ts)"
    using inv(6) by (simp add: vals'_def flip: add.assoc)
  have d: "distinct inds'" "set inds' \<subseteq> {..<n}" using inv(1,4,5) by (auto simp: inds'_def)
  have "size (assigned P n inds') = n - length inds'"
    using d by (simp add: assigned_def card_Diff_subset distinct_card)
  moreover have "length inds' \<le> n" using card_mono [OF _ d(2)] d(1) by (simp add: distinct_card)
  moreover have "size (assigned P n inds') + length vals' = n"
    using arg_cong [OF m, of size] g(3) by simp
  ultimately show len: "length inds' = length vals'" by linarith
  show "mset (fill inds' vals' P) = mset (take n ts)"
    using mset_fill [OF len d(1)] d(2) inv(3) m by simp
  assume all: "set xs \<subseteq> set (take n ts)"
  note sv = sv [OF all, unfolded served_def]
  have "xs ! k = fill inds' vals' P ! k \<or> 0 < k \<and> xs ! k = xs ! (k - 1)" if "k < n" for k
  proof (cases "k < i")
    case True
    then have "k \<in> set inds' \<longleftrightarrow> k \<in> set inds" by (auto simp: inds'_def)
    with sv True show ?thesis by fastforce
  next
    case False
    then have "j = n" using that assms(2) by simp
    moreover have "xs ! k \<in> set (take n ts)" using all that g(2) nth_mem [of k xs] by blast
    ultimately have "0 < i \<and> xs ! (i - 1) = xs ! k"
      using conjunct1 [OF sv, rule_format, of "xs ! k" k] False that g(2) by simp
    then show ?thesis
      using sorted_sandwich [OF g(4), of "i - 1" "k - 1" k] False that g(2) by simp
  qed
  then show "lookup_columns xs (fill inds' vals' P)" using g(2) by (simp add: lookup_columns_def)
qed

lemma permuted_cols_spec:
  "case permuted_cols inputs table of
     None \<Rightarrow> length table < length inputs
   | Some (permuted_inputs, permuted_table) \<Rightarrow>
       let used = take (length inputs) (sort_key gf_int table)
       in length inputs \<le> length table \<and> mset permuted_inputs = mset inputs \<and> mset permuted_table = mset used \<and>
          (lookup_columns permuted_inputs permuted_table \<longleftrightarrow> set inputs \<subseteq> set used)"
proof (cases "length table < length inputs")
  case False
  let ?xs = "sort_key gf_int inputs" and ?ts = "sort_key gf_int table" and ?n = "length inputs"
  obtain i j inds vals P where loop: "permute_loop ?xs ?ts ?n 0 0 [] [] (replicate ?n 0) = (i, j, inds, vals, P)"
    by (metis prod_cases5)
  have "permute_good ?xs ?ts ?n 0 0 [] [] (replicate ?n 0)"
    using False by (simp add: permute_good_def permute_inv_def assigned_def served_def)
  from permute_loop_good [OF this loop]
  have end': "permute_good ?xs ?ts ?n i j inds vals P" "i = ?n \<or> j = ?n" by simp_all
  note fin = permute_finish [OF this]
  let ?F = "fill (inds @ [i..<?n]) (vals @ map (nth ?ts) [j..<?n]) P"
  have "permuted_cols inputs table = Some (?xs, ?F)"
    using False fin(1) by (simp add: permuted_cols_def loop Let_def del: length_append)
  moreover have "lookup_columns ?xs ?F \<longleftrightarrow> set inputs \<subseteq> set (take ?n ?ts)"
  proof
    assume "lookup_columns ?xs ?F"
    moreover have "length ?F = ?n" using arg_cong [OF fin(2), of size] False by simp
    ultimately have "set ?xs \<subseteq> set ?F" by (intro lookup_columns_subset) simp_all
    then show "set inputs \<subseteq> set (take ?n ?ts)" using mset_eq_setD [OF fin(2)] by simp
  qed (use fin(3) in simp)
  ultimately show ?thesis using fin(2) False by (simp add: Let_def)
qed (simp add: permuted_cols_def Let_def)

text \<open>
  C0: \<open>permuted_cols\<close> panics exactly when the table is shorter than the inputs; otherwise the columns it
  returns are a permutation of the inputs and of the (smallest, as many as there are inputs) table values,
  and they satisfy the lookup constraints exactly when every input is one of these.
\<close>

theorem permuted_cols_correct:
  "case permuted_cols inputs table of
     None \<Rightarrow> length table < length inputs
   | Some (permuted_inputs, permuted_table) \<Rightarrow>
       let used = take (length inputs) (sort_key gf_int table)
       in length inputs \<le> length table \<and> mset permuted_inputs = mset inputs \<and> mset permuted_table = mset used \<and>
          (lookup_columns permuted_inputs permuted_table \<longleftrightarrow> set inputs \<subseteq> set used)"
  by (rule permuted_cols_spec)

end
