(* ===== verification/CrossTable.thy ===== *)
theory CrossTable
  imports Stark
begin

text \<open>
  The grand products of the circuits: the permutation argument inside a table
  (\<open>circuits/src/stark/permutation.rs\<close>) and the lookups between tables
  (\<open>circuits/src/stark/cross_table_lookup.rs\<close>). The challenges are arguments: that the verifier draws them
  from the transcript is not part of the model, and the theorems quantify over them.
\<close>

subsection \<open>Challenges\<close>

record GrandProductChallenge =
  beta :: gf
  gamma :: gf

definition combine :: "GrandProductChallenge \<Rightarrow> gf list \<Rightarrow> gf" where
  "combine ch terms = reduce_with_powers terms (beta ch) + gamma ch"

text \<open>The rows two multisets differ in are separated by some challenge.\<close>

fun prod_poly :: "gf list \<Rightarrow> gf list" where
  "prod_poly [] = [1]"
| "prod_poly (x # xs) = map2 (+) (map ((*) x) (prod_poly xs) @ [0]) (0 # prod_poly xs)"

lemma length_prod_poly [simp]: "length (prod_poly xs) = Suc (length xs)"
  by (induction xs) simp_all

lemma reduce_with_powers_add:
  "length cs = length ds \<Longrightarrow>
   reduce_with_powers (map2 (+) cs ds) x = reduce_with_powers cs x + reduce_with_powers ds x"
  by (induction cs ds rule: list_induct2) (simp_all add: algebra_simps)

lemma reduce_with_powers_scale: "reduce_with_powers (map ((*) c) cs) x = c * reduce_with_powers cs x"
  by (induction cs) (simp_all add: algebra_simps)

lemma reduce_prod_poly: "reduce_with_powers (prod_poly xs) g = prod_list (map (\<lambda>x. x + g) xs)"
proof (induction xs)
  case (Cons x xs)
  have "reduce_with_powers (prod_poly (x # xs)) g =
      reduce_with_powers (map ((*) x) (prod_poly xs) @ [0]) g + reduce_with_powers (0 # prod_poly xs) g"
    unfolding prod_poly.simps by (rule reduce_with_powers_add) simp
  then show ?case using Cons by (simp add: reduce_with_powers_scale algebra_simps)
qed simp

lemma reduce_replicate_0 [simp]: "reduce_with_powers (replicate k 0) x = 0"
  by (induction k) simp_all

lemma products_agree:
  fixes xs ys :: "gf list"
  assumes "\<And>g. g \<in> S \<Longrightarrow> prod_list (map (\<lambda>x. x + g) xs) = prod_list (map (\<lambda>x. x + g) ys)"
    "length xs < card S" "length ys < card S"
  shows "prod_list (map (\<lambda>x. x + g) xs) = prod_list (map (\<lambda>x. x + g) ys)"
proof -
  let ?N = "Suc (max (length xs) (length ys))"
  let ?P = "\<lambda>zs. prod_poly zs @ replicate (?N - Suc (length zs)) 0"
  have v: "reduce_with_powers (?P zs) g = prod_list (map (\<lambda>x. x + g) zs)" for zs g
    by (simp add: reduce_prod_poly)
  have "?P xs = ?P ys"
    using assms by (intro equal_polynomials [of S]) (simp_all only: v, simp_all)
  then show ?thesis using v by metis
qed

lemma products_mset:
  assumes "\<And>g. prod_list (map (\<lambda>x. x + g) xs) = prod_list (map (\<lambda>x. x + g) ys)"
    "length xs < nat gf_p - 1" "length ys < nat gf_p - 1"
  shows "mset xs = mset (ys :: gf list)"
  using assms
proof (induction xs arbitrary: ys)
  case Nil
  show ?case
  proof (cases ys)
    case (Cons y ys')
    then show ?thesis using Nil.prems(1) [of "- y"] by simp
  qed simp
next
  case (Cons x xs)
  let ?pr = "\<lambda>zs g. prod_list (map (\<lambda>z. z + g) zs) :: gf" and ?r = "remove1 x ys"
  have "?pr ys (- x) = 0" using Cons.prems(1) [of "- x"] by simp
  then have "x \<in> set ys" unfolding prod_list_zero_iff by auto
  then have ys: "mset ys = mset (x # ?r)" by simp
  have split: "?pr ys g = (x + g) * ?pr ?r g" for g
  proof -
    have "prod_mset (mset (map (\<lambda>y. y + g) ys)) = prod_mset (mset (map (\<lambda>y. y + g) (x # ?r)))"
      using ys by (simp only: mset_map)
    then show ?thesis by (simp only: prod_mset_prod_list list.map prod_list.Cons)
  qed
  have "length ?r \<le> length ys" by (simp add: length_remove1)
  then have len: "length xs < nat gf_p - 1" "length ?r < nat gf_p - 1" using Cons.prems(2,3) by simp_all
  have card: "card (UNIV - {- x}) = nat gf_p - 1" by (simp only: card_Diff_singleton UNIV_I card_gf if_True)
  have "?pr xs g = ?pr ?r g" for g
  proof (rule products_agree [of "UNIV - {- x}"])
    fix g assume "g \<in> UNIV - {- x}"
    then have "x + g \<noteq> 0" by (auto simp: add_eq_0_iff)
    moreover have "(x + g) * ?pr xs g = (x + g) * ?pr ?r g"
      using Cons.prems(1) [of g] unfolding split by (simp only: list.map prod_list.Cons)
    ultimately show "?pr xs g = ?pr ?r g" by (simp only: mult_cancel_left simp_thms)
  qed (use len in \<open>simp_all only: card\<close>)
  then have "mset xs = mset ?r" using len by (rule Cons.IH)
  then show ?case unfolding ys by (simp only: mset.simps)
qed

lemma collisions:
  assumes "length r = w" "length s = w" "r \<noteq> s"
  shows "card {b. reduce_with_powers s b = reduce_with_powers r b} < w"
proof -
  let ?C = "{b. reduce_with_powers s b = reduce_with_powers r b}"
  have "s = r" if "w \<le> card ?C"
  proof (rule equal_polynomials)
    show "\<forall>b \<in> ?C. reduce_with_powers s b = reduce_with_powers r b" by blast
    show "length s = length r" "length s \<le> card ?C" using assms(1,2) that by (simp_all only:)
  qed
  then show ?thesis using assms(3) by (metis not_le)
qed

lemma separating_challenge:
  assumes "finite R" "r \<notin> R" "length r = w" "\<And>s. s \<in> R \<Longrightarrow> length s = w" "card R * w < nat gf_p"
  obtains b where "\<And>s. s \<in> R \<Longrightarrow> reduce_with_powers s b \<noteq> reduce_with_powers r b"
proof -
  let ?C = "\<lambda>s. {b. reduce_with_powers s b = reduce_with_powers r b}"
  have "card (\<Union>s \<in> R. ?C s) \<le> (\<Sum>s \<in> R. card (?C s))" using assms(1) by (rule card_UN_le)
  also have "\<dots> \<le> (\<Sum>s \<in> R. w)"
    using collisions [OF assms(3)] assms(2,4) by (intro sum_mono) (metis less_imp_le)
  also have "\<dots> < card (UNIV :: gf set)" using assms(5) by (simp add: card_gf)
  finally have "(\<Union>s \<in> R. ?C s) \<noteq> UNIV" by auto
  then show ?thesis using that by blast
qed

lemma rows_mset:
  assumes "\<And>b. mset (map (\<lambda>r. reduce_with_powers r b) A) = mset (map (\<lambda>r. reduce_with_powers r b) B)"
    "\<And>r. r \<in> set A \<union> set B \<Longrightarrow> length r = w" "(length A + length B) * w < nat gf_p"
  shows "mset A = mset B"
proof (rule multiset_eqI)
  fix r
  let ?R = "set A \<union> set B"
  show "count (mset A) r = count (mset B) r"
  proof (cases "r \<in> ?R")
    case True
    have "card (?R - {r}) \<le> card ?R" by (intro card_mono) auto
    also have "\<dots> \<le> length A + length B"
      using card_Un_le [of "set A" "set B"] card_length [of A] card_length [of B] by linarith
    finally have "card (?R - {r}) * w < nat gf_p"
      using assms(3) by (meson le_less_trans mult_le_mono1)
    then obtain b where b: "\<And>s. s \<in> ?R - {r} \<Longrightarrow> reduce_with_powers s b \<noteq> reduce_with_powers r b"
      using separating_challenge [of "?R - {r}" r w] assms(2) True by auto
    have c: "count (mset (map (\<lambda>r. reduce_with_powers r b) X)) (reduce_with_powers r b) = count (mset X) r"
      if "set X \<subseteq> ?R" for X
    proof -
      have "{x. x \<in># mset X \<and> reduce_with_powers r b = reduce_with_powers x b} = (if r \<in> set X then {r} else {})"
      proof (intro equalityI subsetI)
        fix x assume "x \<in> {x. x \<in># mset X \<and> reduce_with_powers r b = reduce_with_powers x b}"
        then have "x \<in> set X" "reduce_with_powers x b = reduce_with_powers r b" by simp_all
        then show "x \<in> (if r \<in> set X then {r} else {})" using b [of x] that by (cases "x = r") auto
      qed (simp split: if_splits)
      then show ?thesis
        by (cases "r \<in> set X") (simp_all only: mset_map count_image_mset' if_True if_False, simp_all add: count_eq_zero_iff)
    qed
    show ?thesis using c [of A] c [of B] assms(1) [of b] by simp
  next
    case False
    then have "count (mset A) r = 0" "count (mset B) r = 0" by (simp_all add: count_eq_zero_iff)
    then show ?thesis by (simp only:)
  qed
qed

text \<open>Two lists of rows of width \<open>w\<close> have the same product under every challenge exactly when they are permutations.\<close>

lemma grand_product:
  assumes "\<And>r. r \<in> set A \<union> set B \<Longrightarrow> length r = w" "(length A + length B) * Suc w < nat gf_p - 1"
  shows "(\<forall>ch. prod_list (map (combine ch) A) = prod_list (map (combine ch) B)) \<longleftrightarrow> mset A = mset B"
proof
  assume all: "\<forall>ch. prod_list (map (combine ch) A) = prod_list (map (combine ch) B)"
  have len: "length A < nat gf_p - 1" "length B < nat gf_p - 1" "(length A + length B) * w < nat gf_p"
    using assms(2) unfolding mult_Suc_right by linarith+
  have "mset (map (\<lambda>r. reduce_with_powers r b) A) = mset (map (\<lambda>r. reduce_with_powers r b) B)" for b
  proof (rule products_mset)
    fix g
    show "prod_list (map (\<lambda>x. x + g) (map (\<lambda>r. reduce_with_powers r b) A)) =
        prod_list (map (\<lambda>x. x + g) (map (\<lambda>r. reduce_with_powers r b) B))"
      using all [rule_format, of "\<lparr>beta = b, gamma = g\<rparr>"] by (simp add: combine_def [abs_def] comp_def)
  qed (use len in simp_all)
  then show "mset A = mset B" using assms(1) len(3) by (rule rows_mset)
next
  assume m: "mset A = mset B"
  show "\<forall>ch. prod_list (map (combine ch) A) = prod_list (map (combine ch) B)"
  proof
    fix ch
    have "prod_mset (mset (map (combine ch) A)) = prod_mset (mset (map (combine ch) B))" using m by (simp only: mset_map)
    then show "prod_list (map (combine ch) A) = prod_list (map (combine ch) B)" by (simp only: prod_mset_prod_list)
  qed
qed

subsection \<open>The permutation argument\<close>

record PermutationInstance =
  pair :: permutation_pair
  challenge :: GrandProductChallenge

fun chunks :: "nat \<Rightarrow> 'a list \<Rightarrow> 'a list list" where
  "chunks n xs = (if xs = [] \<or> n = 0 then [] else take n xs # chunks n (drop n xs))"

declare chunks.simps [simp del]

definition get_permutation_batches ::
  "permutation_pair list \<Rightarrow> GrandProductChallenge list list \<Rightarrow> nat \<Rightarrow> nat \<Rightarrow> PermutationInstance list list"
where
  "get_permutation_batches permutation_pairs permutation_challenge_sets num_challenges batch_size =
     map (\<lambda>batch. map (\<lambda>(i, pair, chal). \<lparr>pair = pair, challenge = permutation_challenge_sets ! i ! chal\<rparr>) (enumerate 0 batch))
       (chunks batch_size (List.product permutation_pairs [0..<num_challenges]))"

definition reduced_lhs :: "row \<Rightarrow> PermutationInstance \<Rightarrow> gf" where
  "reduced_lhs values inst = combine (challenge inst) (map (\<lambda>(i, j). values i) (pair inst))"

definition reduced_rhs :: "row \<Rightarrow> PermutationInstance \<Rightarrow> gf" where
  "reduced_rhs values inst = combine (challenge inst) (map (\<lambda>(i, j). values j) (pair inst))"

definition eval_permutation_checks :: "PermutationInstance list list \<Rightarrow> gf list \<Rightarrow> gf list \<Rightarrow> row \<Rightarrow> emit list" where
  "eval_permutation_checks permutation_batches local_zs next_zs local_values =
     map (\<lambda>z. First_row (z - 1)) local_zs @
     map (\<lambda>(i, instances). Always (next_zs ! i * prod_list (map (reduced_rhs local_values) instances) -
        local_zs ! i * prod_list (map (reduced_lhs local_values) instances))) (enumerate 0 permutation_batches)"

text \<open>
  \<open>compute_permutation_z_poly\<close>: the partial products of the quotients, one shifted. A zero denominator is a
  panic in the batch inversion.
\<close>

fun z_loop :: "gf \<Rightarrow> gf list \<Rightarrow> gf list" where
  "z_loop acc [] = []"
| "z_loop acc (q # qs) = acc # z_loop (acc * q) qs"

definition compute_permutation_z_poly :: "PermutationInstance list \<Rightarrow> trace \<Rightarrow> gf list option" where
  "compute_permutation_z_poly instances t =
     (let rows = map (trace_row t) [0..<trace_length t];
          numerator = map (\<lambda>values. prod_list (map (reduced_lhs values) instances)) rows;
          denominator = map (\<lambda>values. prod_list (map (reduced_rhs values) instances)) rows
      in if list_all (\<lambda>d. d \<noteq> 0) denominator
         then Some (z_loop 1 (map2 (\<lambda>n d. n * inverse d) numerator denominator))
         else None)"

text \<open>A column of partial products satisfying the checks of its batch, on every row of a trace.\<close>

definition permutation_z :: "PermutationInstance list \<Rightarrow> trace \<Rightarrow> gf list \<Rightarrow> bool" where
  "permutation_z instances t z \<longleftrightarrow>
     (let n = trace_length t
      in length z = n \<and>
         list_all (\<lambda>i. list_all (emit_holds n i)
           (eval_permutation_checks [instances] [z ! i] [z ! (Suc i mod n)] (trace_row t i))) [0..<n])"

lemma permutation_z_rows:
  "permutation_z instances t z \<longleftrightarrow> length z = trace_length t \<and>
     (\<forall>i < trace_length t. (i \<noteq> 0 \<or> z ! i = 1) \<and>
        z ! (Suc i mod trace_length t) * prod_list (map (reduced_rhs (trace_row t i)) instances) =
        z ! i * prod_list (map (reduced_lhs (trace_row t i)) instances))"
  by (simp add: permutation_z_def eval_permutation_checks_def Let_def list_all_iff Ball_def) blast

lemma permutation_z_products:
  assumes "permutation_z instances t z"
  shows "prod_list (map (\<lambda>i. prod_list (map (reduced_lhs (trace_row t i)) instances)) [0..<trace_length t]) =
    prod_list (map (\<lambda>i. prod_list (map (reduced_rhs (trace_row t i)) instances)) [0..<trace_length t])"
    (is "prod_list (map ?l [0..<?n]) = prod_list (map ?r [0..<?n])")
proof (cases "?n = 0")
  case False
  have z: "z ! 0 = 1" "\<And>i. i < ?n \<Longrightarrow> z ! (Suc i mod ?n) * ?r i = z ! i * ?l i"
    using assms False by (auto simp: permutation_z_rows)
  have "z ! (k mod ?n) * prod_list (map ?r [0..<k]) = prod_list (map ?l [0..<k])" if "k \<le> ?n" for k
    using that
  proof (induction k)
    case (Suc k)
    have "z ! (Suc k mod ?n) * prod_list (map ?r [0..<Suc k]) = z ! (Suc k mod ?n) * ?r k * prod_list (map ?r [0..<k])"
      by simp
    also have "\<dots> = z ! k * prod_list (map ?r [0..<k]) * ?l k" using z(2) [of k] Suc.prems by simp
    also have "\<dots> = prod_list (map ?l [0..<Suc k])" using Suc by simp
    finally show ?case .
  qed (simp add: z(1))
  from this [of ?n] show ?thesis using z(1) by simp
qed simp

lemma nth_z_loop: "i < length qs \<Longrightarrow> z_loop acc qs ! i = acc * prod_list (take i qs)"
  by (induction qs arbitrary: acc i) (auto simp: nth_Cons' take_Cons' mult.assoc)

lemma length_z_loop [simp]: "length (z_loop acc qs) = length qs"
  by (induction qs arbitrary: acc) simp_all

lemma prod_list_map2_inverse:
  fixes ns ds :: "gf list"
  shows "length ns = length ds \<Longrightarrow>
    prod_list (map2 (\<lambda>n d. n * inverse d) ns ds) = prod_list ns * inverse (prod_list ds)"
  by (induction ns ds rule: list_induct2) simp_all

lemma compute_z:
  assumes "compute_permutation_z_poly instances t = Some z"
    "prod_list (map (\<lambda>i. prod_list (map (reduced_lhs (trace_row t i)) instances)) [0..<trace_length t]) =
     prod_list (map (\<lambda>i. prod_list (map (reduced_rhs (trace_row t i)) instances)) [0..<trace_length t])"
  shows "permutation_z instances t z"
  unfolding permutation_z_rows
proof (intro conjI allI impI)
  let ?l = "\<lambda>i. prod_list (map (reduced_lhs (trace_row t i)) instances)"
  let ?r = "\<lambda>i. prod_list (map (reduced_rhs (trace_row t i)) instances)"
  let ?n = "trace_length t"
  define ls where "ls = map ?l [0..<?n]"
  define rs where "rs = map ?r [0..<?n]"
  let ?qs = "map2 (\<lambda>n d. n * inverse d) ls rs"
  have nz: "list_all (\<lambda>d. d \<noteq> 0) rs" and z: "z = z_loop 1 ?qs"
    using assms(1) by (auto simp: compute_permutation_z_poly_def Let_def ls_def rs_def comp_def split: if_splits)
  have len: "length ls = ?n" "length rs = ?n" by (simp_all add: ls_def rs_def)
  then show "length z = ?n" by (simp add: z)
  fix i assume i: "i < ?n"
  have zi: "z ! i = prod_list (take i ?qs)" using i len by (simp add: z nth_z_loop)
  then show "i \<noteq> 0 \<or> z ! i = 1" by (cases "i = 0") simp_all
  have ri: "?r i \<noteq> 0" "ls ! i = ?l i" "rs ! i = ?r i" using i nz by (simp_all add: ls_def rs_def list_all_length)
  have "z ! (Suc i mod ?n) = prod_list (take (Suc i) ?qs)"
  proof (cases "Suc i = ?n")
    case True
    have "prod_list rs \<noteq> 0" using nz by (auto simp: prod_list_zero_iff list_all_iff)
    then have "prod_list ?qs = 1" using assms(2) len by (simp add: prod_list_map2_inverse ls_def [symmetric] rs_def [symmetric])
    then show ?thesis using True i len by (simp add: z nth_z_loop)
  next
    case False
    then show ?thesis using i len by (simp add: z nth_z_loop)
  qed
  also have "\<dots> = z ! i * (?l i * inverse (?r i))" using i len ri by (simp add: zi take_Suc_conv_app_nth)
  finally show "z ! (Suc i mod ?n) * ?r i = z ! i * ?l i" using ri(1) by simp
qed

definition instance_of :: "permutation_pair \<Rightarrow> gf \<Rightarrow> gf \<Rightarrow> PermutationInstance list" where
  "instance_of pr b g = [\<lparr>pair = pr, challenge = \<lparr>beta = b, gamma = g\<rparr>\<rparr>]"

definition lhs_rows :: "trace \<Rightarrow> permutation_pair \<Rightarrow> gf list list" where
  "lhs_rows t pr = map (\<lambda>i. map (\<lambda>(l, r). t ! l ! i) pr) [0..<trace_length t]"

definition rhs_rows :: "trace \<Rightarrow> permutation_pair \<Rightarrow> gf list list" where
  "rhs_rows t pr = map (\<lambda>i. map (\<lambda>(l, r). t ! r ! i) pr) [0..<trace_length t]"

lemma permuted_rows: "permuted_columns t pr \<longleftrightarrow> mset (lhs_rows t pr) = mset (rhs_rows t pr)"
  by (simp add: permuted_columns_def lhs_rows_def rhs_rows_def)

lemma instance_products:
  "map (\<lambda>i. prod_list (map (reduced_lhs (trace_row t i)) (instance_of pr b g))) [0..<trace_length t] =
     map (combine \<lparr>beta = b, gamma = g\<rparr>) (lhs_rows t pr)"
  "map (\<lambda>i. prod_list (map (reduced_rhs (trace_row t i)) (instance_of pr b g))) [0..<trace_length t] =
     map (combine \<lparr>beta = b, gamma = g\<rparr>) (rhs_rows t pr)"
  by (simp_all add: instance_of_def lhs_rows_def rhs_rows_def reduced_lhs_def reduced_rhs_def trace_row_def)

lemma combine_products: "map (combine \<lparr>beta = b, gamma = g\<rparr>) X = map (\<lambda>x. x + g) (map (\<lambda>r. reduce_with_powers r b) X)"
  by (simp add: combine_def)

lemma permuted_z:
  assumes "permuted_columns t pr"
  shows "case compute_permutation_z_poly (instance_of pr b g) t of
       None \<Rightarrow> \<exists>i < trace_length t. reduced_rhs (trace_row t i) (hd (instance_of pr b g)) = 0
     | Some z \<Rightarrow> permutation_z (instance_of pr b g) t z"
proof (cases "compute_permutation_z_poly (instance_of pr b g) t")
  case None
  then show ?thesis
    by (auto simp: compute_permutation_z_poly_def Let_def list_all_iff instance_of_def split: if_splits)
next
  case (Some z)
  have "prod_mset (mset (map (combine \<lparr>beta = b, gamma = g\<rparr>) (lhs_rows t pr))) =
      prod_mset (mset (map (combine \<lparr>beta = b, gamma = g\<rparr>) (rhs_rows t pr)))"
    using assms by (simp only: mset_map permuted_rows)
  then have "permutation_z (instance_of pr b g) t z"
    by (intro compute_z [OF Some]) (simp only: instance_products prod_mset_prod_list)
  with Some show ?thesis by simp
qed

lemma enough_gammas:
  assumes "permuted_columns t pr" "2 * trace_length t < nat gf_p"
  shows "trace_length t < card {g. \<exists>z. permutation_z (instance_of pr b g) t z}"
proof -
  let ?S = "{g. \<exists>z. permutation_z (instance_of pr b g) t z}"
  let ?n = "trace_length t"
  let ?f = "\<lambda>i. - reduce_with_powers (map (\<lambda>(l, r). t ! r ! i) pr) b"
  have "UNIV - ?S \<subseteq> ?f ` {..<?n}"
  proof
    fix g assume "g \<in> UNIV - ?S"
    then have "compute_permutation_z_poly (instance_of pr b g) t = None"
      using permuted_z [OF assms(1), of b g] by (auto split: option.splits)
    then obtain i where i: "i < ?n" "reduced_rhs (trace_row t i) (hd (instance_of pr b g)) = 0"
      using permuted_z [OF assms(1), of b g] by auto
    then have "reduce_with_powers (map (\<lambda>(l, r). t ! r ! i) pr) b + g = 0"
      by (simp add: reduced_rhs_def instance_of_def combine_def trace_row_def)
    then have "g = ?f i" by (simp only: add_eq_0_iff)
    with i(1) show "g \<in> ?f ` {..<?n}" by blast
  qed
  then have "card (UNIV - ?S) \<le> card (?f ` {..<?n})" by (intro card_mono) simp_all
  also have "\<dots> \<le> ?n" using card_image_le [of "{..<?n}" ?f] by simp
  finally have "card (UNIV - ?S) \<le> ?n" .
  moreover have "card (UNIV - ?S) = nat gf_p - card ?S" by (simp only: card_Diff_subset [OF finite subset_UNIV] card_gf)
  ultimately show ?thesis using assms(2) by linarith
qed

lemma gammas_permuted:
  assumes "\<And>b. trace_length t < card {g. \<exists>z. permutation_z (instance_of pr b g) t z}"
    "2 * trace_length t * Suc (length pr) < nat gf_p - 1"
  shows "permuted_columns t pr"
proof -
  let ?A = "lhs_rows t pr" and ?B = "rhs_rows t pr"
  have len: "length ?A = trace_length t" "length ?B = trace_length t" by (simp_all add: lhs_rows_def rhs_rows_def)
  have "prod_list (map (combine \<lparr>beta = b, gamma = g\<rparr>) ?A) = prod_list (map (combine \<lparr>beta = b, gamma = g\<rparr>) ?B)" for b g
    unfolding combine_products
  proof (rule products_agree)
    fix g assume "g \<in> {g. \<exists>z. permutation_z (instance_of pr b g) t z}"
    then obtain z where "permutation_z (instance_of pr b g) t z" by blast
    from permutation_z_products [OF this]
    show "(\<Prod>x\<leftarrow>map (\<lambda>r. reduce_with_powers r b) ?A. x + g) = (\<Prod>x\<leftarrow>map (\<lambda>r. reduce_with_powers r b) ?B. x + g)"
      by (simp only: instance_products combine_products)
  qed (simp_all add: len assms(1))
  then have all: "\<forall>ch. prod_list (map (combine ch) ?A) = prod_list (map (combine ch) ?B)"
    by (metis (full_types) GrandProductChallenge.surjective old.unit.exhaust)
  have "mset ?A = mset ?B"
  proof (rule iffD1 [OF grand_product all])
    show "length r = length pr" if "r \<in> set ?A \<union> set ?B" for r using that by (auto simp: lhs_rows_def rhs_rows_def)
    show "(length ?A + length ?B) * Suc (length pr) < nat gf_p - 1" using assms(2) by (simp only: len mult_2)
  qed
  then show ?thesis by (simp only: permuted_rows)
qed

text \<open>
  C0: the permutation argument: two lists of columns are permutations of one another, row by row,
  exactly when for every \<open>beta\<close> more values of \<open>gamma\<close> than there are rows have a column of partial products
  satisfying the checks; and then the column \<open>compute_permutation_z_poly\<close> builds is one, unless it panics because a
  denominator is zero.
\<close>

theorem permutation_argument:
  assumes "2 * trace_length t * Suc (length pr) < nat gf_p - 1"
  shows "(permuted_columns t pr \<longleftrightarrow>
      (\<forall>b. trace_length t < card {g. \<exists>z. permutation_z (instance_of pr b g) t z})) \<and>
    (permuted_columns t pr \<longrightarrow> (\<forall>b g. case compute_permutation_z_poly (instance_of pr b g) t of
       None \<Rightarrow> \<exists>i < trace_length t. reduced_rhs (trace_row t i) (hd (instance_of pr b g)) = 0
     | Some z \<Rightarrow> permutation_z (instance_of pr b g) t z))"
proof -
  have "2 * trace_length t \<le> 2 * trace_length t * Suc (length pr)" by simp
  then have "2 * trace_length t < nat gf_p" using assms by linarith
  then show ?thesis using enough_gammas permuted_z gammas_permuted [OF _ assms] by blast
qed

subsection \<open>Columns and tables\<close>

text \<open>\<open>enum Table\<close> of \<open>circuits/src/stark/ola_stark.rs\<close>; a trace of the system has one table for each.\<close>

datatype Table = Table_Cpu | Table_Memory | Table_Bitwise | Table_Cmp | Table_RangeCheck | Table_Poseidon
  | Table_PoseidonChunk | Table_StorageAccess | Table_Tape | Table_SCCall | Table_Program | Table_ProgChunk

text \<open>A linear combination of the columns of a table.\<close>

record Column =
  linear_combination :: "(nat \<times> gf) list"
  col_constant :: gf

definition Column_single :: "nat \<Rightarrow> Column" where
  "Column_single c = \<lparr>linear_combination = [(c, 1)], col_constant = 0\<rparr>"

definition Column_singles :: "nat list \<Rightarrow> Column list" where
  "Column_singles cs = map Column_single cs"

definition Column_constant :: "gf \<Rightarrow> Column" where
  "Column_constant c = \<lparr>linear_combination = [], col_constant = c\<rparr>"

definition Column_zero :: Column where
  "Column_zero = Column_constant 0"

definition Column_one :: Column where
  "Column_one = Column_constant 1"

text \<open>The assertion that the iterator is not empty is met at every call: the lists the tables pass are literals.\<close>

definition linear_combination_with_constant :: "(nat \<times> gf) list \<Rightarrow> gf \<Rightarrow> Column" where
  "linear_combination_with_constant iter constant = \<lparr>linear_combination = iter, col_constant = constant\<rparr>"

definition Column_linear_combination :: "(nat \<times> gf) list \<Rightarrow> Column" where
  "Column_linear_combination iter = linear_combination_with_constant iter 0"

definition Column_le_bits :: "nat list \<Rightarrow> Column" where
  "Column_le_bits cs = Column_linear_combination (zip cs (map (\<lambda>i. 2 ^ i) [0..<length cs]))"

definition Column_le_bytes :: "nat list \<Rightarrow> Column" where
  "Column_le_bytes cs = Column_linear_combination (zip cs (map (\<lambda>i. 256 ^ i) [0..<length cs]))"

definition Column_sum :: "nat list \<Rightarrow> Column" where
  "Column_sum cs = Column_linear_combination (map (\<lambda>c. (c, 1)) cs)"

definition Column_eval :: "Column \<Rightarrow> row \<Rightarrow> gf" where
  "Column_eval col v = sum_list (map (\<lambda>(c, f). v c * f) (linear_combination col)) + col_constant col"

definition eval_table :: "Column \<Rightarrow> trace \<Rightarrow> nat \<Rightarrow> gf" where
  "eval_table col tab i = sum_list (map (\<lambda>(c, f). tab ! c ! i * f) (linear_combination col)) + col_constant col"

lemma eval_table_row: "eval_table col tab i = Column_eval col (trace_row tab i)"
  by (simp add: eval_table_def Column_eval_def trace_row_def)

lemma Column_eval_simps [simp]:
  "Column_eval (Column_single c) v = v c" "Column_eval (Column_constant x) v = x"
  "Column_eval Column_zero v = 0" "Column_eval Column_one v = 1"
  by (simp_all add: Column_eval_def Column_single_def Column_constant_def Column_zero_def Column_one_def)

lemma Column_eval_sum [simp]: "Column_eval (Column_sum cs) v = sum_list (map v cs)"
  by (simp add: Column_eval_def Column_sum_def Column_linear_combination_def linear_combination_with_constant_def comp_def)

lemma Column_eval_linear [simp]:
  "Column_eval (linear_combination_with_constant iter c) v = sum_list (map (\<lambda>(i, f). v i * f) iter) + c"
  by (simp add: Column_eval_def linear_combination_with_constant_def)

record TableWithColumns =
  tab :: Table
  columns :: "Column list"
  filter_column :: "Column option"

definition TableWithColumns_new :: "Table \<Rightarrow> Column list \<Rightarrow> Column option \<Rightarrow> TableWithColumns" where
  "TableWithColumns_new t cs f = \<lparr>tab = t, columns = cs, filter_column = f\<rparr>"

record CrossTableLookup =
  looking_tables :: "TableWithColumns list"
  looked_table :: TableWithColumns

text \<open>None is the failed assertion.\<close>

definition CrossTableLookup_new :: "TableWithColumns list \<Rightarrow> TableWithColumns \<Rightarrow> CrossTableLookup option" where
  "CrossTableLookup_new looking looked =
     (if list_all (\<lambda>twc. length (columns twc) = length (columns looked)) looking
      then Some \<lparr>looking_tables = looking, looked_table = looked\<rparr>
      else None)"

definition num_ctl_zs :: "CrossTableLookup list \<Rightarrow> Table \<Rightarrow> nat \<Rightarrow> nat" where
  "num_ctl_zs ctls t num_challenges =
     fold (\<lambda>ctl num_ctls. num_ctls + length (filter (\<lambda>twc. tab twc = t) (looked_table ctl # looking_tables ctl))) ctls 0
     * num_challenges"

subsection \<open>The lookup columns\<close>

definition filter_at :: "Column option \<Rightarrow> row \<Rightarrow> gf" where
  "filter_at flt v = (case flt of Some column \<Rightarrow> Column_eval column v | None \<Rightarrow> 1)"

text \<open>\<open>partial_products\<close>: None is the assertion \<open>Non-binary filter?\<close>.\<close>

fun partial_products_loop ::
  "trace \<Rightarrow> Column list \<Rightarrow> Column option \<Rightarrow> GrandProductChallenge \<Rightarrow> gf \<Rightarrow> nat list \<Rightarrow> gf list option"
where
  "partial_products_loop t cs f ch partial_prod [] = Some []"
| "partial_products_loop t cs f ch partial_prod (i # is) =
     (let flt = (case f of Some column \<Rightarrow> eval_table column t i | None \<Rightarrow> 1)
      in if flt = 1
         then let evals = map (\<lambda>c. eval_table c t i) cs;
                  partial_prod = partial_prod * combine ch evals
              in map_option ((#) partial_prod) (partial_products_loop t cs f ch partial_prod is)
         else if flt = 0 then map_option ((#) partial_prod) (partial_products_loop t cs f ch partial_prod is)
         else None)"

definition partial_products :: "trace \<Rightarrow> Column list \<Rightarrow> Column option \<Rightarrow> GrandProductChallenge \<Rightarrow> gf list option" where
  "partial_products t cs f ch = partial_products_loop t cs f ch 1 [0..<trace_length t]"

record CtlCheckVars =
  local_z :: gf
  next_z :: gf
  challenges :: GrandProductChallenge
  ctl_columns :: "Column list"
  ctl_filter_column :: "Column option"

definition eval_cross_table_lookup_checks :: "row \<Rightarrow> row \<Rightarrow> CtlCheckVars list \<Rightarrow> emit list" where
  "eval_cross_table_lookup_checks local_values next_values ctl_vars =
     concat (map (\<lambda>vars.
       let comb = (\<lambda>v. combine (challenges vars) (map (\<lambda>c. Column_eval c v) (ctl_columns vars)));
           local_filter = filter_at (ctl_filter_column vars) local_values;
           next_filter = filter_at (ctl_filter_column vars) next_values;
           select = (\<lambda>flt x. flt * x + 1 - flt)
       in [First_row (local_z vars - select local_filter (comb local_values)),
           Transition (next_z vars - local_z vars * select next_filter (comb next_values))]) ctl_vars)"

record CtlZData =
  ctl_z :: "gf list"
  z_challenge :: GrandProductChallenge
  z_columns :: "Column list"
  z_filter_column :: "Column option"

type_synonym ctl_data = "Table \<Rightarrow> CtlZData list"

definition z_data :: "(Table \<Rightarrow> trace) \<Rightarrow> TableWithColumns \<Rightarrow> GrandProductChallenge \<Rightarrow> CtlZData option" where
  "z_data traces twc ch =
     map_option (\<lambda>z. \<lparr>ctl_z = z, z_challenge = ch, z_columns = columns twc, z_filter_column = filter_column twc\<rparr>)
       (partial_products (traces (tab twc)) (columns twc) (filter_column twc) ch)"

text \<open>The \<open>Z\<close> columns in the order in which they are pushed: by lookup, by challenge, the looking tables before the looked one.\<close>

definition ctl_order :: "CrossTableLookup list \<Rightarrow> GrandProductChallenge list \<Rightarrow> (TableWithColumns \<times> GrandProductChallenge) list" where
  "ctl_order ctls chs =
     concat (map (\<lambda>ctl. concat (map (\<lambda>ch. map (\<lambda>twc. (twc, ch)) (looking_tables ctl @ [looked_table ctl])) chs)) ctls)"

fun push_zs :: "(Table \<Rightarrow> trace) \<Rightarrow> (TableWithColumns \<times> GrandProductChallenge) list \<Rightarrow> ctl_data \<Rightarrow> ctl_data option" where
  "push_zs traces [] data = Some data"
| "push_zs traces ((twc, ch) # xs) data =
     (case z_data traces twc ch of
        None \<Rightarrow> None
      | Some zd \<Rightarrow> push_zs traces xs (data(tab twc := data (tab twc) @ [zd])))"

definition cross_table_lookup_data ::
  "(Table \<Rightarrow> trace) \<Rightarrow> CrossTableLookup list \<Rightarrow> GrandProductChallenge list \<Rightarrow> ctl_data option"
where
  "cross_table_lookup_data traces ctls chs = push_zs traces (ctl_order ctls chs) (\<lambda>_. [])"

text \<open>
  \<open>verify_cross_table_lookups\<close>: the last values of the columns are consumed table by table in the same order.
  None is a panic, of an iterator that has no value left or of an index out of range.
\<close>

fun next_zs :: "(Table \<Rightarrow> gf list) \<Rightarrow> Table list \<Rightarrow> (gf list \<times> (Table \<Rightarrow> gf list)) option" where
  "next_zs openings [] = Some ([], openings)"
| "next_zs openings (t # ts) =
     (case openings t of
        [] \<Rightarrow> None
      | z # zs \<Rightarrow> map_option (\<lambda>(rs, openings). (z # rs, openings)) (next_zs (openings(t := zs)) ts))"

fun verify_loop ::
  "(CrossTableLookup \<times> nat) list \<Rightarrow> (Table \<Rightarrow> gf list) \<Rightarrow> (Table \<Rightarrow> gf list) \<Rightarrow> bool option"
where
  "verify_loop [] openings extra = Some True"
| "verify_loop ((ctl, c) # xs) openings extra =
     (case next_zs openings (map tab (looking_tables ctl)) of
        None \<Rightarrow> None
      | Some (zs, openings) \<Rightarrow>
          (let extra_product_vec = extra (tab (looked_table ctl))
           in if c < length extra_product_vec
              then let looking_zs_prod = prod_list zs * extra_product_vec ! c
                   in case openings (tab (looked_table ctl)) of
                        [] \<Rightarrow> None
                      | looked_z # rest \<Rightarrow>
                          if looking_zs_prod = looked_z
                          then verify_loop xs (openings(tab (looked_table ctl) := rest)) extra
                          else Some False
              else None))"

definition verify_cross_table_lookups ::
  "CrossTableLookup list \<Rightarrow> (Table \<Rightarrow> gf list) \<Rightarrow> (Table \<Rightarrow> gf list) \<Rightarrow> nat \<Rightarrow> bool option"
where
  "verify_cross_table_lookups ctls ctl_zs_lasts ctl_extra_looking_products num_challenges =
     verify_loop (List.product ctls [0..<num_challenges]) ctl_zs_lasts ctl_extra_looking_products"

subsection \<open>What the lookup columns say\<close>

text \<open>The rows a table contributes to a lookup.\<close>

definition table_rows :: "trace \<Rightarrow> Column list \<Rightarrow> Column option \<Rightarrow> gf list list" where
  "table_rows t cs f =
     map (\<lambda>i. map (\<lambda>c. Column_eval c (trace_row t i)) cs)
       (filter (\<lambda>i. filter_at f (trace_row t i) = 1) [0..<trace_length t])"

definition binary_filter :: "trace \<Rightarrow> Column option \<Rightarrow> bool" where
  "binary_filter t f \<longleftrightarrow> list_all (\<lambda>i. filter_at f (trace_row t i) \<in> {0, 1}) [0..<trace_length t]"

definition ctl_z_checked :: "trace \<Rightarrow> CtlZData \<Rightarrow> bool" where
  "ctl_z_checked t zd \<longleftrightarrow>
     (let n = trace_length t
      in length (ctl_z zd) = n \<and>
         list_all (\<lambda>i. list_all (emit_holds n i)
           (eval_cross_table_lookup_checks (trace_row t i) (trace_row t (Suc i mod n))
             [\<lparr>local_z = ctl_z zd ! i, next_z = ctl_z zd ! (Suc i mod n), challenges = z_challenge zd,
               ctl_columns = z_columns zd, ctl_filter_column = z_filter_column zd\<rparr>])) [0..<n])"

text \<open>One step of the product, as the checks compute it and as \<open>partial_products\<close> does.\<close>

definition ctl_factor :: "trace \<Rightarrow> Column list \<Rightarrow> Column option \<Rightarrow> GrandProductChallenge \<Rightarrow> nat \<Rightarrow> gf" where
  "ctl_factor t cs f ch i =
     (if filter_at f (trace_row t i) = 1 then combine ch (map (\<lambda>c. Column_eval c (trace_row t i)) cs) else 1)"

fun running :: "(nat \<Rightarrow> gf) \<Rightarrow> gf \<Rightarrow> nat list \<Rightarrow> gf list" where
  "running fac acc [] = []"
| "running fac acc (i # is) = acc * fac i # running fac (acc * fac i) is"

lemma length_running [simp]: "length (running fac acc is) = length is"
  by (induction "is" arbitrary: acc) simp_all

lemma nth_running: "k < length is \<Longrightarrow> running fac acc is ! k = acc * prod_list (map fac (take (Suc k) is))"
  by (induction "is" arbitrary: acc k) (auto simp: nth_Cons' take_Cons' mult.assoc)

lemma last_running: "is \<noteq> [] \<Longrightarrow> last (running fac acc is) = acc * prod_list (map fac is)"
proof (induction "is" arbitrary: acc)
  case (Cons i "is")
  show ?case
  proof (cases "is = []")
    case False
    moreover from this have "running fac (acc * fac i) is \<noteq> []" by (metis length_running length_0_conv)
    ultimately show ?thesis using Cons.IH [of "acc * fac i"] by (simp add: mult.assoc)
  qed simp
qed simp

lemma partial_products_loop_running:
  "partial_products_loop t cs f ch acc is =
     (if list_all (\<lambda>i. filter_at f (trace_row t i) \<in> {0, 1}) is then Some (running (ctl_factor t cs f ch) acc is) else None)"
proof (induction "is" arbitrary: acc)
  case (Cons i "is")
  have "(case f of Some column \<Rightarrow> eval_table column t i | None \<Rightarrow> 1) = filter_at f (trace_row t i)"
    by (simp add: filter_at_def eval_table_row split: option.split)
  then show ?case by (simp add: Cons Let_def ctl_factor_def [of t cs f ch i] eval_table_row)
qed simp

lemma partial_products_running:
  "partial_products t cs f ch =
     (if binary_filter t f then Some (running (ctl_factor t cs f ch) 1 [0..<trace_length t]) else None)"
  by (simp add: partial_products_def partial_products_loop_running binary_filter_def)

lemma ctl_factor_product:
  "prod_list (map (ctl_factor t cs f ch) [0..<trace_length t]) = prod_list (map (combine ch) (table_rows t cs f))"
proof -
  have "prod_list (map (ctl_factor t cs f ch) is) =
      prod_list (map (combine ch) (map (\<lambda>i. map (\<lambda>c. Column_eval c (trace_row t i)) cs)
        (filter (\<lambda>i. filter_at f (trace_row t i) = 1) is)))" for "is"
    by (induction "is") (simp_all add: ctl_factor_def)
  then show ?thesis by (simp add: table_rows_def)
qed

lemma ctl_z_checked_rows:
  assumes "binary_filter t (z_filter_column zd)"
  defines "fac \<equiv> ctl_factor t (z_columns zd) (z_filter_column zd) (z_challenge zd)"
  shows "ctl_z_checked t zd \<longleftrightarrow> length (ctl_z zd) = trace_length t \<and>
    (\<forall>i < trace_length t. (i \<noteq> 0 \<or> ctl_z zd ! i = fac i) \<and>
       (Suc i = trace_length t \<or> ctl_z zd ! Suc i = ctl_z zd ! i * fac (Suc i)))"
proof -
  let ?n = "trace_length t" and ?z = "ctl_z zd"
  let ?comb = "\<lambda>v. combine (z_challenge zd) (map (\<lambda>c. Column_eval c v) (z_columns zd))"
  let ?f = "filter_at (z_filter_column zd)"
  have sel: "?f (trace_row t i) * ?comb (trace_row t i) + 1 - ?f (trace_row t i) = fac i" if "i < ?n" for i
  proof -
    have "?f (trace_row t i) \<in> {0, 1}" using assms(1) that by (simp add: binary_filter_def list_all_iff)
    then show ?thesis by (auto simp: fac_def ctl_factor_def)
  qed
  have "list_all (emit_holds ?n i) (eval_cross_table_lookup_checks (trace_row t i) (trace_row t (Suc i mod ?n))
       [\<lparr>local_z = ?z ! i, next_z = ?z ! (Suc i mod ?n), challenges = z_challenge zd,
         ctl_columns = z_columns zd, ctl_filter_column = z_filter_column zd\<rparr>]) \<longleftrightarrow>
     (i \<noteq> 0 \<or> ?z ! i = fac i) \<and> (Suc i = ?n \<or> ?z ! Suc i = ?z ! i * fac (Suc i))" if i: "i < ?n" for i
  proof (cases "Suc i = ?n")
    case True
    then show ?thesis
      by (simp add: eval_cross_table_lookup_checks_def Let_def sel [OF i])
  next
    case False
    then have s: "Suc i < ?n" using i by simp
    then show ?thesis
      by (simp add: eval_cross_table_lookup_checks_def Let_def sel [OF i] sel [OF s])
  qed
  then show ?thesis unfolding ctl_z_checked_def Let_def list_all_iff [of _ "[0..<?n]"] by auto
qed

text \<open>
  C0: the checks of a cross-table lookup determine its \<open>Z\<close> column: when the filter is 0 or 1 on every
  row, a column satisfies them exactly when it is the one \<open>partial_products\<close> computes, whose last value is the product
  of the combined rows the filter selects.
\<close>

theorem ctl_z_determined:
  assumes "binary_filter t (z_filter_column zd)" "0 < trace_length t"
  shows "(ctl_z_checked t zd \<longleftrightarrow>
      partial_products t (z_columns zd) (z_filter_column zd) (z_challenge zd) = Some (ctl_z zd)) \<and>
    (ctl_z_checked t zd \<longrightarrow>
      last (ctl_z zd) = prod_list (map (combine (z_challenge zd)) (table_rows t (z_columns zd) (z_filter_column zd))))"
proof -
  let ?n = "trace_length t" and ?z = "ctl_z zd"
  let ?fac = "ctl_factor t (z_columns zd) (z_filter_column zd) (z_challenge zd)"
  let ?run = "running ?fac 1 [0..<?n]"
  have run: "?run ! i = prod_list (map ?fac [0..<Suc i])" if "i < ?n" for i using that by (simp add: nth_running)
  have "ctl_z_checked t zd \<longleftrightarrow> ?z = ?run"
  proof
    assume c: "ctl_z_checked t zd"
    then have len: "length ?z = ?n" by (simp add: ctl_z_checked_rows [OF assms(1)])
    have rows: "(i \<noteq> 0 \<or> ?z ! i = ?fac i) \<and> (Suc i = ?n \<or> ?z ! Suc i = ?z ! i * ?fac (Suc i))" if "i < ?n" for i
      using c that unfolding ctl_z_checked_rows [OF assms(1)] by blast
    have "?z ! i = prod_list (map ?fac [0..<Suc i])" if "i < ?n" for i
      using that
    proof (induction i)
      case 0
      then show ?case using rows [of 0] by simp
    next
      case (Suc i)
      then have "?z ! Suc i = ?z ! i * ?fac (Suc i)" using rows [of i] by simp
      then show ?case using Suc by simp
    qed
    then show "?z = ?run" using len by (intro nth_equalityI) (simp_all add: run)
  next
    assume z: "?z = ?run"
    have "(i \<noteq> 0 \<or> ?run ! i = ?fac i) \<and> (Suc i = ?n \<or> ?run ! Suc i = ?run ! i * ?fac (Suc i))" if "i < ?n" for i
      using run [of i] run [of "Suc i"] that by (cases "Suc i = ?n"; cases "i = 0") simp_all
    then show "ctl_z_checked t zd" unfolding ctl_z_checked_rows [OF assms(1)] z by simp
  qed
  moreover have "last ?run = prod_list (map (combine (z_challenge zd)) (table_rows t (z_columns zd) (z_filter_column zd)))"
    using assms(2) by (simp add: last_running ctl_factor_product)
  ultimately show ?thesis using assms(1) by (auto simp: partial_products_running)
qed

subsection \<open>Verifying the lookups\<close>

text \<open>What a list of entries leaves in the column list of a table.\<close>

definition pushed :: "(TableWithColumns \<times> 'a) list \<Rightarrow> Table \<Rightarrow> 'a list" where
  "pushed xs t = map snd (filter (\<lambda>x. tab (fst x) = t) xs)"

lemma pushed_simps [simp]:
  "pushed [] t = []"
  "pushed (x # xs) t = (if tab (fst x) = t then snd x # pushed xs t else pushed xs t)"
  "pushed (xs @ ys) t = pushed xs t @ pushed ys t"
  by (simp_all add: pushed_def)

lemma push_zs_data:
  "push_zs traces xs data =
     (if list_all (\<lambda>(twc, ch). z_data traces twc ch \<noteq> None) xs
      then Some (\<lambda>t. data t @ pushed (map (\<lambda>(twc, ch). (twc, the (z_data traces twc ch))) xs) t)
      else None)"
proof (induction xs arbitrary: data)
  case (Cons x xs)
  then show ?case
    by (cases x; cases "z_data traces (fst x) (snd x)") (auto simp: fun_eq_iff)
qed simp

lemma next_zs_pushed:
  "next_zs (\<lambda>t. pushed xs t @ rest t) (map (tab \<circ> fst) xs) = Some (map snd xs, rest)"
proof (induction xs)
  case (Cons x xs)
  have "(\<lambda>t. pushed (x # xs) t @ rest t)(tab (fst x) := pushed xs (tab (fst x)) @ rest (tab (fst x))) =
      (\<lambda>t. pushed xs t @ rest t)"
    by (auto simp: fun_eq_iff)
  then show ?case using Cons by (simp del: fun_upd_apply)
qed simp

text \<open>The last values, in the order of \<open>ctl_order\<close>.\<close>

definition z_lasts :: "ctl_data \<Rightarrow> Table \<Rightarrow> gf list" where
  "z_lasts data t = map (\<lambda>zd. last (ctl_z zd)) (data t)"

lemma verify_loop_pushed:
  assumes "\<And>t c. c < k \<Longrightarrow> c < length (extra t) \<and> extra t ! c = 1" "\<And>x. x \<in> set xs \<Longrightarrow> snd x < k"
  shows "verify_loop xs (\<lambda>t. pushed (concat (map (\<lambda>(ctl, c).
        map (\<lambda>twc. (twc, pd c twc)) (looking_tables ctl @ [looked_table ctl])) xs)) t) extra =
    Some (list_all (\<lambda>(ctl, c). prod_list (map (pd c) (looking_tables ctl)) = pd c (looked_table ctl)) xs)"
  using assms(2)
proof (induction xs)
  case (Cons x xs)
  obtain ctl c where x: "x = (ctl, c)" by fastforce
  let ?E = "\<lambda>(ctl, c). map (\<lambda>twc. (twc, pd c twc)) (looking_tables ctl @ [looked_table ctl])"
  let ?rest = "\<lambda>t. pushed (concat (map ?E xs)) t"
  let ?looked = "\<lambda>t. pushed [(looked_table ctl, pd c (looked_table ctl))] t @ ?rest t"
  let ?here = "map (\<lambda>twc. (twc, pd c twc)) (looking_tables ctl)"
  have "(\<lambda>t. pushed (concat (map ?E (x # xs))) t) = (\<lambda>t. pushed ?here t @ ?looked t)"
    by (simp add: x fun_eq_iff)
  moreover have "map tab (looking_tables ctl) = map (tab \<circ> fst) ?here" "map snd ?here = map (pd c) (looking_tables ctl)"
    by (simp_all add: comp_def)
  ultimately have "next_zs (\<lambda>t. pushed (concat (map ?E (x # xs))) t) (map tab (looking_tables ctl)) =
      Some (map (pd c) (looking_tables ctl), ?looked)"
    by (simp only: next_zs_pushed)
  moreover have "?looked(tab (looked_table ctl) := ?rest (tab (looked_table ctl))) = ?rest" by (auto simp: fun_eq_iff)
  moreover have "c < length (extra t)" "extra t ! c = 1" for t using assms(1) Cons.prems [of x] by (simp_all add: x)
  ultimately show ?case using Cons.IH Cons.prems by (simp add: x Let_def del: fun_upd_apply)
qed simp

definition twc_rows :: "(Table \<Rightarrow> trace) \<Rightarrow> TableWithColumns \<Rightarrow> gf list list" where
  "twc_rows traces twc = table_rows (traces (tab twc)) (columns twc) (filter_column twc)"

text \<open>The shape of the traces a lookup is run on.\<close>

definition ctl_fits :: "(Table \<Rightarrow> trace) \<Rightarrow> CrossTableLookup \<Rightarrow> bool" where
  "ctl_fits traces ctl \<longleftrightarrow>
     (let twcs = looking_tables ctl @ [looked_table ctl]; w = length (columns (looked_table ctl))
      in list_all (\<lambda>twc. binary_filter (traces (tab twc)) (filter_column twc) \<and> 0 < trace_length (traces (tab twc)) \<and>
           length (columns twc) = w) twcs \<and>
         int (sum_list (map (\<lambda>twc. trace_length (traces (tab twc))) twcs)) * int (Suc w) < gf_p - 1)"

lemma z_data_fits:
  assumes "ctl_fits traces ctl" "twc \<in> set (looking_tables ctl @ [looked_table ctl])"
  obtains zd where "z_data traces twc ch = Some zd" "last (ctl_z zd) = prod_list (map (combine ch) (twc_rows traces twc))"
proof -
  let ?t = "traces (tab twc)"
  let ?z = "running (ctl_factor ?t (columns twc) (filter_column twc) ch) 1 [0..<trace_length ?t]"
  have f: "binary_filter ?t (filter_column twc)" "0 < trace_length ?t"
    using assms by (auto simp: ctl_fits_def Let_def list_all_iff)
  have "last ?z = prod_list (map (ctl_factor ?t (columns twc) (filter_column twc) ch) [0..<trace_length ?t])"
    using f(2) by (simp add: last_running)
  then show ?thesis using that f(1) by (simp add: z_data_def partial_products_running ctl_factor_product twc_rows_def)
qed

lemma ctl_order_lasts:
  "map (\<lambda>(twc, ch). (twc, f ch twc)) (ctl_order ctls chs) =
     concat (map (\<lambda>(ctl, c). map (\<lambda>twc. (twc, f (chs ! c) twc)) (looking_tables ctl @ [looked_table ctl]))
       (List.product ctls [0..<length chs]))"
proof (induction ctls)
  case (Cons ctl ctls)
  let ?t = "looking_tables ctl @ [looked_table ctl]"
  let ?row = "\<lambda>ch. map (\<lambda>twc. (twc, f ch twc)) ?t"
  have "ctl_order (ctl # ctls) chs = concat (map (\<lambda>ch. map (\<lambda>twc. (twc, ch)) ?t) chs) @ ctl_order ctls chs"
    by (simp only: ctl_order_def list.map concat.simps)
  moreover have "map (\<lambda>(twc, ch). (twc, f ch twc)) (concat (map (\<lambda>ch. map (\<lambda>twc. (twc, ch)) ?t) chs)) = concat (map ?row chs)"
    by (simp only: map_concat map_map comp_def prod.case)
  moreover have "map ?row chs = map (\<lambda>c. ?row (chs ! c)) [0..<length chs]"
    by (rule nth_equalityI) simp_all
  ultimately show ?case
    using Cons.IH by (simp only: map_append List.product.simps concat_append map_map comp_def prod.case)
qed (simp add: ctl_order_def)

lemma verify_data:
  assumes "list_all (ctl_fits traces) ctls" "length chs = k"
  shows "\<exists>data. cross_table_lookup_data traces ctls chs = Some data \<and>
    verify_cross_table_lookups ctls (z_lasts data) (\<lambda>_. replicate k 1) k =
      Some (list_all (\<lambda>(ctl, c). prod_list (map (combine (chs ! c)) (concat (map (twc_rows traces) (looking_tables ctl)))) =
        prod_list (map (combine (chs ! c)) (twc_rows traces (looked_table ctl)))) (List.product ctls [0..<k]))"
proof -
  let ?pd = "\<lambda>ch twc. prod_list (map (combine ch) (twc_rows traces twc))"
  let ?zs = "map (\<lambda>(twc, ch). (twc, the (z_data traces twc ch))) (ctl_order ctls chs)"
  let ?ps = "map (\<lambda>(twc, ch). (twc, ?pd ch twc)) (ctl_order ctls chs)"
  have z: "z_data traces twc ch \<noteq> None \<and> last (ctl_z (the (z_data traces twc ch))) = ?pd ch twc"
    if "(twc, ch) \<in> set (ctl_order ctls chs)" for twc ch
  proof -
    have "\<exists>ctl \<in> set ctls. twc \<in> set (looking_tables ctl @ [looked_table ctl])"
      using that by (auto simp: ctl_order_def)
    then obtain ctl where "ctl \<in> set ctls" "twc \<in> set (looking_tables ctl @ [looked_table ctl])" by blast
    moreover from this have "ctl_fits traces ctl" using assms(1) by (simp add: list_all_iff)
    ultimately obtain zd where "z_data traces twc ch = Some zd" "last (ctl_z zd) = ?pd ch twc"
      using z_data_fits by blast
    then show ?thesis by simp
  qed
  have "list_all (\<lambda>(twc, ch). z_data traces twc ch \<noteq> None) (ctl_order ctls chs)"
    unfolding list_all_iff using z by blast
  then have "cross_table_lookup_data traces ctls chs = Some (\<lambda>t. pushed ?zs t)"
    by (simp only: cross_table_lookup_data_def push_zs_data if_True append_Nil)
  moreover have "z_lasts (\<lambda>t. pushed ?zs t) = (\<lambda>t. pushed ?ps t)"
  proof
    fix t
    have "z_lasts (\<lambda>t. pushed ?zs t) t = map (\<lambda>zd. last (ctl_z zd)) (pushed ?zs t)" by (simp only: z_lasts_def)
    also have "map (\<lambda>zd. last (ctl_z zd)) (pushed xs t) = pushed (map (\<lambda>(twc, zd). (twc, last (ctl_z zd))) xs) t" for xs
      by (induction xs) auto
    also have "map (\<lambda>(twc, zd). (twc, last (ctl_z zd))) ?zs = ?ps"
      using z by (auto simp del: split_paired_All)
    finally show "z_lasts (\<lambda>t. pushed ?zs t) t = pushed ?ps t" .
  qed
  moreover have "verify_cross_table_lookups ctls (\<lambda>t. pushed ?ps t) (\<lambda>_. replicate k 1) k =
      Some (list_all (\<lambda>(ctl, c). prod_list (map (?pd (chs ! c)) (looking_tables ctl)) = ?pd (chs ! c) (looked_table ctl))
        (List.product ctls [0..<k]))"
    unfolding verify_cross_table_lookups_def ctl_order_lasts assms(2)
    by (rule verify_loop_pushed [where k = k]) auto
  moreover have "prod_list (map (combine ch) (concat (map (twc_rows traces) X))) = prod_list (map (?pd ch) X)" for ch X
    by (induction X) simp_all
  ultimately show ?thesis by (simp only: option.inject simp_thms ex_simps)
qed

lemma grand_product_fits:
  assumes "ctl_fits traces ctl"
  shows "(\<forall>ch. prod_list (map (combine ch) (concat (map (twc_rows traces) (looking_tables ctl)))) =
      prod_list (map (combine ch) (twc_rows traces (looked_table ctl)))) \<longleftrightarrow>
    mset (concat (map (twc_rows traces) (looking_tables ctl))) = mset (twc_rows traces (looked_table ctl))"
proof (rule grand_product)
  let ?w = "length (columns (looked_table ctl))" and ?twcs = "looking_tables ctl @ [looked_table ctl]"
  let ?size = "\<lambda>X. sum_list (map (\<lambda>twc. trace_length (traces (tab twc))) X)"
  let ?A = "concat (map (twc_rows traces) (looking_tables ctl))" and ?B = "twc_rows traces (looked_table ctl)"
  show "length r = ?w" if "r \<in> set ?A \<union> set ?B" for r
    using that assms by (auto simp: twc_rows_def table_rows_def ctl_fits_def Let_def list_all_iff)
  have r: "length (twc_rows traces twc) \<le> trace_length (traces (tab twc))" for twc
    using length_filter_le [of "\<lambda>i. filter_at (filter_column twc) (trace_row (traces (tab twc)) i) = 1" "[0..<trace_length (traces (tab twc))]"]
    by (simp add: twc_rows_def table_rows_def)
  have "length (concat (map (twc_rows traces) X)) \<le> ?size X" for X
    by (induction X) (simp_all add: add_mono r)
  from this [of "looking_tables ctl"] have "length ?A + length ?B \<le> ?size ?twcs"
    using r [of "looked_table ctl"] by simp
  then have "(length ?A + length ?B) * Suc ?w \<le> ?size ?twcs * Suc ?w" by (rule mult_le_mono1)
  moreover have "int (?size ?twcs * Suc ?w) < gf_p - 1"
    using assms by (simp only: ctl_fits_def Let_def of_nat_mult simp_thms)
  ultimately show "(length ?A + length ?B) * Suc ?w < nat gf_p - 1" by linarith
qed

text \<open>
  C0: cross-table lookups are sound and complete: over traces with binary filters and of a size the
  field separates, the verifier accepts the \<open>Z\<close> columns of the prover for all challenges exactly when in
  every lookup the rows selected from the looking tables are, with multiplicity, the rows selected from the looked table.
\<close>

theorem cross_table_lookups_sound:
  assumes "list_all (ctl_fits traces) ctls" "0 < k"
  shows "(\<forall>chs. length chs = k \<longrightarrow> (\<exists>data. cross_table_lookup_data traces ctls chs = Some data \<and>
      verify_cross_table_lookups ctls (z_lasts data) (\<lambda>_. replicate k 1) k = Some True)) \<longleftrightarrow>
    (\<forall>ctl \<in> set ctls. mset (concat (map (twc_rows traces) (looking_tables ctl))) = mset (twc_rows traces (looked_table ctl)))"
    (is "?V \<longleftrightarrow> _")
proof -
  let ?A = "\<lambda>ctl. concat (map (twc_rows traces) (looking_tables ctl))" and ?B = "\<lambda>ctl. twc_rows traces (looked_table ctl)"
  let ?eq = "\<lambda>ch ctl. prod_list (map (combine ch) (?A ctl)) = prod_list (map (combine ch) (?B ctl))"
  have "?V \<longleftrightarrow> (\<forall>chs. length chs = k \<longrightarrow> list_all (\<lambda>(ctl, c). ?eq (chs ! c) ctl) (List.product ctls [0..<k]))"
  proof (intro all_cong)
    fix chs :: "GrandProductChallenge list" assume "length chs = k"
    from verify_data [OF assms(1) this] obtain data where
      "cross_table_lookup_data traces ctls chs = Some data"
      "verify_cross_table_lookups ctls (z_lasts data) (\<lambda>_. replicate k 1) k =
         Some (list_all (\<lambda>(ctl, c). ?eq (chs ! c) ctl) (List.product ctls [0..<k]))"
      by blast
    then show "(\<exists>data. cross_table_lookup_data traces ctls chs = Some data \<and>
        verify_cross_table_lookups ctls (z_lasts data) (\<lambda>_. replicate k 1) k = Some True) \<longleftrightarrow>
      list_all (\<lambda>(ctl, c). ?eq (chs ! c) ctl) (List.product ctls [0..<k])"
      by (simp only: option.inject simp_thms ex_simps)
  qed
  also have "\<dots> \<longleftrightarrow> (\<forall>ctl \<in> set ctls. \<forall>ch. ?eq ch ctl)"
  proof
    assume all: "\<forall>chs. length chs = k \<longrightarrow> list_all (\<lambda>(ctl, c). ?eq (chs ! c) ctl) (List.product ctls [0..<k])"
    show "\<forall>ctl \<in> set ctls. \<forall>ch. ?eq ch ctl"
    proof (intro ballI allI)
      fix ctl ch assume "ctl \<in> set ctls"
      then have "(ctl, 0) \<in> set (List.product ctls [0..<k])" using assms(2) by simp
      moreover have "list_all (\<lambda>(ctl, c). ?eq (replicate k ch ! c) ctl) (List.product ctls [0..<k])" using all by simp
      ultimately show "?eq ch ctl" using assms(2) unfolding list_all_iff by fastforce
    qed
  next
    assume all: "\<forall>ctl \<in> set ctls. \<forall>ch. ?eq ch ctl"
    show "\<forall>chs. length chs = k \<longrightarrow> list_all (\<lambda>(ctl, c). ?eq (chs ! c) ctl) (List.product ctls [0..<k])"
      unfolding list_all_iff using all by auto
  qed
  also have "\<dots> \<longleftrightarrow> (\<forall>ctl \<in> set ctls. mset (?A ctl) = mset (?B ctl))"
    using assms(1) by (simp only: list_all_iff grand_product_fits cong: ball_cong)
  finally show ?thesis .
qed

end
