(* ===== verification/TraceGen.thy ===== *)
theory TraceGen
  imports CrossTable
begin

text \<open>
  How the tables are generated (\<open>circuits/src/generation\<close>): the columns start as zeros, cells are assigned row by
  row, and the number of rows is padded to a power of two.
\<close>

subsection \<open>The number of rows\<close>

text \<open>Lengths of vectors are below 2^63, so the doubling of \<open>next_power_of_two\<close> does not overflow.\<close>

function power_of_two_from :: "nat \<Rightarrow> nat \<Rightarrow> nat" where
  "power_of_two_from m n = (if n \<le> m \<or> m = 0 then m else power_of_two_from (2 * m) n)"
  by pat_completeness auto
termination
  by (relation "measure (\<lambda>(m, n). n - m)") auto

declare power_of_two_from.simps [simp del]

definition next_power_of_two :: "nat \<Rightarrow> nat" where
  "next_power_of_two n = power_of_two_from 1 n"

definition is_power_of_two :: "nat \<Rightarrow> bool" where
  "is_power_of_two n \<longleftrightarrow> n \<noteq> 0 \<and> next_power_of_two n = n"

definition ext_trace_len :: "nat \<Rightarrow> nat" where
  "ext_trace_len trace_len =
     (if \<not> is_power_of_two trace_len \<or> trace_len < 2
      then if trace_len < 2 then 2 else next_power_of_two trace_len
      else trace_len)"

lemma power_of_two_from_ge: "0 < m \<Longrightarrow> n \<le> power_of_two_from m n"
proof (induction m n rule: power_of_two_from.induct)
  case (1 m n)
  then show ?case by (subst power_of_two_from.simps) auto
qed

lemma power_of_two_from_power: "\<exists>k. power_of_two_from (2 ^ j) n = 2 ^ k"
proof (induction "2 ^ j :: nat" n arbitrary: j rule: power_of_two_from.induct)
  case (1 n)
  show ?case
  proof (cases "n \<le> 2 ^ j")
    case True
    then show ?thesis by (subst power_of_two_from.simps) auto
  next
    case False
    then show ?thesis using "1.hyps" [of "Suc j"] by (subst power_of_two_from.simps) simp
  qed
qed

lemma next_power_of_two: "n \<le> next_power_of_two n" "\<exists>k. next_power_of_two n = 2 ^ k"
  using power_of_two_from_ge [of 1 n] power_of_two_from_power [of 0 n] by (simp_all add: next_power_of_two_def)

lemma ext_trace_len: "n \<le> ext_trace_len n" "2 \<le> ext_trace_len n" "\<exists>k. ext_trace_len n = 2 ^ k"
proof -
  show "n \<le> ext_trace_len n" "2 \<le> ext_trace_len n"
    using next_power_of_two(1) [of n] by (auto simp: ext_trace_len_def)
  have "\<exists>k. (2 :: nat) = 2 ^ k" by (rule exI [of _ 1]) simp
  then show "\<exists>k. ext_trace_len n = 2 ^ k"
    using next_power_of_two(2) [of n] by (auto simp: ext_trace_len_def is_power_of_two_def)
qed

subsection \<open>Assigning cells\<close>

definition zero_trace :: "nat \<Rightarrow> nat \<Rightarrow> trace" where
  "zero_trace cols len = replicate cols (replicate len 0)"

definition set_cell :: "nat \<Rightarrow> nat \<Rightarrow> gf \<Rightarrow> trace \<Rightarrow> trace" where
  "set_cell c i v t = t[c := (t ! c)[i := v]]"

definition set_row :: "nat \<Rightarrow> (nat \<times> gf) list \<Rightarrow> trace \<Rightarrow> trace" where
  "set_row i cells t = fold (\<lambda>(c, v). set_cell c i v) cells t"

text \<open>The assignments of a list of rows, from row \<open>i\<close> on.\<close>

fun set_rows :: "nat \<Rightarrow> (nat \<times> gf) list list \<Rightarrow> trace \<Rightarrow> trace" where
  "set_rows i [] t = t"
| "set_rows i (cells # rows) t = set_rows (Suc i) rows (set_row i cells t)"

lemma set_cell_shape [simp]:
  "length (set_cell c i v t) = length t" "length (set_cell c i v t ! d) = length (t ! d)"
proof -
  show "length (set_cell c i v t) = length t" by (simp add: set_cell_def)
  show "length (set_cell c i v t ! d) = length (t ! d)"
    by (cases "c < length t"; cases "d = c") (simp_all add: set_cell_def list_update_beyond)
qed

lemma set_row_shape [simp]:
  "length (set_row i cells t) = length t" "length (set_row i cells t ! d) = length (t ! d)"
  by (induction cells arbitrary: t) (auto simp: set_row_def)

lemma set_rows_shape [simp]:
  "length (set_rows i rows t) = length t" "length (set_rows i rows t ! d) = length (t ! d)"
  by (induction rows arbitrary: i t) auto

text \<open>What a list of assignments to one row leaves in a column.\<close>

fun cell_value :: "(nat \<times> gf) list \<Rightarrow> nat \<Rightarrow> gf \<Rightarrow> gf" where
  "cell_value [] d old = old"
| "cell_value ((c, v) # cells) d old = cell_value cells d (if d = c then v else old)"

lemma nth_set_cell:
  assumes "d < length t" "i < length (t ! d)"
  shows "set_cell c i v t ! d ! k = (if k = i then if d = c then v else t ! d ! k else t ! d ! k)"
  using assms by (cases "d = c"; cases "k = i") (simp_all add: set_cell_def list_update_beyond)

lemma nth_set_row:
  assumes "d < length t" "i < length (t ! d)"
  shows "set_row i cells t ! d ! k = (if k = i then cell_value cells d (t ! d ! k) else t ! d ! k)"
  using assms
proof (induction cells arbitrary: t)
  case (Cons x cells)
  obtain c v where x: "x = (c, v)" by fastforce
  let ?t = "set_cell c i v t"
  have "set_row i (x # cells) t = set_row i cells ?t" by (simp add: set_row_def x)
  moreover have "set_row i cells ?t ! d ! k = (if k = i then cell_value cells d (?t ! d ! k) else ?t ! d ! k)"
    using Cons.prems by (intro Cons.IH) simp_all
  ultimately show ?case unfolding x using nth_set_cell [OF Cons.prems, of c v k] by (cases "k = i") simp_all
qed (simp add: set_row_def)

lemma nth_set_rows:
  assumes "d < length t" "i + length rows \<le> length (t ! d)"
  shows "set_rows i rows t ! d ! k =
    (if i \<le> k \<and> k < i + length rows then cell_value (rows ! (k - i)) d (t ! d ! k) else t ! d ! k)"
  using assms
proof (induction rows arbitrary: i t)
  case (Cons cells rows)
  have row: "set_row i cells t ! d ! k = (if k = i then cell_value cells d (t ! d ! k) else t ! d ! k)"
    using Cons.prems by (intro nth_set_row) simp_all
  have "set_rows i (cells # rows) t ! d ! k =
     (if Suc i \<le> k \<and> k < Suc i + length rows
      then cell_value (rows ! (k - Suc i)) d (set_row i cells t ! d ! k) else set_row i cells t ! d ! k)"
    using Cons.IH [of "set_row i cells t" "Suc i"] Cons.prems by simp
  then show ?case unfolding row by (auto simp: nth_Cons')
qed auto

lemma length_nth_update:
  "length ((t :: trace)[c := v] ! d) = (if d = c \<and> c < length t then length v else length (t ! d))"
  by (cases "c < length t"; cases "d = c") (simp_all add: list_update_beyond)

lemma zero_trace_shape [simp]:
  "length (zero_trace cols len) = cols" "d < cols \<Longrightarrow> length (zero_trace cols len ! d) = len"
  "d < cols \<Longrightarrow> k < len \<Longrightarrow> zero_trace cols len ! d ! k = 0"
  by (simp_all add: zero_trace_def)

lemma trace_length_shape: "0 < length t \<Longrightarrow> rectangular t \<longleftrightarrow> (\<forall>d < length t. length (t ! d) = trace_length t)"
  by (simp add: rectangular_def list_all_length)

text \<open>\<open>permuted_cols\<close> on columns of one table.\<close>

lemma permuted_cols_columns:
  assumes "length table = length inputs"
  obtains permuted_inputs permuted_table where
    "permuted_cols inputs table = Some (permuted_inputs, permuted_table)"
    "mset permuted_inputs = mset inputs" "mset permuted_table = mset table"
    "lookup_columns permuted_inputs permuted_table \<longleftrightarrow> set inputs \<subseteq> set table"
  using permuted_cols_spec [where inputs = inputs and table = table] assms that
  by (auto simp: Let_def split: option.splits prod.splits)

text \<open>
  A step of the generation that fills two permuted columns: \<open>permuted_cols\<close> of an input and a table column is
  stored in the columns given last.
\<close>

type_synonym permute_spec = "nat \<times> nat \<times> nat \<times> nat"

fun permute_into :: "permute_spec \<Rightarrow> trace \<Rightarrow> trace option" where
  "permute_into (ci, ct, pi, pt) t =
     (case permuted_cols (t ! ci) (t ! ct) of
        None \<Rightarrow> None
      | Some (permuted_inputs, permuted_table) \<Rightarrow> Some (t[pi := permuted_inputs, pt := permuted_table]))"

fun permute_all :: "permute_spec list \<Rightarrow> trace \<Rightarrow> trace option" where
  "permute_all [] t = Some t"
| "permute_all (spec # specs) t = (case permute_into spec t of None \<Rightarrow> None | Some t' \<Rightarrow> permute_all specs t')"

fun spec_targets :: "permute_spec \<Rightarrow> nat list" where
  "spec_targets (ci, ct, pi, pt) = [pi, pt]"

fun spec_sources :: "permute_spec \<Rightarrow> nat list" where
  "spec_sources (ci, ct, pi, pt) = [ci, ct]"

text \<open>What such a step leaves, \<open>t\<close> being the trace before and \<open>u\<close> the one after it.\<close>

fun spec_done :: "trace \<Rightarrow> trace \<Rightarrow> permute_spec \<Rightarrow> bool" where
  "spec_done t u (ci, ct, pi, pt) \<longleftrightarrow> mset (u ! pi) = mset (t ! ci) \<and> mset (u ! pt) = mset (t ! ct) \<and>
     (lookup_columns (u ! pi) (u ! pt) \<longleftrightarrow> set (t ! ci) \<subseteq> set (t ! ct))"

definition columns_of_length :: "nat \<Rightarrow> nat \<Rightarrow> trace \<Rightarrow> bool" where
  "columns_of_length cols len t \<longleftrightarrow> length t = cols \<and> (\<forall>d < cols. length (t ! d) = len)"

lemma columns_of_length:
  assumes "columns_of_length cols len t" "0 < cols"
  shows "length t = cols" "trace_length t = len" "rectangular t" "d < cols \<Longrightarrow> length (t ! d) = len"
  using assms by (simp_all add: columns_of_length_def trace_length_def rectangular_def list_all_length)

lemma permute_into:
  assumes "columns_of_length cols len t" "list_all (\<lambda>d. d < cols) (spec_sources sp @ spec_targets sp)"
    "distinct (spec_targets sp)"
  obtains u where "permute_into sp t = Some u" "columns_of_length cols len u" "spec_done t u sp"
    "\<And>d. d \<notin> set (spec_targets sp) \<Longrightarrow> u ! d = t ! d"
proof -
  obtain ci ct pi pt where sp: "sp = (ci, ct, pi, pt)" by (cases sp)
  have t: "length t = cols" "length (t ! ci) = len" "length (t ! ct) = len"
    using assms(1,2) by (simp_all add: sp columns_of_length_def)
  obtain a b where ab: "permuted_cols (t ! ci) (t ! ct) = Some (a, b)" "mset a = mset (t ! ci)" "mset b = mset (t ! ct)"
      "lookup_columns a b \<longleftrightarrow> set (t ! ci) \<subseteq> set (t ! ct)"
    using permuted_cols_columns [of "t ! ct" "t ! ci"] t by metis
  have len: "length a = len" "length b = len" using ab(2,3) t mset_eq_length by metis+
  let ?u = "t[pi := a, pt := b]"
  have "columns_of_length cols len ?u"
    using assms(1) len t(1) by (simp add: columns_of_length_def length_nth_update)
  moreover have "?u ! pi = a" "?u ! pt = b" using assms(2,3) t(1) by (simp_all add: sp)
  moreover have "?u ! d = t ! d" if "d \<notin> set (spec_targets sp)" for d using that by (simp add: sp)
  ultimately show ?thesis using that [of ?u] ab by (simp add: sp)
qed

lemma spec_done_columns:
  assumes "spec_done t u sp" "\<And>d. d \<in> set (spec_sources sp) \<Longrightarrow> t ! d = t' ! d"
    "\<And>d. d \<in> set (spec_targets sp) \<Longrightarrow> u ! d = u' ! d"
  shows "spec_done t' u' sp"
  using assms by (cases sp) simp

lemma permute_all:
  assumes "columns_of_length cols len t" "list_all (\<lambda>sp. list_all (\<lambda>d. d < cols) (spec_sources sp @ spec_targets sp)) specs"
    "distinct (concat (map spec_targets specs))"
    "set (concat (map spec_sources specs)) \<inter> set (concat (map spec_targets specs)) = {}"
  obtains u where "permute_all specs t = Some u" "columns_of_length cols len u"
    "\<And>sp. sp \<in> set specs \<Longrightarrow> spec_done t u sp"
    "\<And>d. d \<notin> set (concat (map spec_targets specs)) \<Longrightarrow> u ! d = t ! d"
  using assms
proof (induction specs arbitrary: t thesis)
  case Nil
  then show ?case by simp
next
  case (Cons sp specs)
  obtain v where v: "permute_into sp t = Some v" "columns_of_length cols len v" "spec_done t v sp"
      "\<And>d. d \<notin> set (spec_targets sp) \<Longrightarrow> v ! d = t ! d"
    using permute_into [of cols len t sp] Cons.prems(2-4) by auto
  obtain u where u: "permute_all specs v = Some u" "columns_of_length cols len u"
      "\<And>sp. sp \<in> set specs \<Longrightarrow> spec_done v u sp"
      "\<And>d. d \<notin> set (concat (map spec_targets specs)) \<Longrightarrow> u ! d = v ! d"
    using Cons.IH [of v] v(2) Cons.prems(3-5) by auto
  show ?case
  proof (rule Cons.prems(1))
    show "permute_all (sp # specs) t = Some u" using v(1) u(1) by simp
    show "columns_of_length cols len u" by (rule u)
    show "u ! d = t ! d" if "d \<notin> set (concat (map spec_targets (sp # specs)))" for d
      using u(4) [of d] v(4) [of d] that by simp
    show "spec_done t u sp'" if "sp' \<in> set (sp # specs)" for sp'
    proof (cases "sp' = sp")
      case True
      have "v ! d = u ! d" if "d \<in> set (spec_targets sp)" for d
      proof -
        have "d \<notin> set (concat (map spec_targets specs))" using Cons.prems(4) that by auto
        then show ?thesis using u(4) by simp
      qed
      then show ?thesis unfolding True by (intro spec_done_columns [OF v(3)]) simp_all
    next
      case False
      then have sp': "sp' \<in> set specs" using that by simp
      have "v ! d = t ! d" if "d \<in> set (spec_sources sp')" for d
        using v(4) [of d] Cons.prems(5) sp' that by auto
      then show ?thesis by (rule spec_done_columns [OF u(3) [OF sp']]) simp_all
    qed
  qed
qed

text \<open>Constraints that are lists of constraints.\<close>

lemma satisfies_append: "satisfies (\<lambda>lv nv. f lv nv @ g lv nv) t \<longleftrightarrow> satisfies f t \<and> satisfies g t"
  by (auto simp: satisfies_all)

lemma satisfies_concat:
  "satisfies (\<lambda>lv nv. concat (map (\<lambda>i. f i lv nv) xs)) t \<longleftrightarrow> (\<forall>i \<in> set xs. satisfies (f i) t)"
proof (induction xs)
  case (Cons x xs)
  then show ?case by (simp add: satisfies_append [of "f x"])
qed (simp add: satisfies_all)

lemma satisfies_lookups:
  "length (t ! ci) = trace_length t \<Longrightarrow>
     satisfies (\<lambda>lv nv. eval_lookups lv nv ci ct) t \<longleftrightarrow> lookup_columns (t ! ci) (t ! ct)"
  unfolding satisfies_all by (rule lookup_columns_iff)

text \<open>The rows of a lookup on plain columns.\<close>

lemma table_rows_singles:
  "table_rows t (Column_singles cs) (Some (Column_single f)) =
     map (\<lambda>i. map (\<lambda>c. t ! c ! i) cs) (filter (\<lambda>i. t ! f ! i = 1) [0..<trace_length t])"
  by (simp add: table_rows_def filter_at_def Column_singles_def trace_row_def comp_def)

lemma lookup_value:
  assumes "mset (table_rows t (Column_singles [c]) (Some (Column_single f))) =
      mset (table_rows u (Column_singles [d]) (Some (Column_single g)))"
    "i < trace_length u" "u ! g ! i = 1" "rectangular t" "c < length t"
  shows "u ! d ! i \<in> set (t ! c)"
proof -
  have "[u ! d ! i] \<in> set (table_rows u (Column_singles [d]) (Some (Column_single g)))"
    using assms(2,3) by (auto simp: table_rows_singles)
  then have "[u ! d ! i] \<in> set (table_rows t (Column_singles [c]) (Some (Column_single f)))"
    using assms(1) by (metis set_mset_mset)
  then obtain j where "j < trace_length t" "u ! d ! i = t ! c ! j" by (auto simp: table_rows_singles)
  then show ?thesis using assms(4,5) by (simp add: rectangular_def list_all_length)
qed

end
