(* ===== verification/RangeCheckTable.thy ===== *)
theory RangeCheckTable
  imports TraceGen
begin

text \<open>
  The range-check table (\<open>circuits/src/builtins/rangecheck\<close>) and its generation
  (\<open>circuits/src/generation/builtin.rs\<close>) from the rows the executor inserts (\<open>core/src/trace/trace.rs\<close>). Field
  elements of rows are taken up to their representation.
\<close>

unbundle bit_operations_syntax

subsection \<open>Columns\<close>

definition RC_CPU_FILTER :: nat where "RC_CPU_FILTER = 0"
definition RC_MEMORY_SORT_FILTER :: nat where "RC_MEMORY_SORT_FILTER = RC_CPU_FILTER + 1"
definition RC_MEMORY_REGION_FILTER :: nat where "RC_MEMORY_REGION_FILTER = RC_MEMORY_SORT_FILTER + 1"
definition RC_CMP_FILTER :: nat where "RC_CMP_FILTER = RC_MEMORY_REGION_FILTER + 1"
definition RC_VAL :: nat where "RC_VAL = RC_CMP_FILTER + 1"
definition RC_LIMB_LO :: nat where "RC_LIMB_LO = RC_VAL + 1"
definition RC_LIMB_HI :: nat where "RC_LIMB_HI = RC_LIMB_LO + 1"
definition RC_LIMB_LO_PERMUTED :: nat where "RC_LIMB_LO_PERMUTED = RC_LIMB_HI + 1"
definition RC_LIMB_HI_PERMUTED :: nat where "RC_LIMB_HI_PERMUTED = RC_LIMB_LO_PERMUTED + 1"
definition FIX_RANGE_CHECK_U16 :: nat where "FIX_RANGE_CHECK_U16 = RC_LIMB_HI_PERMUTED + 1"
definition FIX_RANGE_CHECK_U16_PERMUTED_LO :: nat where "FIX_RANGE_CHECK_U16_PERMUTED_LO = FIX_RANGE_CHECK_U16 + 1"
definition FIX_RANGE_CHECK_U16_PERMUTED_HI :: nat where "FIX_RANGE_CHECK_U16_PERMUTED_HI = FIX_RANGE_CHECK_U16_PERMUTED_LO + 1"
definition COL_NUM_RC :: nat where "COL_NUM_RC = FIX_RANGE_CHECK_U16_PERMUTED_HI + 1"
definition RANGE_CHECK_U16_SIZE :: nat where "RANGE_CHECK_U16_SIZE = 65536"

lemma rc_columns:
  "RC_CPU_FILTER = 0" "RC_MEMORY_SORT_FILTER = 1" "RC_MEMORY_REGION_FILTER = 2" "RC_CMP_FILTER = 3"
  "RC_VAL = 4" "RC_LIMB_LO = 5" "RC_LIMB_HI = 6" "RC_LIMB_LO_PERMUTED = 7" "RC_LIMB_HI_PERMUTED = 8"
  "FIX_RANGE_CHECK_U16 = 9" "FIX_RANGE_CHECK_U16_PERMUTED_LO = 10" "FIX_RANGE_CHECK_U16_PERMUTED_HI = 11"
  "COL_NUM_RC = 12"
  by (simp_all add: RC_CPU_FILTER_def RC_MEMORY_SORT_FILTER_def RC_MEMORY_REGION_FILTER_def RC_CMP_FILTER_def RC_VAL_def RC_LIMB_LO_def RC_LIMB_HI_def
    RC_LIMB_LO_PERMUTED_def RC_LIMB_HI_PERMUTED_def FIX_RANGE_CHECK_U16_def FIX_RANGE_CHECK_U16_PERMUTED_LO_def FIX_RANGE_CHECK_U16_PERMUTED_HI_def COL_NUM_RC_def)

subsection \<open>Constraints\<close>

definition rc_eval :: "row \<Rightarrow> row \<Rightarrow> emit list" where
  "rc_eval lv nv =
     (let val = lv RC_VAL;
          limb_lo = lv RC_LIMB_LO;
          limb_hi = lv RC_LIMB_HI;
          base = 65536;
          total = limb_lo + limb_hi * base
      in [Always (val - total)] @
         eval_lookups lv nv RC_LIMB_LO_PERMUTED FIX_RANGE_CHECK_U16_PERMUTED_LO @
         eval_lookups lv nv RC_LIMB_HI_PERMUTED FIX_RANGE_CHECK_U16_PERMUTED_HI)"

definition rc_permutation_pairs :: "permutation_pair list" where
  "rc_permutation_pairs =
     [singletons RC_LIMB_LO RC_LIMB_LO_PERMUTED,
      singletons RC_LIMB_HI RC_LIMB_HI_PERMUTED,
      singletons FIX_RANGE_CHECK_U16 FIX_RANGE_CHECK_U16_PERMUTED_LO,
      singletons FIX_RANGE_CHECK_U16 FIX_RANGE_CHECK_U16_PERMUTED_HI]"

definition rc_ctl_data_memory :: "Column list" where
  "rc_ctl_data_memory = Column_singles [RC_VAL]"

definition rc_ctl_filter_memory_sort :: Column where
  "rc_ctl_filter_memory_sort = Column_single RC_MEMORY_SORT_FILTER"

definition rc_ctl_filter_memory_region :: Column where
  "rc_ctl_filter_memory_region = Column_single RC_MEMORY_REGION_FILTER"

definition rc_ctl_data_with_cmp :: "Column list" where
  "rc_ctl_data_with_cmp = Column_singles [RC_VAL]"

definition rc_ctl_filter_with_cmp :: Column where
  "rc_ctl_filter_with_cmp = Column_single RC_CMP_FILTER"

definition rc_ctl_data_with_cpu :: "Column list" where
  "rc_ctl_data_with_cpu = Column_singles [RC_VAL]"

definition rc_ctl_filter_with_cpu :: Column where
  "rc_ctl_filter_with_cpu = Column_single RC_CPU_FILTER"

text \<open>A trace the proof system accepts for this table.\<close>

definition rc_table :: "trace \<Rightarrow> bool" where
  "rc_table t \<longleftrightarrow> length t = COL_NUM_RC \<and> rectangular t \<and> satisfies rc_eval t \<and> permutations_hold rc_permutation_pairs t"

subsection \<open>Generation\<close>

record RangeCheckRow =
  rc_val :: gf
  rc_limb_lo :: gf
  rc_limb_hi :: gf
  filter_looked_for_mem_sort :: gf
  filter_looked_for_mem_region :: gf
  filter_looked_for_cpu :: gf
  filter_looked_for_comparison :: gf
  filter_looked_for_storage :: gf

text \<open>
  \<open>split_u16_limbs_from_field\<close> of \<open>core/src/utils.rs\<close> reads the word that represents the field element, which need
  not be the canonical one.
\<close>

definition split_u16_limbs_from_field :: "felt \<Rightarrow> u64 \<times> u64" where
  "split_u16_limbs_from_field input = (input AND 0xFFFF, drop_bit 16 input AND 0xFFFF)"

text \<open>The row \<open>insert_rangecheck\<close> pushes; the filters are for memory sorting, cpu, comparison, storage and memory regions.\<close>

definition insert_rangecheck :: "felt \<Rightarrow> gf \<times> gf \<times> gf \<times> gf \<times> gf \<Rightarrow> RangeCheckRow list \<Rightarrow> RangeCheckRow list" where
  "insert_rangecheck input filters rows =
     (let split_limbs = split_u16_limbs_from_field input;
          (f0, f1, f2, f3, f4) = filters
      in rows @ [\<lparr>rc_val = gf_of input, rc_limb_lo = gf_of (fst split_limbs), rc_limb_hi = gf_of (snd split_limbs),
           filter_looked_for_mem_sort = f0, filter_looked_for_mem_region = f4, filter_looked_for_cpu = f1,
           filter_looked_for_comparison = f2, filter_looked_for_storage = f3\<rparr>])"

definition rc_cells :: "RangeCheckRow \<Rightarrow> (nat \<times> gf) list" where
  "rc_cells c =
     [(RC_CPU_FILTER, filter_looked_for_cpu c),
      (RC_MEMORY_SORT_FILTER, filter_looked_for_mem_sort c),
      (RC_MEMORY_REGION_FILTER, filter_looked_for_mem_region c),
      (RC_CMP_FILTER, filter_looked_for_comparison c),
      (RC_VAL, rc_val c),
      (RC_LIMB_LO, rc_limb_lo c),
      (RC_LIMB_HI, rc_limb_hi c)]"

definition fix_range_check_u16 :: "nat \<Rightarrow> gf list" where
  "fix_range_check_u16 len =
     (let col = map of_nat [0..<RANGE_CHECK_U16_SIZE]
      in if length col < len then col @ replicate (len - length col) (last col) else col)"

definition generate_rc_trace :: "RangeCheckRow list \<Rightarrow> trace option" where
  "generate_rc_trace cells =
     (let len = ext_trace_len (max (length cells) RANGE_CHECK_U16_SIZE);
          t = set_rows 0 (map rc_cells cells) (zero_trace COL_NUM_RC len);
          t = t[FIX_RANGE_CHECK_U16 := fix_range_check_u16 len]
      in case permuted_cols (t ! RC_LIMB_LO) (t ! FIX_RANGE_CHECK_U16) of
           None \<Rightarrow> None
         | Some (permuted_inputs, permuted_table) \<Rightarrow>
             (let t = t[RC_LIMB_LO_PERMUTED := permuted_inputs, FIX_RANGE_CHECK_U16_PERMUTED_LO := permuted_table]
              in case permuted_cols (t ! RC_LIMB_HI) (t ! FIX_RANGE_CHECK_U16) of
                   None \<Rightarrow> None
                 | Some (permuted_inputs, permuted_table) \<Rightarrow>
                     Some (t[RC_LIMB_HI_PERMUTED := permuted_inputs, FIX_RANGE_CHECK_U16_PERMUTED_HI := permuted_table])))"

text \<open>The same table for the rows of a batch of transactions.\<close>

definition gen_rc_trace :: "RangeCheckRow list list \<Rightarrow> trace option" where
  "gen_rc_trace batch_cells = generate_rc_trace (concat batch_cells)"

subsection \<open>Soundness\<close>

lemma gf_int_of_nat [simp]: "gf_int (of_nat n) = int n mod gf_p"
  using gf_int_of_int [of "int n"] by simp

lemma gf_int_01 [simp]: "gf_int 0 = 0" "gf_int 1 = 1"
  using gf_int_of_nat [of 0] gf_int_of_nat [of 1] by (simp_all add: gf_p_def)

lemma rc_table_lookups:
  assumes "rc_table t"
  shows "set (t ! RC_LIMB_LO) \<subseteq> set (t ! FIX_RANGE_CHECK_U16)" "set (t ! RC_LIMB_HI) \<subseteq> set (t ! FIX_RANGE_CHECK_U16)"
    "\<And>i. i < trace_length t \<Longrightarrow> t ! RC_VAL ! i = t ! RC_LIMB_LO ! i + t ! RC_LIMB_HI ! i * 65536"
proof -
  have len: "length t = COL_NUM_RC" "rectangular t" "satisfies rc_eval t" "permutations_hold rc_permutation_pairs t"
    using assms by (simp_all add: rc_table_def)
  show "set (t ! RC_LIMB_LO) \<subseteq> set (t ! FIX_RANGE_CHECK_U16)"
    by (rule lookup_included [where cpi = RC_LIMB_LO_PERMUTED and cpt = FIX_RANGE_CHECK_U16_PERMUTED_LO])
      (use len in \<open>simp_all add: satisfies_all permutations_hold_def rc_permutation_pairs_def rc_eval_def Let_def,
        simp_all add: rc_columns\<close>)
  show "set (t ! RC_LIMB_HI) \<subseteq> set (t ! FIX_RANGE_CHECK_U16)"
    by (rule lookup_included [where cpi = RC_LIMB_HI_PERMUTED and cpt = FIX_RANGE_CHECK_U16_PERMUTED_HI])
      (use len in \<open>simp_all add: satisfies_all permutations_hold_def rc_permutation_pairs_def rc_eval_def Let_def,
        simp_all add: rc_columns\<close>)
  show "t ! RC_VAL ! i = t ! RC_LIMB_LO ! i + t ! RC_LIMB_HI ! i * 65536" if "i < trace_length t" for i
    using len(3) that by (auto simp: satisfies_all rc_eval_def Let_def trace_row_def)
qed

lemma two_limbs:
  assumes "gf_int lo < 65536" "gf_int hi < 65536"
  shows "gf_int (lo + hi * 65536) = gf_int lo + gf_int hi * 65536"
proof -
  have "lo = of_int (gf_int lo)" "hi = of_int (gf_int hi)" by (simp_all add: of_int_gf_int)
  then have "lo + hi * 65536 = of_int (gf_int lo + gf_int hi * 65536)" by (metis of_int_add of_int_mult of_int_numeral)
  then have "gf_int (lo + hi * 65536) = (gf_int lo + gf_int hi * 65536) mod gf_p" by (simp only: gf_int_of_int)
  also have "\<dots> = gf_int lo + gf_int hi * 65536"
    using assms gf_int [of lo] gf_int [of hi] by (intro mod_pos_pos_trivial) (simp_all add: gf_p_def)
  finally show ?thesis .
qed

lemma rc_table_bound:
  assumes "rc_table t" "\<forall>x \<in> set (t ! FIX_RANGE_CHECK_U16). gf_int x < 65536" "v \<in> set (t ! RC_VAL)"
  shows "gf_int v < 2 ^ 32"
proof -
  have shape: "length (t ! RC_VAL) = trace_length t" "length (t ! RC_LIMB_LO) = trace_length t"
    "length (t ! RC_LIMB_HI) = trace_length t"
    using assms(1) by (auto simp: rc_table_def rectangular_def list_all_length rc_columns)
  obtain i where i: "i < trace_length t" "v = t ! RC_VAL ! i"
    using assms(3) shape(1) by (auto simp: in_set_conv_nth)
  let ?lo = "t ! RC_LIMB_LO ! i" and ?hi = "t ! RC_LIMB_HI ! i"
  have "?lo \<in> set (t ! RC_LIMB_LO)" "?hi \<in> set (t ! RC_LIMB_HI)" using i(1) shape by simp_all
  then have "gf_int ?lo < 65536" "gf_int ?hi < 65536"
    using rc_table_lookups(1,2) [OF assms(1)] assms(2) by auto
  then show ?thesis
    using two_limbs [of ?lo ?hi] rc_table_lookups(3) [OF assms(1) i(1)] i(2) by simp
qed

subsection \<open>Completeness\<close>

lemma rc_satisfies_iff:
  assumes "length t = COL_NUM_RC" "rectangular t"
  shows "satisfies rc_eval t \<longleftrightarrow>
    (\<forall>i < trace_length t. t ! RC_VAL ! i = t ! RC_LIMB_LO ! i + t ! RC_LIMB_HI ! i * 65536) \<and>
    lookup_columns (t ! RC_LIMB_LO_PERMUTED) (t ! FIX_RANGE_CHECK_U16_PERMUTED_LO) \<and>
    lookup_columns (t ! RC_LIMB_HI_PERMUTED) (t ! FIX_RANGE_CHECK_U16_PERMUTED_HI)"
proof -
  have len: "length (t ! RC_LIMB_LO_PERMUTED) = trace_length t" "length (t ! RC_LIMB_HI_PERMUTED) = trace_length t"
    using assms by (simp_all add: rectangular_def list_all_length rc_columns)
  show ?thesis
    unfolding satisfies_all lookup_columns_iff [OF len(1), symmetric] lookup_columns_iff [OF len(2), symmetric]
    by (auto simp: rc_eval_def Let_def trace_row_def)
qed

definition rc_row :: "felt \<Rightarrow> gf \<times> gf \<times> gf \<times> gf \<times> gf \<Rightarrow> RangeCheckRow" where
  "rc_row v f = hd (insert_rangecheck v f [])"

lemma insert_rangecheck_row: "insert_rangecheck v f rows = rows @ [rc_row v f]"
  by (cases f) (simp add: rc_row_def insert_rangecheck_def Let_def)

lemma rc_row_simps [simp]:
  "rc_val (rc_row v f) = gf_of v"
  "gf_int (rc_limb_lo (rc_row v f)) = uint v mod 65536"
  "gf_int (rc_limb_hi (rc_row v f)) = uint v div 65536 mod 65536"
proof -
  have m: "x AND 0xFFFF = take_bit 16 x" for x :: u64 by (simp add: take_bit_eq_mask mask_eq_exp_minus_1)
  have lo: "uint (v AND 0xFFFF) = uint v mod 65536"
    unfolding m unsigned_take_bit_eq by (simp add: take_bit_eq_mod)
  have hi: "uint (drop_bit 16 v AND 0xFFFF) = uint v div 65536 mod 65536"
    unfolding m unsigned_take_bit_eq unsigned_drop_bit_eq
    using uint_lt2p [of v] by (simp add: take_bit_eq_mod drop_bit_eq_div [where 'a = int])
  have "rc_val (rc_row v f) = gf_of v \<and> rc_limb_lo (rc_row v f) = gf_of (v AND 0xFFFF) \<and>
      rc_limb_hi (rc_row v f) = gf_of (drop_bit 16 v AND 0xFFFF)"
    by (cases f) (simp add: rc_row_def insert_rangecheck_def split_u16_limbs_from_field_def Let_def)
  moreover have "gf_int (gf_of (v AND 0xFFFF)) = uint v mod 65536"
    unfolding gf_int_gf_of gf_val_def lo by (simp add: gf_p_def)
  moreover have "gf_int (gf_of (drop_bit 16 v AND 0xFFFF)) = uint v div 65536 mod 65536"
    unfolding gf_int_gf_of gf_val_def hi by (simp add: gf_p_def)
  ultimately show "rc_val (rc_row v f) = gf_of v"
    "gf_int (rc_limb_lo (rc_row v f)) = uint v mod 65536"
    "gf_int (rc_limb_hi (rc_row v f)) = uint v div 65536 mod 65536" by simp_all
qed

lemma fix_range_check_u16:
  assumes "RANGE_CHECK_U16_SIZE \<le> len"
  shows "length (fix_range_check_u16 len) = len" "set (fix_range_check_u16 len) = {x. gf_int x < 65536}"
proof -
  let ?col = "map of_nat [0..<65536] :: gf list"
  have last: "last ?col \<in> set ?col" by (rule last_in_set) simp
  have "set ?col = {x. gf_int x < 65536}"
  proof (intro equalityI subsetI)
    fix x :: gf assume "x \<in> {x. gf_int x < 65536}"
    then have "nat (gf_int x) < 65536" "x = of_nat (nat (gf_int x))"
      using gf_int [of x] by (simp_all add: of_nat_nat of_int_gf_int)
    then show "x \<in> set ?col" by (auto intro: image_eqI)
  qed (auto simp: gf_p_def)
  with last show "set (fix_range_check_u16 len) = {x. gf_int x < 65536}"
    by (auto simp: fix_range_check_u16_def RANGE_CHECK_U16_SIZE_def Let_def)
  show "length (fix_range_check_u16 len) = len"
    using assms by (simp add: fix_range_check_u16_def RANGE_CHECK_U16_SIZE_def Let_def)
qed

lemma generate_rc_trace:
  assumes "len = ext_trace_len (max (length cells) RANGE_CHECK_U16_SIZE)"
  obtains t where "generate_rc_trace cells = Some t" "length t = COL_NUM_RC" "rectangular t" "trace_length t = len"
    "permutations_hold rc_permutation_pairs t" "t ! FIX_RANGE_CHECK_U16 = fix_range_check_u16 len"
    "\<And>d i. d \<le> RC_LIMB_HI \<Longrightarrow> i < len \<Longrightarrow>
       t ! d ! i = (if i < length cells then cell_value (rc_cells (cells ! i)) d 0 else 0)"
    "lookup_columns (t ! RC_LIMB_LO_PERMUTED) (t ! FIX_RANGE_CHECK_U16_PERMUTED_LO) \<longleftrightarrow>
       set (t ! RC_LIMB_LO) \<subseteq> {x. gf_int x < 65536}"
    "lookup_columns (t ! RC_LIMB_HI_PERMUTED) (t ! FIX_RANGE_CHECK_U16_PERMUTED_HI) \<longleftrightarrow>
       set (t ! RC_LIMB_HI) \<subseteq> {x. gf_int x < 65536}"
proof -
  have len: "length cells \<le> len" "RANGE_CHECK_U16_SIZE \<le> len"
    using ext_trace_len(1) [of "max (length cells) RANGE_CHECK_U16_SIZE"] assms by simp_all
  note fx = fix_range_check_u16 [OF len(2)]
  define a where "a = set_rows 0 (map rc_cells cells) (zero_trace COL_NUM_RC len)"
  have a: "length a = COL_NUM_RC" "\<And>d. d < COL_NUM_RC \<Longrightarrow> length (a ! d) = len" by (simp_all add: a_def)
  have d: "RC_LIMB_LO < COL_NUM_RC" "RC_LIMB_HI < COL_NUM_RC" by (simp_all add: rc_columns)
  obtain pl tl where lo: "permuted_cols (a ! RC_LIMB_LO) (fix_range_check_u16 len) = Some (pl, tl)" "mset pl = mset (a ! RC_LIMB_LO)"
      "mset tl = mset (fix_range_check_u16 len)" "lookup_columns pl tl \<longleftrightarrow> set (a ! RC_LIMB_LO) \<subseteq> {x. gf_int x < 65536}"
    using permuted_cols_columns [of "fix_range_check_u16 len" "a ! RC_LIMB_LO"] a(2) [OF d(1)] unfolding fx by metis
  obtain ph th where hi: "permuted_cols (a ! RC_LIMB_HI) (fix_range_check_u16 len) = Some (ph, th)" "mset ph = mset (a ! RC_LIMB_HI)"
      "mset th = mset (fix_range_check_u16 len)" "lookup_columns ph th \<longleftrightarrow> set (a ! RC_LIMB_HI) \<subseteq> {x. gf_int x < 65536}"
    using permuted_cols_columns [of "fix_range_check_u16 len" "a ! RC_LIMB_HI"] a(2) [OF d(2)] unfolding fx by metis
  define t where "t = a[FIX_RANGE_CHECK_U16 := fix_range_check_u16 len, RC_LIMB_LO_PERMUTED := pl,
    FIX_RANGE_CHECK_U16_PERMUTED_LO := tl, RC_LIMB_HI_PERMUTED := ph, FIX_RANGE_CHECK_U16_PERMUTED_HI := th]"
  have gen: "generate_rc_trace cells = Some t"
    unfolding generate_rc_trace_def Let_def assms [symmetric] a_def [symmetric]
    using lo(1) hi(1) a(1) by (simp add: t_def rc_columns)
  have cols: "t ! RC_LIMB_LO_PERMUTED = pl" "t ! RC_LIMB_HI_PERMUTED = ph" "t ! FIX_RANGE_CHECK_U16_PERMUTED_LO = tl"
      "t ! FIX_RANGE_CHECK_U16_PERMUTED_HI = th" "t ! FIX_RANGE_CHECK_U16 = fix_range_check_u16 len"
    using a(1) by (simp_all add: t_def rc_columns)
  have low: "t ! d = a ! d" if "d \<le> RC_LIMB_HI" for d using that by (simp add: t_def rc_columns)
  have lens: "length pl = len" "length ph = len" "length tl = len" "length th = len"
    using lo(2,3) hi(2,3) a(2) [of RC_LIMB_LO] a(2) [of RC_LIMB_HI] fx(1) by (auto simp: rc_columns dest!: mset_eq_length)
  have shape: "length (t ! d) = len" if "d < COL_NUM_RC" for d
    using a that lens fx(1) by (simp add: t_def length_nth_update)
  have lt: "length t = COL_NUM_RC" by (simp add: t_def a(1))
  have tl: "trace_length t = len" using shape [of 0] by (simp add: trace_length_def rc_columns)
  have rect: "rectangular t" using shape lt tl by (simp add: rectangular_def list_all_length)
  have "permutations_hold rc_permutation_pairs t"
    using lt rect lo(2,3) hi(2,3) cols low
    by (simp add: permutations_hold_def rc_permutation_pairs_def permuted_columns_singletons rc_columns)
  moreover have "t ! d ! i = (if i < length cells then cell_value (rc_cells (cells ! i)) d 0 else 0)"
    if "d \<le> RC_LIMB_HI" "i < len" for d i
    using that len(1) by (simp add: low a_def nth_set_rows rc_columns)
  moreover have "set (t ! RC_LIMB_LO) = set (a ! RC_LIMB_LO)" "set (t ! RC_LIMB_HI) = set (a ! RC_LIMB_HI)"
    by (simp_all add: low rc_columns)
  ultimately show ?thesis using that gen lt rect tl cols lo(4) hi(4) by simp
qed

lemma fold_insert_rangecheck: "fold (\<lambda>(v, f). insert_rangecheck v f) vs rows = rows @ map (\<lambda>(v, f). rc_row v f) vs"
  by (induction vs arbitrary: rows) (auto simp: insert_rangecheck_row)

lemma rc_cells_value:
  "cell_value (rc_cells c) RC_VAL 0 = rc_val c" "cell_value (rc_cells c) RC_LIMB_LO 0 = rc_limb_lo c"
  "cell_value (rc_cells c) RC_LIMB_HI 0 = rc_limb_hi c"
  by (simp_all add: rc_cells_def rc_columns)

text \<open>A word at or above the modulus has limbs that do not add up to its value.\<close>

lemma canonical_low_word: "gf_val v = uint v mod 2 ^ 32 \<longleftrightarrow> uint v < 2 ^ 32"
proof (cases "uint v < gf_p")
  case True
  then have "gf_val v = uint v" by (simp add: gf_val_def)
  then show ?thesis by (auto simp: mod_pos_pos_trivial dest: sym [of "uint v"])
next
  case False
  have b: "uint v < 2 ^ 64" using uint_lt2p [of v] by simp
  define k where "k = uint v - gf_p"
  have k: "uint v = gf_p + k" "0 \<le> k" using False by (simp_all add: k_def)
  then have small: "k < 4294967295" using b by (simp add: gf_p_def)
  have "gf_val v = k" using k small by (simp add: gf_val_def gf_p_def)
  moreover have "uint v mod 2 ^ 32 = k + 1"
  proof -
    have "uint v = (k + 1) + 4294967295 * 2 ^ 32" using k(1) by (simp add: gf_p_def)
    then have "uint v mod 2 ^ 32 = (k + 1) mod 2 ^ 32" by (simp only: mod_mult_self1)
    then show ?thesis using k(2) small by simp
  qed
  ultimately show ?thesis using False by (simp add: gf_p_def)
qed

lemma rc_row_val: "gf_of v = rc_limb_lo (rc_row v f) + rc_limb_hi (rc_row v f) * 65536 \<longleftrightarrow> uint v < 2 ^ 32"
proof -
  let ?lo = "rc_limb_lo (rc_row v f)" and ?hi = "rc_limb_hi (rc_row v f)"
  have "gf_int (?lo + ?hi * 65536) = uint v mod 65536 + uint v div 65536 mod 65536 * 65536"
    by (subst two_limbs) simp_all
  also have "\<dots> = uint v mod 2 ^ 32" using mod_mult2_eq' [of "uint v" 65536 65536] by simp
  finally have "gf_of v = ?lo + ?hi * 65536 \<longleftrightarrow> gf_val v = uint v mod 2 ^ 32"
    by (simp add: gf_int_inject [symmetric] gf_int_gf_of)
  then show ?thesis unfolding canonical_low_word .
qed

lemma generated_rc_table:
  assumes "cells = map (\<lambda>(v, f). rc_row v f) vs"
  obtains t where "generate_rc_trace cells = Some t" "\<forall>x \<in> set (t ! FIX_RANGE_CHECK_U16). gf_int x < 65536"
    "rc_table t \<longleftrightarrow> list_all (\<lambda>(v, f). uint v < 2 ^ 32) vs"
proof -
  define len where "len = ext_trace_len (max (length cells) RANGE_CHECK_U16_SIZE)"
  obtain t where t: "generate_rc_trace cells = Some t" "length t = COL_NUM_RC" "rectangular t" "trace_length t = len"
      "permutations_hold rc_permutation_pairs t" "t ! FIX_RANGE_CHECK_U16 = fix_range_check_u16 len"
    and cell: "\<And>d i. d \<le> RC_LIMB_HI \<Longrightarrow> i < len \<Longrightarrow>
       t ! d ! i = (if i < length cells then cell_value (rc_cells (cells ! i)) d 0 else 0)"
    and lk: "lookup_columns (t ! RC_LIMB_LO_PERMUTED) (t ! FIX_RANGE_CHECK_U16_PERMUTED_LO) \<longleftrightarrow>
       set (t ! RC_LIMB_LO) \<subseteq> {x. gf_int x < 65536}"
     "lookup_columns (t ! RC_LIMB_HI_PERMUTED) (t ! FIX_RANGE_CHECK_U16_PERMUTED_HI) \<longleftrightarrow>
       set (t ! RC_LIMB_HI) \<subseteq> {x. gf_int x < 65536}"
    using generate_rc_trace [OF len_def] by metis
  have len: "length cells \<le> len" "RANGE_CHECK_U16_SIZE \<le> len"
    using ext_trace_len(1) [of "max (length cells) RANGE_CHECK_U16_SIZE"] by (simp_all add: len_def)
  have cols: "RC_VAL \<le> RC_LIMB_HI" "RC_LIMB_LO \<le> RC_LIMB_HI" by (simp_all add: rc_columns)
  have small: "gf_int (t ! d ! i) < 65536" if "d \<in> {RC_LIMB_LO, RC_LIMB_HI}" "i < len" for d i
    using that cols by (auto simp: cell rc_cells_value assms gf_int_numeral split: prod.split)
  have shape: "length (t ! d) = len" if "d < COL_NUM_RC" for d
    using t(2-4) that by (simp add: rectangular_def list_all_length)
  have sub: "set (t ! d) \<subseteq> {x. gf_int x < 65536}" if "d \<in> {RC_LIMB_LO, RC_LIMB_HI}" for d
    using small [OF that] shape [of d] that by (auto simp: in_set_conv_nth rc_columns)
  have "rc_table t \<longleftrightarrow> (\<forall>i < len. t ! RC_VAL ! i = t ! RC_LIMB_LO ! i + t ! RC_LIMB_HI ! i * 65536)"
    using t sub lk by (simp add: rc_table_def rc_satisfies_iff)
  also have "\<dots> \<longleftrightarrow> (\<forall>i < length cells. uint (fst (vs ! i)) < 2 ^ 32)"
  proof -
    have "t ! RC_VAL ! i = t ! RC_LIMB_LO ! i + t ! RC_LIMB_HI ! i * 65536 \<longleftrightarrow>
        (i < length cells \<longrightarrow> uint (fst (vs ! i)) < 2 ^ 32)" if "i < len" for i
      using that cols by (cases "vs ! i") (simp add: cell rc_cells_value assms rc_row_val)
    then show ?thesis using len(1) by (meson less_le_trans)
  qed
  finally have "rc_table t \<longleftrightarrow> list_all (\<lambda>(v, f). uint v < 2 ^ 32) vs"
    by (simp add: list_all_length assms case_prod_unfold)
  moreover have "\<forall>x \<in> set (t ! FIX_RANGE_CHECK_U16). gf_int x < 65536"
    using t(6) fix_range_check_u16(2) [OF len(2)] by simp
  ultimately show ?thesis using that t(1) by blast
qed

text \<open>A table of two equal rows whose fixed column holds just the two limbs.\<close>

definition two_rows :: "gf \<Rightarrow> gf \<Rightarrow> trace" where
  "two_rows lo hi =
     [[0, 0], [0, 0], [0, 0], [0, 0], [lo + hi * 65536, lo + hi * 65536], [lo, lo], [hi, hi], [lo, lo], [hi, hi],
      [lo, hi], [lo, hi], [hi, lo]]"

lemma two_rows_table: "rc_table (two_rows lo hi)"
proof -
  have rect: "rectangular (two_rows lo hi)" "length (two_rows lo hi) = COL_NUM_RC"
    by (simp_all add: two_rows_def rectangular_def trace_length_def rc_columns)
  moreover have "satisfies rc_eval (two_rows lo hi)"
    unfolding rc_satisfies_iff [OF rect(2,1)]
    by (auto simp: two_rows_def rc_columns trace_length_def lookup_columns_def less_Suc_eq numeral_2_eq_2)
  moreover have "permutations_hold rc_permutation_pairs (two_rows lo hi)"
    using rect by (simp add: permutations_hold_def rc_permutation_pairs_def permuted_columns_singletons rc_columns)
      (simp add: two_rows_def add_mset_commute)
  ultimately show ?thesis by (simp add: rc_table_def)
qed

text \<open>
  C0: the range-check table. If its fixed column holds 16-bit values only, a table that satisfies the
  constraints and permutations has values below 2^32 only; the table generated for the values the executor
  inserts has such a fixed column and is accepted exactly when all their words are below 2^32, so that a value
  held as a word at or above the modulus is rejected even when the field element is small. The
  condition on the fixed column is needed: nothing constrains it, and any field element is a value of some accepted table.
\<close>

theorem rangecheck_table:
  "(rc_table t \<and> (\<forall>x \<in> set (t ! FIX_RANGE_CHECK_U16). gf_int x < 65536) \<longrightarrow> (\<forall>x \<in> set (t ! RC_VAL). gf_int x < 2 ^ 32)) \<and>
   (case generate_rc_trace (fold (\<lambda>(v, f). insert_rangecheck v f) vs []) of
      None \<Rightarrow> False
    | Some t \<Rightarrow> (\<forall>x \<in> set (t ! FIX_RANGE_CHECK_U16). gf_int x < 65536) \<and>
        (rc_table t \<longleftrightarrow> list_all (\<lambda>(v, f). uint v < 2 ^ 32) vs)) \<and>
   (\<exists>t. rc_table t \<and> v \<in> set (t ! RC_VAL))"
proof (intro conjI impI)
  show "\<forall>x \<in> set (t ! RC_VAL). gf_int x < 2 ^ 32"
    if "rc_table t \<and> (\<forall>x \<in> set (t ! FIX_RANGE_CHECK_U16). gf_int x < 65536)"
    using rc_table_bound that by blast
  obtain t where "generate_rc_trace (map (\<lambda>(v, f). rc_row v f) vs) = Some t"
      "\<forall>x \<in> set (t ! FIX_RANGE_CHECK_U16). gf_int x < 65536" "rc_table t \<longleftrightarrow> list_all (\<lambda>(v, f). uint v < 2 ^ 32) vs"
    using generated_rc_table [OF refl] by blast
  then show "case generate_rc_trace (fold (\<lambda>(v, f). insert_rangecheck v f) vs []) of
      None \<Rightarrow> False
    | Some t \<Rightarrow> (\<forall>x \<in> set (t ! FIX_RANGE_CHECK_U16). gf_int x < 65536) \<and>
        (rc_table t \<longleftrightarrow> list_all (\<lambda>(v, f). uint v < 2 ^ 32) vs)"
    by (simp add: fold_insert_rangecheck)
  show "\<exists>t. rc_table t \<and> v \<in> set (t ! RC_VAL)"
    by (rule exI [of _ "two_rows v 0"]) (simp add: two_rows_table, simp add: two_rows_def rc_columns)
qed

end
