(* ===== verification/CmpTable.thy ===== *)
theory CmpTable
  imports RangeCheckTable
begin

text \<open>
  The comparison table (\<open>circuits/src/builtins/cmp\<close>), its generation (\<open>circuits/src/generation/builtin.rs\<close>), and the
  rows the instruction \<open>gte\<close> of the trace-generating executor inserts (\<open>executor/src/lib.rs\<close>); with the
  range-check table it decides the order of 32-bit operands.
\<close>

subsection \<open>Columns and constraints\<close>

definition COL_CMP_OP0 :: nat where "COL_CMP_OP0 = 0"
definition COL_CMP_OP1 :: nat where "COL_CMP_OP1 = COL_CMP_OP0 + 1"
definition COL_CMP_GTE :: nat where "COL_CMP_GTE = COL_CMP_OP1 + 1"
definition COL_CMP_ABS_DIFF :: nat where "COL_CMP_ABS_DIFF = COL_CMP_GTE + 1"
definition COL_CMP_ABS_DIFF_INV :: nat where "COL_CMP_ABS_DIFF_INV = COL_CMP_ABS_DIFF + 1"
definition COL_CMP_FILTER_LOOKING_RC :: nat where "COL_CMP_FILTER_LOOKING_RC = COL_CMP_ABS_DIFF_INV + 1"
definition COL_NUM_CMP :: nat where "COL_NUM_CMP = COL_CMP_FILTER_LOOKING_RC + 1"

lemma cmp_columns:
  "COL_CMP_OP0 = 0" "COL_CMP_OP1 = 1" "COL_CMP_GTE = 2" "COL_CMP_ABS_DIFF = 3" "COL_CMP_ABS_DIFF_INV = 4"
  "COL_CMP_FILTER_LOOKING_RC = 5" "COL_NUM_CMP = 6"
  by (simp_all add: COL_CMP_OP0_def COL_CMP_OP1_def COL_CMP_GTE_def COL_CMP_ABS_DIFF_def COL_CMP_ABS_DIFF_INV_def
    COL_CMP_FILTER_LOOKING_RC_def COL_NUM_CMP_def)

definition cmp_eval :: "row \<Rightarrow> row \<Rightarrow> emit list" where
  "cmp_eval lv nv =
     (let op0 = lv COL_CMP_OP0;
          op1 = lv COL_CMP_OP1;
          gte = lv COL_CMP_GTE;
          abs_diff = lv COL_CMP_ABS_DIFF;
          abs_diff_inv = lv COL_CMP_ABS_DIFF_INV
      in [Always (gte * (1 - gte)),
          Always (gte * (op0 - op1 - abs_diff)),
          Always ((1 - gte) * (op1 - op0 - abs_diff)),
          Always ((1 - gte) * (1 - abs_diff * abs_diff_inv))])"

definition cmp_ctl_data_with_rangecheck :: "Column list" where
  "cmp_ctl_data_with_rangecheck = Column_singles [COL_CMP_ABS_DIFF]"

definition cmp_ctl_filter_with_rangecheck :: Column where
  "cmp_ctl_filter_with_rangecheck = Column_single COL_CMP_FILTER_LOOKING_RC"

definition cmp_ctl_data_with_cpu :: "Column list" where
  "cmp_ctl_data_with_cpu = Column_singles [COL_CMP_OP0, COL_CMP_OP1, COL_CMP_GTE]"

definition cmp_ctl_filter_with_cpu :: Column where
  "cmp_ctl_filter_with_cpu = Column_single COL_CMP_FILTER_LOOKING_RC"

definition cmp_table :: "trace \<Rightarrow> bool" where
  "cmp_table t \<longleftrightarrow> length t = COL_NUM_CMP \<and> rectangular t \<and> satisfies cmp_eval t"

subsection \<open>Generation\<close>

record CmpRow =
  cmp_op0 :: gf
  cmp_op1 :: gf
  cmp_gte :: gf
  cmp_abs_diff :: gf
  cmp_abs_diff_inv :: gf
  cmp_filter_looking_rc :: gf

definition insert_cmp :: "gf \<Rightarrow> gf \<Rightarrow> gf \<Rightarrow> gf \<Rightarrow> gf \<Rightarrow> CmpRow list \<Rightarrow> CmpRow list" where
  "insert_cmp op0 op1 value abs_diff filter_looking_rc rows =
     rows @ [\<lparr>cmp_op0 = op0, cmp_op1 = op1, cmp_gte = value, cmp_abs_diff = abs_diff,
       cmp_abs_diff_inv = (if abs_diff = 0 then 0 else inverse abs_diff), cmp_filter_looking_rc = filter_looking_rc\<rparr>]"

text \<open>The trace part of \<open>execute_inst_gte\<close>: the rows it inserts, None when it returns \<open>U32RangeCheckFail\<close>.\<close>

definition execute_inst_gte ::
  "felt \<Rightarrow> felt \<Rightarrow> RangeCheckRow list \<times> CmpRow list \<Rightarrow> (RangeCheckRow list \<times> CmpRow list) option"
where
  "execute_inst_gte op0 op1 = (\<lambda>(rcs, cmps).
     let dst = (if to_canonical_u64 op1 \<le> to_canonical_u64 op0 then 1 else 0);
         abs_diff = (if gf_eq dst 1 then gf_sub op0 op1 else gf_sub op1 op0)
     in if to_canonical_u64 abs_diff > 2 ^ 32 - 1 then None
        else Some (insert_rangecheck abs_diff (0, 0, 1, 0, 0) rcs,
          insert_cmp (gf_of op0) (gf_of op1) (gf_of dst) (gf_of abs_diff) 1 cmps))"

definition cmp_cells :: "CmpRow \<Rightarrow> (nat \<times> gf) list" where
  "cmp_cells c =
     [(COL_CMP_OP0, cmp_op0 c),
      (COL_CMP_OP1, cmp_op1 c),
      (COL_CMP_GTE, cmp_gte c),
      (COL_CMP_ABS_DIFF, cmp_abs_diff c),
      (COL_CMP_ABS_DIFF_INV, cmp_abs_diff_inv c),
      (COL_CMP_FILTER_LOOKING_RC, cmp_filter_looking_rc c)]"

definition cmp_padding :: "(nat \<times> gf) list" where
  "cmp_padding = [(COL_CMP_OP0, 1), (COL_CMP_GTE, 1), (COL_CMP_ABS_DIFF, 1), (COL_CMP_ABS_DIFF_INV, 1)]"

definition generate_cmp_trace :: "CmpRow list \<Rightarrow> trace" where
  "generate_cmp_trace cells =
     (let trace_len = length cells;
          len = ext_trace_len trace_len;
          t = set_rows 0 (map cmp_cells cells) (zero_trace COL_NUM_CMP len)
      in if trace_len \<noteq> len then set_rows trace_len (replicate (len - trace_len) cmp_padding) t else t)"

definition gen_cmp_trace :: "CmpRow list list \<Rightarrow> trace" where
  "gen_cmp_trace batch_cells = generate_cmp_trace (concat batch_cells)"

subsection \<open>Soundness\<close>

lemma cmp_rows:
  assumes "cmp_table t" "i < trace_length t"
  shows "t ! COL_CMP_GTE ! i = 1 \<and> t ! COL_CMP_OP0 ! i = t ! COL_CMP_OP1 ! i + t ! COL_CMP_ABS_DIFF ! i \<or>
    t ! COL_CMP_GTE ! i = 0 \<and> t ! COL_CMP_OP1 ! i = t ! COL_CMP_OP0 ! i + t ! COL_CMP_ABS_DIFF ! i \<and>
    t ! COL_CMP_ABS_DIFF ! i \<noteq> 0"
proof -
  let ?g = "t ! COL_CMP_GTE ! i" and ?x = "t ! COL_CMP_OP0 ! i" and ?y = "t ! COL_CMP_OP1 ! i"
  let ?d = "t ! COL_CMP_ABS_DIFF ! i" and ?e = "t ! COL_CMP_ABS_DIFF_INV ! i"
  have c: "?g * (1 - ?g) = 0" "?g * (?x - ?y - ?d) = 0" "(1 - ?g) * (?y - ?x - ?d) = 0" "(1 - ?g) * (1 - ?d * ?e) = 0"
    using assms by (simp_all add: cmp_table_def satisfies_all cmp_eval_def Let_def trace_row_def)
  show ?thesis
  proof (cases "?g = 0")
    case True
    then have "?y - ?x - ?d = 0" "1 - ?d * ?e = 0" using c(3,4) by simp_all
    then show ?thesis using True by (auto simp: algebra_simps)
  next
    case False
    then have "?g = 1" "?x - ?y - ?d = 0" using c(1,2) by simp_all
    then show ?thesis by (auto simp: algebra_simps)
  qed
qed

lemma small_sum:
  assumes "gf_int x = gf_int (y + d :: gf)" "gf_int y < 2 ^ 32" "gf_int d < 2 ^ 32"
  shows "gf_int x = gf_int y + gf_int d"
proof -
  have "y + d = of_int (gf_int y + gf_int d)" by (simp add: of_int_gf_int)
  then have "gf_int x = (gf_int y + gf_int d) mod gf_p" using assms(1) by (simp only: gf_int_of_int)
  also have "\<dots> = gf_int y + gf_int d"
    using assms(2,3) gf_int [of y] gf_int [of d] by (intro mod_pos_pos_trivial) (simp_all add: gf_p_def)
  finally show ?thesis .
qed

lemma cmp_decides:
  assumes "cmp_table t" "i < trace_length t" "gf_int (t ! COL_CMP_ABS_DIFF ! i) < 2 ^ 32"
    "gf_int (t ! COL_CMP_OP0 ! i) < 2 ^ 32" "gf_int (t ! COL_CMP_OP1 ! i) < 2 ^ 32"
  shows "t ! COL_CMP_GTE ! i = (if gf_int (t ! COL_CMP_OP1 ! i) \<le> gf_int (t ! COL_CMP_OP0 ! i) then 1 else 0)"
  using cmp_rows [OF assms(1,2)]
proof (elim disjE conjE)
  assume g: "t ! COL_CMP_GTE ! i = 1" "t ! COL_CMP_OP0 ! i = t ! COL_CMP_OP1 ! i + t ! COL_CMP_ABS_DIFF ! i"
  then have "gf_int (t ! COL_CMP_OP0 ! i) = gf_int (t ! COL_CMP_OP1 ! i) + gf_int (t ! COL_CMP_ABS_DIFF ! i)"
    using assms(3,5) by (intro small_sum) simp_all
  then show ?thesis using g(1) gf_int [of "t ! COL_CMP_ABS_DIFF ! i"] by simp
next
  assume g: "t ! COL_CMP_GTE ! i = 0" "t ! COL_CMP_OP1 ! i = t ! COL_CMP_OP0 ! i + t ! COL_CMP_ABS_DIFF ! i"
    "t ! COL_CMP_ABS_DIFF ! i \<noteq> 0"
  then have "gf_int (t ! COL_CMP_OP1 ! i) = gf_int (t ! COL_CMP_OP0 ! i) + gf_int (t ! COL_CMP_ABS_DIFF ! i)"
    using assms(3,4) by (intro small_sum) simp_all
  moreover have "gf_int (t ! COL_CMP_ABS_DIFF ! i) \<noteq> 0" using g(3) by (metis gf_int_01(1) gf_int_inject)
  ultimately show ?thesis using g(1) gf_int [of "t ! COL_CMP_ABS_DIFF ! i"] by simp
qed

subsection \<open>Completeness\<close>

definition cmp_row_ok :: "row \<Rightarrow> bool" where
  "cmp_row_ok v \<longleftrightarrow> v COL_CMP_GTE = 1 \<and> v COL_CMP_OP0 - v COL_CMP_OP1 = v COL_CMP_ABS_DIFF \<or>
     v COL_CMP_GTE = 0 \<and> v COL_CMP_OP1 - v COL_CMP_OP0 = v COL_CMP_ABS_DIFF \<and> v COL_CMP_ABS_DIFF * v COL_CMP_ABS_DIFF_INV = 1"

lemma cmp_row_ok: "cmp_row_ok lv \<Longrightarrow> list_all (emit_holds n i) (cmp_eval lv nv)"
  by (auto simp: cmp_row_ok_def cmp_eval_def Let_def)

lemma generate_cmp_trace:
  fixes cells :: "CmpRow list"
  defines "t \<equiv> generate_cmp_trace cells"
  shows "length t = COL_NUM_CMP" "rectangular t"
    "d < COL_NUM_CMP \<Longrightarrow> i < trace_length t \<Longrightarrow>
       t ! d ! i = cell_value (if i < length cells then cmp_cells (cells ! i) else cmp_padding) d 0"
proof -
  let ?len = "ext_trace_len (length cells)" and ?n = "length cells"
  let ?a = "set_rows 0 (map cmp_cells cells) (zero_trace COL_NUM_CMP ?len)"
  have n: "?n \<le> ?len" by (rule ext_trace_len)
  have t: "t = set_rows ?n (replicate (?len - ?n) cmp_padding) ?a"
    using n by (auto simp: t_def generate_cmp_trace_def Let_def)
  show l: "length t = COL_NUM_CMP" by (simp add: t)
  have c: "length (t ! d) = ?len" if "d < COL_NUM_CMP" for d using that by (simp add: t)
  have tl: "trace_length t = ?len" using c [of 0] by (simp add: trace_length_def cmp_columns)
  show "rectangular t" using c l tl by (simp add: rectangular_def list_all_length)
  show "t ! d ! i = cell_value (if i < ?n then cmp_cells (cells ! i) else cmp_padding) d 0"
    if "d < COL_NUM_CMP" "i < trace_length t"
    using that n tl by (auto simp: t nth_set_rows)
qed

lemma cmp_cells_ok:
  assumes "cmp_gte c = 1 \<and> cmp_op0 c - cmp_op1 c = cmp_abs_diff c \<or>
    cmp_gte c = 0 \<and> cmp_op1 c - cmp_op0 c = cmp_abs_diff c \<and> cmp_abs_diff c * cmp_abs_diff_inv c = 1"
  shows "cmp_row_ok (\<lambda>d. cell_value (cmp_cells c) d 0)"
  using assms by (auto simp: cmp_row_ok_def cmp_cells_def cmp_columns)

lemma cmp_padding_ok: "cmp_row_ok (\<lambda>d. cell_value cmp_padding d 0)"
  by (simp add: cmp_row_ok_def cmp_padding_def cmp_columns)

lemma generated_cmp_table:
  assumes "\<And>c. c \<in> set cells \<Longrightarrow> cmp_row_ok (\<lambda>d. cell_value (cmp_cells c) d 0)"
  shows "cmp_table (generate_cmp_trace cells)"
proof -
  let ?t = "generate_cmp_trace cells"
  have "cmp_row_ok (trace_row ?t i)" if "i < trace_length ?t" for i
  proof -
    let ?v = "\<lambda>d. cell_value (if i < length cells then cmp_cells (cells ! i) else cmp_padding) d 0"
    have "cmp_row_ok ?v" using assms cmp_padding_ok by (cases "i < length cells") simp_all
    moreover have "trace_row ?t i d = ?v d" if "d < COL_NUM_CMP" for d
      using generate_cmp_trace(3) [of d i cells] that \<open>i < trace_length ?t\<close> by (simp add: trace_row_def)
    ultimately show ?thesis by (simp add: cmp_row_ok_def cmp_columns)
  qed
  then show ?thesis
    using generate_cmp_trace(1,2) [of cells] by (simp add: cmp_table_def satisfies_all cmp_row_ok)
qed

text \<open>The rows of a sequence of \<open>gte\<close> instructions, those that fail the range check apart.\<close>

definition gte_rows :: "(felt \<times> felt) list \<Rightarrow> RangeCheckRow list \<times> CmpRow list" where
  "gte_rows ops = fold (\<lambda>(x, y) rows. case execute_inst_gte x y rows of Some rows' \<Rightarrow> rows' | None \<Rightarrow> rows) ops ([], [])"

lemma gte_rows_ok:
  assumes "c \<in> set (snd (gte_rows ops))"
  shows "cmp_row_ok (\<lambda>d. cell_value (cmp_cells c) d 0)"
proof -
  let ?ok = "\<lambda>c. cmp_row_ok (\<lambda>d. cell_value (cmp_cells c) d 0)"
  have step: "\<forall>c \<in> set (snd (case execute_inst_gte x y rows of Some rows' \<Rightarrow> rows' | None \<Rightarrow> rows)). ?ok c"
    if "\<forall>c \<in> set (snd rows). ?ok c" for x y rows
  proof -
    have ne: "gf_of x \<noteq> gf_of y" if "\<not> to_canonical_u64 y \<le> to_canonical_u64 x"
      using that by (auto simp: gf_of_eq_iff gf_eq_def)
    have dst: "gf_eq 1 1" "\<not> gf_eq 0 1" by (simp_all add: gf_eq_iff)
    show ?thesis
      using that ne by (cases rows)
        (auto simp: execute_inst_gte_def Let_def insert_cmp_def dst gf_of_ops intro!: cmp_cells_ok)
  qed
  have "\<forall>c \<in> set (snd (fold (\<lambda>(x, y) rows. case execute_inst_gte x y rows of Some rows' \<Rightarrow> rows' | None \<Rightarrow> rows) ops rows)). ?ok c"
    if "\<forall>c \<in> set (snd rows). ?ok c" for rows
    using that
  proof (induction ops arbitrary: rows)
    case (Cons xy ops)
    then show ?case using step [of rows "fst xy" "snd xy"] by (simp add: case_prod_unfold)
  qed simp
  from this [of "([], [])"] show ?thesis using assms by (simp add: gte_rows_def)
qed

text \<open>
  C0: comparisons. When the comparison and the range-check table are accepted, the fixed column
  holds 16-bit values and the lookup between the two tables holds, a selected row with 32-bit operands has the result 1
  exactly when the first operand is at least the second, and 0 otherwise; and the table generated from the
  rows of any sequence of \<open>gte\<close> instructions is accepted.
\<close>

theorem cmp_table_decides:
  "(cmp_table t \<and> rc_table u \<and> (\<forall>x \<in> set (u ! FIX_RANGE_CHECK_U16). gf_int x < 65536) \<and>
    mset (table_rows u rc_ctl_data_with_cmp (Some rc_ctl_filter_with_cmp)) =
      mset (table_rows t cmp_ctl_data_with_rangecheck (Some cmp_ctl_filter_with_rangecheck)) \<and>
    i < trace_length t \<and> t ! COL_CMP_FILTER_LOOKING_RC ! i = 1 \<and>
    gf_int (t ! COL_CMP_OP0 ! i) < 2 ^ 32 \<and> gf_int (t ! COL_CMP_OP1 ! i) < 2 ^ 32 \<longrightarrow>
    t ! COL_CMP_GTE ! i = (if gf_int (t ! COL_CMP_OP1 ! i) \<le> gf_int (t ! COL_CMP_OP0 ! i) then 1 else 0)) \<and>
   cmp_table (generate_cmp_trace (snd (gte_rows ops)))"
proof (intro conjI impI, elim conjE)
  assume t: "cmp_table t" and u: "rc_table u" "\<forall>x \<in> set (u ! FIX_RANGE_CHECK_U16). gf_int x < 65536"
    and l: "mset (table_rows u rc_ctl_data_with_cmp (Some rc_ctl_filter_with_cmp)) =
      mset (table_rows t cmp_ctl_data_with_rangecheck (Some cmp_ctl_filter_with_rangecheck))"
    and i: "i < trace_length t" "t ! COL_CMP_FILTER_LOOKING_RC ! i = 1"
    and ops: "gf_int (t ! COL_CMP_OP0 ! i) < 2 ^ 32" "gf_int (t ! COL_CMP_OP1 ! i) < 2 ^ 32"
  have "rectangular u" "RC_VAL < length u" using u(1) by (simp_all add: rc_table_def rc_columns)
  then have "t ! COL_CMP_ABS_DIFF ! i \<in> set (u ! RC_VAL)"
    using lookup_value [OF l [unfolded rc_ctl_data_with_cmp_def rc_ctl_filter_with_cmp_def
      cmp_ctl_data_with_rangecheck_def cmp_ctl_filter_with_rangecheck_def] i] by simp
  then show "t ! COL_CMP_GTE ! i = (if gf_int (t ! COL_CMP_OP1 ! i) \<le> gf_int (t ! COL_CMP_OP0 ! i) then 1 else 0)"
    using rc_table_bound [OF u] cmp_decides [OF t i(1)] ops by blast
next
  show "cmp_table (generate_cmp_trace (snd (gte_rows ops)))"
    using gte_rows_ok by (intro generated_cmp_table) blast
qed

end
