(* ===== verification/MemoryTable.thy ===== *)
theory MemoryTable
  imports TraceGen Opcodes
begin

text \<open>
  The memory table (\<open>circuits/src/memory\<close>) and its generation (\<open>circuits/src/generation/memory.rs\<close>): accesses
  sorted by transaction, environment and address, constrained so that a read repeats the row before it.
\<close>

subsection \<open>Columns\<close>

definition COL_MEM_TX_IDX :: nat where [simp]: "COL_MEM_TX_IDX = 0"
definition COL_MEM_ENV_IDX :: nat where [simp]: "COL_MEM_ENV_IDX = 1"
definition COL_MEM_IS_RW :: nat where [simp]: "COL_MEM_IS_RW = 2"
definition COL_MEM_ADDR :: nat where [simp]: "COL_MEM_ADDR = 3"
definition COL_MEM_CLK :: nat where [simp]: "COL_MEM_CLK = 4"
definition COL_MEM_OP :: nat where [simp]: "COL_MEM_OP = 5"
definition COL_MEM_S_MLOAD :: nat where [simp]: "COL_MEM_S_MLOAD = 6"
definition COL_MEM_S_MSTORE :: nat where [simp]: "COL_MEM_S_MSTORE = 7"
definition COL_MEM_S_CALL :: nat where [simp]: "COL_MEM_S_CALL = 8"
definition COL_MEM_S_RET :: nat where [simp]: "COL_MEM_S_RET = 9"
definition COL_MEM_S_TLOAD :: nat where [simp]: "COL_MEM_S_TLOAD = 10"
definition COL_MEM_S_TSTORE :: nat where [simp]: "COL_MEM_S_TSTORE = 11"
definition COL_MEM_S_SCCALL :: nat where [simp]: "COL_MEM_S_SCCALL = 12"
definition COL_MEM_S_POSEIDON :: nat where [simp]: "COL_MEM_S_POSEIDON = 13"
definition COL_MEM_S_SSTORE :: nat where [simp]: "COL_MEM_S_SSTORE = 14"
definition COL_MEM_S_SLOAD :: nat where [simp]: "COL_MEM_S_SLOAD = 15"
definition COL_MEM_S_PROPHET :: nat where [simp]: "COL_MEM_S_PROPHET = 16"
definition COL_MEM_IS_WRITE :: nat where [simp]: "COL_MEM_IS_WRITE = 17"
definition COL_MEM_VALUE :: nat where [simp]: "COL_MEM_VALUE = 18"
definition COL_MEM_DIFF_ADDR :: nat where [simp]: "COL_MEM_DIFF_ADDR = 19"
definition COL_MEM_DIFF_ADDR_INV :: nat where [simp]: "COL_MEM_DIFF_ADDR_INV = 20"
definition COL_MEM_DIFF_CLK :: nat where [simp]: "COL_MEM_DIFF_CLK = 21"
definition COL_MEM_DIFF_ADDR_COND :: nat where [simp]: "COL_MEM_DIFF_ADDR_COND = 22"
definition COL_MEM_RW_ADDR_UNCHANGED :: nat where [simp]: "COL_MEM_RW_ADDR_UNCHANGED = 23"
definition COL_MEM_REGION_PROPHET :: nat where [simp]: "COL_MEM_REGION_PROPHET = 24"
definition COL_MEM_REGION_HEAP :: nat where [simp]: "COL_MEM_REGION_HEAP = 25"
definition COL_MEM_RC_VALUE :: nat where [simp]: "COL_MEM_RC_VALUE = 26"
definition COL_MEM_FILTER_LOOKING_RC :: nat where [simp]: "COL_MEM_FILTER_LOOKING_RC = 27"
definition COL_MEM_FILTER_LOOKING_RC_COND :: nat where [simp]: "COL_MEM_FILTER_LOOKING_RC_COND = 28"
definition NUM_MEM_COLS :: nat where [simp]: "NUM_MEM_COLS = 29"

definition ADDR_HEAP_PTR :: u64 where "ADDR_HEAP_PTR = 18446744060824649731"

definition INIT_VALUE_HEAP_PTR :: u64 where "INIT_VALUE_HEAP_PTR = ADDR_HEAP_PTR + 1"

subsection \<open>Lookups\<close>

definition ctl_data_mem_rc_diff_cond :: "Column list" where
  "ctl_data_mem_rc_diff_cond = [Column_single COL_MEM_DIFF_ADDR_COND]"

definition ctl_filter_mem_rc_diff_cond :: Column where
  "ctl_filter_mem_rc_diff_cond = Column_single COL_MEM_FILTER_LOOKING_RC_COND"

definition ctl_data_mem_sort_rc :: "Column list" where
  "ctl_data_mem_sort_rc = [Column_single COL_MEM_RC_VALUE]"

definition ctl_filter_mem_sort_rc :: Column where
  "ctl_filter_mem_sort_rc = Column_single COL_MEM_FILTER_LOOKING_RC"

definition mem_ctl_data :: "Column list" where
  "mem_ctl_data = Column_singles
     [COL_MEM_TX_IDX, COL_MEM_ENV_IDX, COL_MEM_CLK, COL_MEM_OP, COL_MEM_ADDR, COL_MEM_VALUE]"

definition mem_ctl_filter :: Column where
  "mem_ctl_filter = Column_sum
     [COL_MEM_S_MLOAD, COL_MEM_S_MSTORE, COL_MEM_S_CALL, COL_MEM_S_RET, COL_MEM_S_TLOAD, COL_MEM_S_TSTORE,
      COL_MEM_S_SCCALL, COL_MEM_S_SSTORE, COL_MEM_S_SLOAD]"

definition mem_ctl_data_with_poseidon_chunk :: "Column list" where
  "mem_ctl_data_with_poseidon_chunk = Column_singles
     [COL_MEM_TX_IDX, COL_MEM_ENV_IDX, COL_MEM_CLK, COL_MEM_OP, COL_MEM_ADDR, COL_MEM_VALUE, COL_MEM_IS_WRITE]"

definition mem_ctl_filter_with_poseidon_chunk :: Column where
  "mem_ctl_filter_with_poseidon_chunk = Column_single COL_MEM_S_POSEIDON"

subsection \<open>Constraints\<close>

definition op_felt :: "OlaOpcode \<Rightarrow> gf" where
  "op_felt opc = gf_of (binary_bit_mask opc)"

text \<open>Opcode and selector match, selectors are binary, and exactly one is set.\<close>

definition mem_selector_cs :: "row \<Rightarrow> emit list" where
  "mem_selector_cs lv =
     (let sels = [COL_MEM_S_MLOAD, COL_MEM_S_MSTORE, COL_MEM_S_CALL, COL_MEM_S_RET, COL_MEM_S_TLOAD, COL_MEM_S_TSTORE,
            COL_MEM_S_SCCALL, COL_MEM_S_POSEIDON, COL_MEM_S_SSTORE, COL_MEM_S_SLOAD, COL_MEM_S_PROPHET];
          ops = [op_felt MLOAD, op_felt MSTORE, op_felt CALL, op_felt RET, op_felt TLOAD, op_felt TSTORE, op_felt SCCALL,
            op_felt POSEIDON, op_felt SSTORE, op_felt SLOAD, 0]
      in map2 (\<lambda>opc s. Always ((lv COL_MEM_OP - opc) * lv s)) ops sels @
         map (\<lambda>s. Always ((1 - lv s) * lv s)) sels @
         [Always (1 - lv COL_MEM_S_MLOAD - lv COL_MEM_S_MSTORE - lv COL_MEM_S_CALL - lv COL_MEM_S_RET
            - lv COL_MEM_S_TLOAD - lv COL_MEM_S_TSTORE - lv COL_MEM_S_SCCALL - lv COL_MEM_S_POSEIDON
            - lv COL_MEM_S_SSTORE - lv COL_MEM_S_SLOAD - lv COL_MEM_S_PROPHET)])"

definition mem_rw_cs :: "row \<Rightarrow> emit list" where
  "mem_rw_cs lv =
     [Always (lv COL_MEM_IS_RW * (1 - lv COL_MEM_IS_RW)),
      Always (lv COL_MEM_IS_RW * lv COL_MEM_S_PROPHET),
      Always ((1 - lv COL_MEM_IS_RW) * (1 - lv COL_MEM_S_PROPHET - lv COL_MEM_S_MLOAD)),
      Always (lv COL_MEM_IS_WRITE * (1 - lv COL_MEM_S_MSTORE - lv COL_MEM_S_CALL - lv COL_MEM_S_TLOAD
        - lv COL_MEM_S_POSEIDON - lv COL_MEM_S_SLOAD - lv COL_MEM_S_PROPHET)),
      Always ((1 - lv COL_MEM_IS_WRITE) * (1 - lv COL_MEM_S_MLOAD - lv COL_MEM_S_CALL - lv COL_MEM_S_RET
        - lv COL_MEM_S_TSTORE - lv COL_MEM_S_SCCALL - lv COL_MEM_S_POSEIDON - lv COL_MEM_S_SSTORE - lv COL_MEM_S_SLOAD))]"

definition mem_region_cs :: "row \<Rightarrow> emit list" where
  "mem_region_cs lv =
     (let p = 0;
          span = 2 ^ 32 - 1;
          region_prophet = lv COL_MEM_REGION_PROPHET;
          region_heap = lv COL_MEM_REGION_HEAP;
          region_stack = 1 - lv COL_MEM_REGION_HEAP - lv COL_MEM_REGION_PROPHET;
          addr = lv COL_MEM_ADDR;
          diff_addr_cond = lv COL_MEM_DIFF_ADDR_COND
      in [Always (1 - region_stack - region_heap - region_prophet),
          Always (region_stack * (1 - region_stack)),
          Always (region_heap * (1 - region_heap)),
          Always (region_prophet * (1 - region_prophet)),
          Always (region_prophet * (p - addr - diff_addr_cond)),
          Always (region_heap * (p - span - addr - diff_addr_cond))])"

text \<open>Same transaction and environment in the next row; each factor is one when the index does not change.\<close>

definition mem_same_env :: "row \<Rightarrow> row \<Rightarrow> gf" where
  "mem_same_env lv nv =
     (1 - nv COL_MEM_TX_IDX + lv COL_MEM_TX_IDX) * (1 - nv COL_MEM_ENV_IDX + lv COL_MEM_ENV_IDX)"

definition mem_sort_cs :: "row \<Rightarrow> row \<Rightarrow> emit list" where
  "mem_sort_cs lv nv =
     (let region_prophet = lv COL_MEM_REGION_PROPHET;
          nv_region_prophet = nv COL_MEM_REGION_PROPHET;
          region_heap = lv COL_MEM_REGION_HEAP;
          nv_region_heap = nv COL_MEM_REGION_HEAP;
          region_stack = 1 - lv COL_MEM_REGION_HEAP - lv COL_MEM_REGION_PROPHET;
          nv_region_stack = 1 - nv COL_MEM_REGION_HEAP - nv COL_MEM_REGION_PROPHET;
          addr = lv COL_MEM_ADDR;
          nv_addr = nv COL_MEM_ADDR;
          nv_diff_addr = nv COL_MEM_DIFF_ADDR;
          nv_diff_addr_inv = nv COL_MEM_DIFF_ADDR_INV;
          nv_rw_addr_unchanged = nv COL_MEM_RW_ADDR_UNCHANGED;
          nv_is_write = nv COL_MEM_IS_WRITE
      in [Transition (mem_same_env lv nv * (nv_region_heap - region_heap - 1) * (nv_addr - addr - nv_diff_addr)),
          Transition (mem_same_env lv nv * region_stack * nv_region_stack
            * (1 - nv_rw_addr_unchanged - nv_diff_addr * nv_diff_addr_inv)),
          Transition (mem_same_env lv nv * region_heap * nv_region_heap
            * (1 - nv_rw_addr_unchanged - nv_diff_addr * nv_diff_addr_inv)),
          Always (region_prophet * nv_region_prophet * (nv_addr - addr) * (nv_addr - addr - 1)),
          Always (region_prophet * nv_region_prophet * (nv_addr - addr - 1) * nv_is_write)])"

text \<open>A read repeats the row before it, the first read of the heap pointer apart.\<close>

definition mem_read_cs :: "row \<Rightarrow> row \<Rightarrow> emit list" where
  "mem_read_cs lv nv =
     (let addr_heap_ptr = gf_of ADDR_HEAP_PTR;
          is_rw = lv COL_MEM_IS_RW;
          is_write = lv COL_MEM_IS_WRITE;
          nv_is_write = nv COL_MEM_IS_WRITE;
          addr = lv COL_MEM_ADDR;
          nv_addr = nv COL_MEM_ADDR;
          value = lv COL_MEM_VALUE;
          nv_value = nv COL_MEM_VALUE;
          is_next_addr_heap_ptr = (if nv_addr - gf_of ADDR_HEAP_PTR = 0 then 1 else 0)
      in [First_row (is_rw * (1 - is_write) * (addr - addr_heap_ptr)),
          Always ((nv COL_MEM_TX_IDX - lv COL_MEM_TX_IDX) * (nv COL_MEM_ENV_IDX - lv COL_MEM_ENV_IDX)
            * nv COL_MEM_IS_RW * (1 - nv_is_write) * (nv_addr - addr_heap_ptr)),
          Always ((nv_addr - addr) * (1 - nv_is_write) * (nv_addr - addr_heap_ptr)),
          Always ((1 - nv_is_write) * (nv_value - value) * (nv_addr - addr_heap_ptr)),
          Always (is_next_addr_heap_ptr * (nv_addr - gf_of ADDR_HEAP_PTR)),
          Always ((addr - gf_of ADDR_HEAP_PTR) * is_next_addr_heap_ptr * (1 - nv_is_write)
            * (nv_value - gf_of INIT_VALUE_HEAP_PTR))])"

definition mem_rc_cs :: "row \<Rightarrow> row \<Rightarrow> emit list" where
  "mem_rc_cs lv nv =
     (let is_rw = lv COL_MEM_IS_RW;
          is_write = lv COL_MEM_IS_WRITE;
          region_prophet = lv COL_MEM_REGION_PROPHET;
          region_heap = lv COL_MEM_REGION_HEAP;
          nv_region_heap = nv COL_MEM_REGION_HEAP;
          rw_addr_unchanged = lv COL_MEM_RW_ADDR_UNCHANGED;
          diff_clk = lv COL_MEM_DIFF_CLK;
          diff_addr = lv COL_MEM_DIFF_ADDR;
          rc_value = lv COL_MEM_RC_VALUE;
          filter_looking_rc = lv COL_MEM_FILTER_LOOKING_RC;
          lv_filter_looking_rc_cond = lv COL_MEM_FILTER_LOOKING_RC_COND
      in [Transition (mem_same_env lv nv * is_rw * (nv_region_heap - region_heap - 1)
            * (rc_value - rw_addr_unchanged * diff_clk) * (rc_value - (1 - rw_addr_unchanged) * diff_addr)),
          Transition (mem_same_env lv nv * is_rw * rc_value * (nv_region_heap - region_heap - 1) * (1 - filter_looking_rc)),
          Always ((1 - lv_filter_looking_rc_cond) * region_heap),
          Always ((1 - lv_filter_looking_rc_cond) * region_prophet * (1 - is_write))])"

definition mem_eval :: "row \<Rightarrow> row \<Rightarrow> emit list" where
  "mem_eval lv nv =
     [Transition ((nv COL_MEM_TX_IDX - lv COL_MEM_TX_IDX) * (1 - nv COL_MEM_TX_IDX + lv COL_MEM_TX_IDX)),
      Transition ((1 - nv COL_MEM_TX_IDX + lv COL_MEM_TX_IDX) * (nv COL_MEM_ENV_IDX - lv COL_MEM_ENV_IDX)
        * (1 - nv COL_MEM_ENV_IDX + lv COL_MEM_ENV_IDX))] @
     mem_selector_cs lv @ mem_rw_cs lv @ mem_region_cs lv @ mem_sort_cs lv nv @ mem_read_cs lv nv @ mem_rc_cs lv nv"

definition mem_table :: "trace \<Rightarrow> bool" where
  "mem_table t \<longleftrightarrow> length t = NUM_MEM_COLS \<and> rectangular t \<and> satisfies mem_eval t"

subsection \<open>Generation\<close>

text \<open>A row of the executor's memory trace; \<open>filter_looked_for_main\<close> is not read by the generation.\<close>

record MemoryTraceCell =
  mc_env_idx :: felt
  mc_addr :: felt
  mc_clk :: felt
  mc_is_rw :: felt
  mc_op :: felt
  mc_is_write :: felt
  mc_diff_addr :: felt
  mc_diff_addr_inv :: felt
  mc_diff_clk :: felt
  mc_diff_addr_cond :: felt
  mc_filter_looked_for_main :: felt
  mc_rw_addr_unchanged :: felt
  mc_region_prophet :: felt
  mc_region_heap :: felt
  mc_value :: felt
  mc_rc_value :: felt

definition opcode_to_selector :: "u64 \<Rightarrow> nat option" where
  "opcode_to_selector = map_of
     [(binary_bit_mask MLOAD, COL_MEM_S_MLOAD), (binary_bit_mask MSTORE, COL_MEM_S_MSTORE),
      (binary_bit_mask CALL, COL_MEM_S_CALL), (binary_bit_mask RET, COL_MEM_S_RET),
      (binary_bit_mask TLOAD, COL_MEM_S_TLOAD), (binary_bit_mask TSTORE, COL_MEM_S_TSTORE),
      (binary_bit_mask SCCALL, COL_MEM_S_SCCALL), (binary_bit_mask POSEIDON, COL_MEM_S_POSEIDON),
      (binary_bit_mask SSTORE, COL_MEM_S_SSTORE), (binary_bit_mask SLOAD, COL_MEM_S_SLOAD),
      (0, COL_MEM_S_PROPHET)]"

text \<open>The cells of the row of \<open>c\<close>; \<open>prev\<close> is the cell read for \<open>last_is_not_heap\<close>, None in row zero.\<close>

definition mem_cells :: "gf \<Rightarrow> MemoryTraceCell option \<Rightarrow> MemoryTraceCell \<Rightarrow> (nat \<times> gf) list" where
  "mem_cells tx_idx prev c =
     (let is_one = (\<lambda>x. to_canonical_u64 x = 1);
          curr_is_heap = is_one (mc_region_heap c);
          last_is_not_heap = (case prev of None \<Rightarrow> False | Some q \<Rightarrow> to_canonical_u64 (mc_region_heap q) = 0)
      in [(COL_MEM_TX_IDX, tx_idx),
          (COL_MEM_ENV_IDX, gf_of (mc_env_idx c)),
          (COL_MEM_IS_RW, gf_of (mc_is_rw c)),
          (COL_MEM_ADDR, gf_of (mc_addr c)),
          (COL_MEM_CLK, gf_of (mc_clk c)),
          (COL_MEM_OP, gf_of (mc_op c))] @
         (case opcode_to_selector (mc_op c) of Some selector \<Rightarrow> [(selector, 1)] | None \<Rightarrow> []) @
         [(COL_MEM_IS_WRITE, gf_of (mc_is_write c)),
          (COL_MEM_VALUE, gf_of (mc_value c)),
          (COL_MEM_DIFF_ADDR, gf_of (mc_diff_addr c)),
          (COL_MEM_DIFF_ADDR_INV, gf_of (mc_diff_addr_inv c)),
          (COL_MEM_DIFF_CLK, gf_of (mc_diff_clk c)),
          (COL_MEM_DIFF_ADDR_COND, gf_of (mc_diff_addr_cond c)),
          (COL_MEM_RW_ADDR_UNCHANGED, gf_of (mc_rw_addr_unchanged c)),
          (COL_MEM_REGION_PROPHET, gf_of (mc_region_prophet c)),
          (COL_MEM_REGION_HEAP, gf_of (mc_region_heap c)),
          (COL_MEM_RC_VALUE, gf_of (mc_rc_value c)),
          (COL_MEM_FILTER_LOOKING_RC,
             if prev = None then 0
             else if is_one (mc_region_prophet c) then 0
             else if curr_is_heap \<and> last_is_not_heap then 0
             else 1),
          (COL_MEM_FILTER_LOOKING_RC_COND, if is_one (mc_region_heap c) \<or> is_one (mc_region_prophet c) then 1 else 0)])"

text \<open>Row zero of an empty trace.\<close>

definition mem_empty_row :: "(nat \<times> gf) list" where
  "mem_empty_row =
     (let p = 0; span = 2 ^ 32 - 1; addr = p - span
      in [(COL_MEM_ADDR, addr), (COL_MEM_IS_WRITE, 1), (COL_MEM_DIFF_ADDR_COND, p - addr), (COL_MEM_REGION_PROPHET, 1),
          (COL_MEM_RC_VALUE, p - addr)])"

definition mem_pad_row :: "gf \<Rightarrow> gf \<Rightarrow> gf \<Rightarrow> gf \<Rightarrow> (nat \<times> gf) list" where
  "mem_pad_row tx_idx env_idx addr diff =
     (let p = 0
      in [(COL_MEM_S_PROPHET, 1), (COL_MEM_TX_IDX, tx_idx), (COL_MEM_ENV_IDX, env_idx), (COL_MEM_ADDR, addr),
          (COL_MEM_IS_WRITE, 1), (COL_MEM_DIFF_ADDR, diff), (COL_MEM_DIFF_ADDR_INV, inverse diff),
          (COL_MEM_DIFF_ADDR_COND, p - addr), (COL_MEM_REGION_PROPHET, 1), (COL_MEM_RC_VALUE, p - addr)])"

text \<open>Padding from row \<open>n\<close> on; None when \<open>inverse\<close> is applied to zero, which panics.\<close>

definition mem_pad :: "nat \<Rightarrow> nat \<Rightarrow> trace \<Rightarrow> trace option" where
  "mem_pad n len t =
     (if len \<noteq> n then
        (let p = 0;
             span = 2 ^ 32 - 1;
             last_addr = t ! COL_MEM_ADDR ! (n - 1);
             addr = (if t ! COL_MEM_IS_RW ! (n - 1) = 1 then p - span else last_addr + 1);
             tx_idx = t ! COL_MEM_TX_IDX ! (n - 1);
             env_idx = t ! COL_MEM_ENV_IDX ! (n - 1);
             diffs = map (\<lambda>k. if k = 0 then addr - last_addr else 1) [0..<len - n]
         in if 0 \<in> set diffs then None
            else Some (set_rows n
              (map (\<lambda>(k, diff). mem_pad_row tx_idx env_idx (addr + of_nat k) diff) (enumerate 0 diffs)) t))
      else Some t)"

text \<open>The part \<open>generate_memory_trace\<close> and \<open>gen_memory_trace\<close> share: the filled rows, row zero of an empty trace, padding.\<close>

definition mem_finish :: "(nat \<times> gf) list list \<Rightarrow> trace option" where
  "mem_finish rows =
     (let n = length rows;
          len = ext_trace_len n;
          t = set_rows 0 rows (zero_trace NUM_MEM_COLS len)
      in if n = 0 then mem_pad 1 len (set_row 0 mem_empty_row t) else mem_pad n len t)"

definition generate_memory_trace :: "MemoryTraceCell list \<Rightarrow> trace option" where
  "generate_memory_trace cells =
     mem_finish (map (\<lambda>i. mem_cells 0 (if i = 0 then None else Some (cells ! (i - 1))) (cells ! i)) [0..<length cells])"

text \<open>
  The rows of one transaction of a batch. Row \<open>i\<close> counts over the batch, and the cell before it is looked up in the
  transaction's own list: \<open>None\<close> is the index out of bounds, a panic.
\<close>

fun mem_tx_rows :: "nat \<Rightarrow> gf \<Rightarrow> MemoryTraceCell list \<Rightarrow> MemoryTraceCell list \<Rightarrow> (nat \<times> gf) list list option" where
  "mem_tx_rows i tx_idx tx_cells [] = Some []"
| "mem_tx_rows i tx_idx tx_cells (c # cs) =
     (if 0 < i \<and> length tx_cells \<le> i - 1 then None
      else map_option ((#) (mem_cells tx_idx (if i = 0 then None else Some (tx_cells ! (i - 1))) c))
        (mem_tx_rows (Suc i) tx_idx tx_cells cs))"

fun mem_batch_rows :: "nat \<Rightarrow> nat \<Rightarrow> MemoryTraceCell list list \<Rightarrow> (nat \<times> gf) list list option" where
  "mem_batch_rows i tx_idx [] = Some []"
| "mem_batch_rows i tx_idx (tx_cells # batch) =
     (case mem_tx_rows i (of_nat tx_idx) tx_cells tx_cells of
        None \<Rightarrow> None
      | Some rows \<Rightarrow> map_option ((@) rows) (mem_batch_rows (i + length tx_cells) (Suc tx_idx) batch))"

definition gen_memory_trace :: "MemoryTraceCell list list \<Rightarrow> trace option" where
  "gen_memory_trace batch_cells =
     (case mem_batch_rows 0 0 batch_cells of None \<Rightarrow> None | Some rows \<Rightarrow> mem_finish rows)"

subsection \<open>Reads\<close>

lemma mem_read_cs_hold:
  assumes "mem_table t" "i < trace_length t" "j = Suc i mod trace_length t"
  shows "list_all (emit_holds (trace_length t) i) (mem_read_cs (trace_row t i) (trace_row t j))"
  using assms(1,2) unfolding mem_table_def satisfies_all assms(3) mem_eval_def by simp

lemma mem_read_step:
  assumes "mem_table t" "i < trace_length t" "j = Suc i mod trace_length t"
  shows "t ! COL_MEM_IS_WRITE ! j = 1 \<or> t ! COL_MEM_ADDR ! j = gf_of ADDR_HEAP_PTR \<or>
    t ! COL_MEM_ADDR ! j = t ! COL_MEM_ADDR ! i \<and> t ! COL_MEM_VALUE ! j = t ! COL_MEM_VALUE ! i"
  using mem_read_cs_hold [OF assms] by (auto simp: mem_read_cs_def Let_def trace_row_def)

lemma mem_first_row:
  assumes "mem_table t" "0 < trace_length t"
  shows "t ! COL_MEM_IS_WRITE ! 0 = 1 \<or> t ! COL_MEM_ADDR ! 0 = gf_of ADDR_HEAP_PTR \<or> t ! COL_MEM_IS_RW ! 0 = 0"
proof -
  obtain j where "j = Suc 0 mod trace_length t" by blast
  from mem_read_cs_hold [OF assms this] show ?thesis by (auto simp: mem_read_cs_def Let_def trace_row_def)
qed

text \<open>Row \<open>i\<close> holds what row \<open>j\<close> wrote, all rows between being reads of the same address.\<close>

definition mem_served_by :: "trace \<Rightarrow> nat \<Rightarrow> nat \<Rightarrow> bool" where
  "mem_served_by t i j \<longleftrightarrow> j \<le> i \<and> (t ! COL_MEM_IS_WRITE ! j = 1 \<or> j = 0 \<and> t ! COL_MEM_IS_RW ! 0 = 0) \<and>
     list_all (\<lambda>k. t ! COL_MEM_ADDR ! k = t ! COL_MEM_ADDR ! i \<and> t ! COL_MEM_VALUE ! k = t ! COL_MEM_VALUE ! i) [j..<Suc i] \<and>
     list_all (\<lambda>k. t ! COL_MEM_IS_WRITE ! k \<noteq> 1) [Suc j..<Suc i]"

lemma mem_reads:
  assumes "mem_table t" "i < trace_length t" "t ! COL_MEM_ADDR ! i \<noteq> gf_of ADDR_HEAP_PTR"
  shows "\<exists>j. mem_served_by t i j"
  using assms(2,3)
proof (induction i)
  case 0
  then have "mem_served_by t 0 0" using mem_first_row [OF assms(1)] by (auto simp: mem_served_by_def)
  then show ?case ..
next
  case (Suc i)
  show ?case
  proof (cases "t ! COL_MEM_IS_WRITE ! Suc i = 1")
    case True
    then have "mem_served_by t (Suc i) (Suc i)" by (simp add: mem_served_by_def)
    then show ?thesis ..
  next
    case False
    then have same: "t ! COL_MEM_ADDR ! Suc i = t ! COL_MEM_ADDR ! i" "t ! COL_MEM_VALUE ! Suc i = t ! COL_MEM_VALUE ! i"
      using mem_read_step [OF assms(1), of i "Suc i"] Suc.prems by auto
    then obtain j where "mem_served_by t i j" using Suc.IH Suc.prems by auto
    then have "mem_served_by t (Suc i) j" using same False by (auto simp: mem_served_by_def)
    then show ?thesis ..
  qed
qed

text \<open>Two rows: a store of \<open>v\<close> at \<open>a\<close>, and a load from \<open>a\<close> in another transaction or environment.\<close>

definition mem_leak :: "gf \<Rightarrow> gf \<Rightarrow> gf \<Rightarrow> gf \<Rightarrow> trace" where
  "mem_leak tx env a v = set_rows 0
     [[(COL_MEM_IS_RW, 1), (COL_MEM_ADDR, a), (COL_MEM_OP, op_felt MSTORE), (COL_MEM_S_MSTORE, 1), (COL_MEM_IS_WRITE, 1),
       (COL_MEM_VALUE, v)],
      [(COL_MEM_TX_IDX, tx), (COL_MEM_ENV_IDX, env), (COL_MEM_IS_RW, 1), (COL_MEM_ADDR, a), (COL_MEM_OP, op_felt MLOAD),
       (COL_MEM_S_MLOAD, 1), (COL_MEM_VALUE, v)]]
     (zero_trace NUM_MEM_COLS 2)"

lemma mem_leak_cells:
  assumes "d < NUM_MEM_COLS"
  shows "mem_leak tx env a v ! d ! 0 = cell_value
      [(COL_MEM_IS_RW, 1), (COL_MEM_ADDR, a), (COL_MEM_OP, op_felt MSTORE), (COL_MEM_S_MSTORE, 1), (COL_MEM_IS_WRITE, 1),
       (COL_MEM_VALUE, v)] d 0"
    "mem_leak tx env a v ! d ! Suc 0 = cell_value
      [(COL_MEM_TX_IDX, tx), (COL_MEM_ENV_IDX, env), (COL_MEM_IS_RW, 1), (COL_MEM_ADDR, a), (COL_MEM_OP, op_felt MLOAD),
       (COL_MEM_S_MLOAD, 1), (COL_MEM_VALUE, v)] d 0"
proof -
  have z: "zero_trace NUM_MEM_COLS 2 ! d ! k = 0" if "k < 2" for k using assms that by (intro zero_trace_shape)
  show "mem_leak tx env a v ! d ! 0 = cell_value
      [(COL_MEM_IS_RW, 1), (COL_MEM_ADDR, a), (COL_MEM_OP, op_felt MSTORE), (COL_MEM_S_MSTORE, 1), (COL_MEM_IS_WRITE, 1),
       (COL_MEM_VALUE, v)] d 0"
    unfolding mem_leak_def by (subst nth_set_rows) (use assms z [of 0] in \<open>simp_all only: zero_trace_shape, simp_all\<close>)
  show "mem_leak tx env a v ! d ! Suc 0 = cell_value
      [(COL_MEM_TX_IDX, tx), (COL_MEM_ENV_IDX, env), (COL_MEM_IS_RW, 1), (COL_MEM_ADDR, a), (COL_MEM_OP, op_felt MLOAD),
       (COL_MEM_S_MLOAD, 1), (COL_MEM_VALUE, v)] d 0"
    unfolding mem_leak_def by (subst nth_set_rows) (use assms z [of "Suc 0"] in \<open>simp_all only: zero_trace_shape, simp_all\<close>)
qed

lemma mem_leak_table:
  assumes "(tx, env) = (0, 1) \<or> (tx, env) = (1, 0)"
  shows "mem_table (mem_leak tx env a v)"
proof -
  let ?t = "mem_leak tx env a v"
  have sh: "length ?t = NUM_MEM_COLS" "trace_length ?t = 2" by (simp_all add: mem_leak_def trace_length_def)
  have rect: "rectangular ?t"
    unfolding rectangular_def list_all_length sh by (simp add: mem_leak_def)
  let ?r0 = "trace_row ?t 0" and ?r1 = "trace_row ?t (Suc 0)"
  note rows = trace_row_def mem_leak_cells Let_def
  have "list_all (emit_holds 2 i) (mem_selector_cs ?r0)" "list_all (emit_holds 2 i) (mem_selector_cs ?r1)"
      "list_all (emit_holds 2 i) (mem_rw_cs ?r0)" "list_all (emit_holds 2 i) (mem_rw_cs ?r1)"
      "list_all (emit_holds 2 i) (mem_region_cs ?r0)" "list_all (emit_holds 2 i) (mem_region_cs ?r1)" for i
    by (simp_all add: mem_selector_cs_def mem_rw_cs_def mem_region_cs_def rows)
  moreover have "list_all (emit_holds 2 0) (mem_sort_cs ?r0 ?r1)" "list_all (emit_holds 2 (Suc 0)) (mem_sort_cs ?r1 ?r0)"
      "list_all (emit_holds 2 0) (mem_rc_cs ?r0 ?r1)" "list_all (emit_holds 2 (Suc 0)) (mem_rc_cs ?r1 ?r0)"
      "list_all (emit_holds 2 0) (mem_read_cs ?r0 ?r1)" "list_all (emit_holds 2 (Suc 0)) (mem_read_cs ?r1 ?r0)"
    using assms by (auto simp: mem_sort_cs_def mem_rc_cs_def mem_read_cs_def mem_same_env_def rows)
  ultimately have "list_all (emit_holds 2 0) (mem_eval ?r0 ?r1)" "list_all (emit_holds 2 (Suc 0)) (mem_eval ?r1 ?r0)"
    using assms by (auto simp: mem_eval_def rows)
  then have "satisfies mem_eval ?t" unfolding satisfies_all sh by (simp add: less_2_cases_iff)
  then show ?thesis using sh(1) rect by (simp add: mem_table_def)
qed

text \<open>
  C0: memory reads. In an accepted memory table every row other than an access of the heap pointer holds the value of the nearest
  write at or before it, of the same address and with only reads of that address between, or of the first row
  when that is a prophet read. The rows it goes through may belong to different environments: the table of a store
  followed by a load of the same address in another transaction or environment is accepted, for every address and value,
  although the first operation of an environment on an address is meant to be a write.
\<close>

theorem memory_reads:
  "(mem_table t \<and> i < trace_length t \<and> t ! COL_MEM_ADDR ! i \<noteq> gf_of ADDR_HEAP_PTR \<longrightarrow> (\<exists>j. mem_served_by t i j)) \<and>
   mem_table (mem_leak 0 1 a v) \<and> mem_table (mem_leak 1 0 a v)"
  using mem_reads mem_leak_table [of 0 1 a v] mem_leak_table [of 1 0 a v] by blast

subsection \<open>Generated tables\<close>

lemma mem_tx_rows_own:
  "i \<le> length cs \<Longrightarrow> mem_tx_rows i tx_idx cs (drop i cs) =
     Some (map (\<lambda>i. mem_cells tx_idx (if i = 0 then None else Some (cs ! (i - 1))) (cs ! i)) [i..<length cs])"
proof (induction "length cs - i" arbitrary: i)
  case (Suc n)
  then have i: "i < length cs" by simp
  then have "drop i cs = cs ! i # drop (Suc i) cs" "[i..<length cs] = i # [Suc i..<length cs]"
    by (simp_all add: Cons_nth_drop_Suc upt_conv_Cons)
  moreover have "\<not> (0 < i \<and> length cs \<le> i - 1)" using i by (cases i) auto
  ultimately show ?case using Suc.hyps(1) [of "Suc i"] Suc.hyps(2) i by simp
qed simp

lemma mem_tx_rows_None:
  "mem_tx_rows i tx_idx cs ys = None \<longleftrightarrow> ys \<noteq> [] \<and> 0 < i + length ys - 1 \<and> length cs \<le> i + length ys - 2"
proof (induction ys arbitrary: i)
  case (Cons y ys)
  have "mem_tx_rows i tx_idx cs (y # ys) = None \<longleftrightarrow>
      0 < i \<and> length cs \<le> i - 1 \<or> mem_tx_rows (Suc i) tx_idx cs ys = None" by simp
  then show ?case unfolding Cons.IH by (cases ys; cases i) auto
qed simp

lemma mem_batch_rows_None:
  "mem_batch_rows i tx_idx batch = None \<longleftrightarrow>
     (\<exists>k < length batch. batch ! k \<noteq> [] \<and> 2 \<le> i + length (concat (take k batch)))"
proof (induction batch arbitrary: i tx_idx)
  case (Cons cs batch)
  have "mem_tx_rows i (of_nat tx_idx) cs cs = None \<longleftrightarrow> cs \<noteq> [] \<and> 2 \<le> i"
    unfolding mem_tx_rows_None by (cases cs) auto
  moreover have "mem_batch_rows i tx_idx (cs # batch) = None \<longleftrightarrow>
      mem_tx_rows i (of_nat tx_idx) cs cs = None \<or> mem_batch_rows (i + length cs) (Suc tx_idx) batch = None"
    by (auto split: option.splits)
  ultimately show ?case unfolding Cons.IH
    by (simp only: length_Cons Ex_less_Suc2 nth_Cons_0 nth_Cons_Suc take_0 take_Suc_Cons concat.simps length_append list.size(3) add_0_right add.assoc)
qed simp

lemma gen_memory_trace_single: "gen_memory_trace [cells] = generate_memory_trace cells"
  using mem_tx_rows_own [of 0 cells 0] by (simp add: gen_memory_trace_def generate_memory_trace_def)

text \<open>The first row generated for no access at all has no selector set.\<close>

lemma empty_memory_trace:
  obtains t where "generate_memory_trace [] = Some t" "t ! COL_MEM_S_PROPHET ! 0 = 0" "\<not> mem_table t"
proof -
  define t where "t = set_rows 1 [mem_pad_row 0 0 (2 - 2 ^ 32) 1] (set_row 0 mem_empty_row (zero_trace NUM_MEM_COLS 2))"
  let ?a = "set_row 0 mem_empty_row (zero_trace NUM_MEM_COLS 2)"
  have len: "ext_trace_len 0 = 2" by (simp add: ext_trace_len_def)
  have a: "?a ! d ! 0 = cell_value mem_empty_row d 0" if "d < NUM_MEM_COLS" for d
    using that by (subst nth_set_row) simp_all
  have "mem_pad 1 2 ?a = Some t"
    unfolding mem_pad_def Let_def t_def using a by (simp add: mem_empty_row_def Let_def enumerate_eq_zip)
  then have gen: "generate_memory_trace [] = Some t"
    by (simp add: generate_memory_trace_def mem_finish_def Let_def len)
  have row: "t ! d ! 0 = cell_value mem_empty_row d 0" if "d < NUM_MEM_COLS" for d
    unfolding t_def using that a by (subst nth_set_rows) simp_all
  have n: "trace_length t = 2" by (simp add: t_def trace_length_def)
  have "\<not> list_all (emit_holds 2 0) (mem_selector_cs (trace_row t 0))"
    by (simp add: mem_selector_cs_def Let_def trace_row_def row mem_empty_row_def)
  then have "\<not> mem_table t"
    unfolding mem_table_def satisfies_all n mem_eval_def by (auto intro!: exI [of _ 0])
  then show ?thesis using that gen row by (simp add: mem_empty_row_def Let_def)
qed

text \<open>
  C0: the generation of the memory table. On a batch of one transaction the two generators agree. The one for
  batches indexes the cells of the current transaction with the row number of the batch: it panics exactly when a
  transaction with cells starts at row two or later, whatever the padding does. And for a trace
  with no access, the table generated is not accepted: its first row has no selector set.
\<close>

theorem memory_generation:
  "gen_memory_trace [cells] = generate_memory_trace cells \<and>
   (if \<exists>k < length batch. batch ! k \<noteq> [] \<and> 2 \<le> length (concat (take k batch))
    then gen_memory_trace batch = None
    else \<exists>rows. length rows = length (concat batch) \<and> gen_memory_trace batch = mem_finish rows) \<and>
   (case generate_memory_trace [] of None \<Rightarrow> False | Some t \<Rightarrow> \<not> mem_table t)"
proof (intro conjI gen_memory_trace_single)
  have rows: "length rows = length ys" if "mem_tx_rows i tx_idx cs ys = Some rows" for i tx_idx cs ys rows
    using that by (induction ys arbitrary: i rows) (auto split: if_splits)
  have batch: "length rows = length (concat batch)" if "mem_batch_rows i tx_idx batch = Some rows" for i tx_idx rows
    using that by (induction batch arbitrary: i tx_idx rows) (auto split: option.splits dest: rows)
  show "if \<exists>k < length batch. batch ! k \<noteq> [] \<and> 2 \<le> length (concat (take k batch))
    then gen_memory_trace batch = None
    else \<exists>rows. length rows = length (concat batch) \<and> gen_memory_trace batch = mem_finish rows"
    using mem_batch_rows_None [of 0 0 batch] batch [of 0 0]
    by (cases "mem_batch_rows 0 0 batch") (auto simp: gen_memory_trace_def)
  show "case generate_memory_trace [] of None \<Rightarrow> False | Some t \<Rightarrow> \<not> mem_table t"
    by (rule empty_memory_trace) simp
qed

end
