(* ===== verification/Spec2Isabelle.thy ===== *)
theory Spec2Isabelle
  imports TxProps Demo IsaDemo Converts CmpTable MemoryTable
begin

text \<open>
  The execution side of the Ola virtual machine, modelled from the Rust sources under \<open>src/\<close>, with the
  theorems that make it correct.

  \<^bold>\<open>The program.\<close> A block manager runs transactions one after another. A transaction runs contracts:
  its manager keeps a stack of contract environments, gives each a turn in the contract executor, and
  pushes or pops environments on contract calls and ends. The executor decodes a contract's bytecode,
  steps through it, reads and writes registers, memory, the tape (arguments and results of calls) and
  the storage, and records a trace for the prover. The storage caches the database on two levels, one
  per transaction and one per block. Arithmetic is in the Goldilocks field, storage keys are Poseidon
  hashes.

  \<^bold>\<open>Theories and sources.\<close>
  \<^item> \<open>Prelude\<close>: machine integers as words, results, traversals, state with errors; the generic lemmas.
  \<^item> \<open>Radix\<close>: printing and parsing of integers in the Rust standard library.
  \<^item> \<open>Goldilocks\<close>: \<open>plonky2/field/src/goldilocks_field.rs\<close>, word for word, and that it is arithmetic
    modulo p (locale \<open>modular_ring\<close>).
  \<^item> \<open>Errors\<close>, \<open>Opcodes\<close>, \<open>Operands\<close>, \<open>Hardware\<close>: \<open>core/src/vm\<close>. The locales \<open>cell_store\<close> and
    \<open>append_log\<close> are the contracts of memory and tape.
  \<^item> \<open>BinaryProgram\<close>: \<open>core/src/program/{binary_program,decoder}.rs\<close>, instruction words both ways.
  \<^item> \<open>Converts\<close>: \<open>core/src/util/converts.rs\<close>.
  \<^item> \<open>PoseidonConstants\<close>, \<open>Poseidon\<close>: the permutation and sponge of \<open>core/src/util/poseidon_utils.rs\<close>.
  \<^item> \<open>Storage\<close>: \<open>executor/src/ola_storage.rs\<close>; the locale \<open>tx_store\<close> is a map with transactions.
  \<^item> \<open>Trace\<close>: \<open>core/src/trace/exe_trace.rs\<close>, \<open>executor/src/exe_trace/tx.rs\<close>, \<open>core/src/vm/vm_state.rs\<close>.
  \<^item> \<open>Contract\<close>: \<open>executor/src/contract_executor.rs\<close>. \<open>process_*\<close> are the handlers, \<open>dispatch\<close> and
    \<open>process_step\<close> the step, \<open>run_one_step\<close> adds the clock and the outcome, \<open>resume\<close> is the loop.
  \<^item> \<open>TxManager\<close>: \<open>executor/src/{tx_exe_manager,batch_exe_manager,tx_pre_executor}.rs\<close>.
  \<^item> \<open>Isa\<close>: the instruction set as an abstract specification, and that the executor implements it.
  \<^item> \<open>StorageEffects\<close>, \<open>TxProps\<close>: what executions may do to the storage, and the properties of whole
    transactions and blocks.
  \<^item> \<open>Demo\<close>, \<open>IsaDemo\<close>: a contract run from its bytecode to the end of a block, in the model and in the
    specification; the concrete inputs of several theorems.

  \<^bold>\<open>Correspondence.\<close> A struct is a record, an enum a datatype, a method a function from the old state to
  the new one. \<open>u64\<close>, \<open>u32\<close>, \<open>u128\<close> are words, so that additions wrap as in a release build. A
  \<open>Result\<close> is a sum; errors keep their constructors, and a panic is the error \<open>Panicked\<close>. A storage
  operation returns the storage on its error branch too, because the block manager keeps it. Hash maps
  are maps, vectors are lists. Code of other crates and of the prophet interpreter is the record \<open>ext\<close>
  (RocksDB reads, bincode, the LRU cache of programs, secp256k1, the interpreter), an argument of the
  definitions that call it; no law about it is assumed.

  \<^bold>\<open>What is shown.\<close>
  \<^item> Field: every operation is the operation modulo p for all representatives, the compiler hints hold,
    reductions are correct up to their stated bounds.
  \<^item> Data: opcodes, operands, instructions and programs survive encoding and decoding; what decoding
    accepts is well-formed. Memory is a store of cells with an append-only part, the tape a list.
  \<^item> Storage: the two-level cache refines a map with begin, abort and commit.
  \<^item> Executor: one step implements one instruction of the specification on every opcode, errors included,
    and the loop implements runs of it; the loop ends.
  \<^item> Transactions: a failed transaction leaves the committed state alone, a successful one commits its
    final view; nested calls balance; events are numbered consecutively; a read-only call writes nothing.
  \<^item> Where the code departs from its purpose the theorem says so: the access log of a failed transaction
    leaks into the next one, the last transaction of a block commits the writes of a failed one, a
    truncated instruction is dropped, one conversion always panics, \<open>i128::MIN\<close> is an accepted immediate.

  \<^bold>\<open>Bounds and termination.\<close> The loop \<open>resume\<close> is a total function, because the clock grows to \<open>MAX_CLK\<close>.
  The loops \<open>invoke_loop\<close> and \<open>call_loop\<close> need not end (a contract may call itself forever) and are
  partial functions into an option; \<open>None\<close> is a run that does not end. The refinement of the
  instruction set asks that the tape has fewer than 2^60 cells and that the blocks an instruction names
  have fewer than 2^32 cells, so that no machine integer wraps, and it is about instructions without
  prophet code.

  \<^bold>\<open>Not modelled.\<close> The prophet interpreter (the executor sees its result), the textual assembler, the
  older executor in \<open>executor/src/lib.rs\<close>, the circuits and the proof system, the Merkle tree over
  RocksDB, and the command-line tools (input and output).
\<close>

end
